(* ===== verification/Go_Runtime.thy ===== *)
theory Go_Runtime
  imports Main "HOL-Library.Char_ord" "HOL-Library.List_Lexorder"
begin

text \<open>
  The part of the Go language and of its standard library that the sources of Open ASPM
  use, shared by every component theory:
  \<^item> \<open>int64\<close> arithmetic (\<open>wrap64\<close>) and \<open>time.Time\<close>/\<open>time.Duration\<close>: an instant is the
    number of nanoseconds since Go's zero time, so \<open>IsZero\<close> is equality with 0 and
    \<open>Truncate\<close> rounds down to a multiple counted from the zero time, as the package does;
  \<^item> Go strings, which are byte sequences: a \<open>string\<close> here is a list of bytes
    (\<open>char\<close>), with UTF-8 validity, rune counts, \<open>strings.TrimSpace\<close>, \<open>strings.IndexByte\<close>;
  \<^item> the anchored character-class patterns the packages compile with \<open>regexp.MustCompile\<close>
    and the identifier checks the packages repeat.
\<close>

named_theorems go_simps \<open>unfolding rules for the runtime's predicates\<close>

section \<open>Integers and time\<close>

type_synonym gotime = int
type_synonym duration = int

text \<open>The value a Go \<open>int64\<close> expression has: two's complement wrap-around at 64 bits.\<close>

definition wrap64 :: "int \<Rightarrow> int" where
  "wrap64 x = (x + 2 ^ 63) mod 2 ^ 64 - 2 ^ 63"

definition in_int64 :: "int \<Rightarrow> bool" where
  "in_int64 x \<longleftrightarrow> - (2 ^ 63) \<le> x \<and> x < 2 ^ 63"

lemma wrap64_id [simp]: "in_int64 x \<Longrightarrow> wrap64 x = x"
  by (simp add: wrap64_def in_int64_def mod_pos_pos_trivial)

lemma wrap64_range: "in_int64 (wrap64 x)"
proof -
  have "0 \<le> (x + 2 ^ 63) mod 2 ^ 64" "(x + 2 ^ 63) mod 2 ^ 64 < 2 ^ 64"
    by (rule pos_mod_sign, simp, rule pos_mod_bound, simp)
  then show ?thesis by (simp add: wrap64_def in_int64_def)
qed

text \<open>\<open>time.Time\<close>: \<open>IsZero\<close>, \<open>Add\<close>, \<open>Sub\<close> (which saturates), \<open>Truncate\<close>.\<close>

definition is_zero :: "gotime \<Rightarrow> bool" where
  "is_zero t \<longleftrightarrow> t = 0"

definition time_sub :: "gotime \<Rightarrow> gotime \<Rightarrow> duration" where
  "time_sub t u = (if t - u < - (2 ^ 63) then - (2 ^ 63)
                   else if t - u \<ge> 2 ^ 63 then 2 ^ 63 - 1 else t - u)"

definition truncate_us :: "gotime \<Rightarrow> gotime" where
  "truncate_us t = t - t mod 1000"

definition us :: "int" where "us = 1000"
definition second :: "int" where "second = 1000000000"
definition hour :: "int" where "hour = 3600 * second"

lemma truncate_us_le: "truncate_us t \<le> t"
  by (simp add: truncate_us_def)

lemma truncate_us_idem [simp]: "truncate_us (truncate_us t) = truncate_us t"
  by (simp add: truncate_us_def minus_mod_eq_mult_div)

lemma truncate_us_mono: "s \<le> t \<Longrightarrow> truncate_us s \<le> truncate_us t"
proof -
  assume "s \<le> t"
  then have "s div 1000 \<le> t div 1000" by (rule zdiv_mono1) simp
  then show ?thesis by (simp add: truncate_us_def minus_mod_eq_mult_div)
qed

lemma time_sub_range: "in_int64 (time_sub t u)"
  by (simp add: time_sub_def in_int64_def)

text \<open>Go's \<open>/\<close> truncates towards zero; every dividend of the sources is non-negative or a
  duration whose sign is written out here.\<close>

definition go_div :: "int \<Rightarrow> int \<Rightarrow> int" where
  "go_div a b = (if (a < 0) = (b < 0) then \<bar>a\<bar> div \<bar>b\<bar> else - (\<bar>a\<bar> div \<bar>b\<bar>))"

lemma go_div_nonneg [simp]: "0 \<le> a \<Longrightarrow> 0 < b \<Longrightarrow> go_div a b = a div b"
  by (simp add: go_div_def)

section \<open>Bytes and UTF-8\<close>

definition byte :: "char \<Rightarrow> nat" where
  "byte c = of_char c"

lemma byte_less: "byte c < 256"
  by (simp add: byte_def)

text \<open>The length of the valid UTF-8 sequence a byte string starts with, as
  \<open>utf8.DecodeRuneInString\<close> finds it; \<open>None\<close> where it reports \<open>RuneError\<close> of width 1.\<close>

definition cont :: "char \<Rightarrow> bool" where
  "cont c \<longleftrightarrow> 128 \<le> byte c \<and> byte c \<le> 191"

fun rune_size :: "string \<Rightarrow> nat option" where
  "rune_size [] = None"
| "rune_size (a # s) =
     (let x = byte a in
      if x < 128 then Some 1
      else if 194 \<le> x \<and> x \<le> 223 then
        (case s of b # _ \<Rightarrow> if cont b then Some 2 else None | _ \<Rightarrow> None)
      else if 224 \<le> x \<and> x \<le> 239 then
        (case s of b # c # _ \<Rightarrow>
           if cont b \<and> cont c \<and> (x = 224 \<longrightarrow> 160 \<le> byte b) \<and> (x = 237 \<longrightarrow> byte b \<le> 159)
           then Some 3 else None
         | _ \<Rightarrow> None)
      else if 240 \<le> x \<and> x \<le> 244 then
        (case s of b # c # d # _ \<Rightarrow>
           if cont b \<and> cont c \<and> cont d \<and> (x = 240 \<longrightarrow> 144 \<le> byte b) \<and> (x = 244 \<longrightarrow> byte b \<le> 143)
           then Some 4 else None
         | _ \<Rightarrow> None)
      else None)"

lemma rune_size_pos: "rune_size s = Some n \<Longrightarrow> 1 \<le> n \<and> n \<le> length s"
  by (cases s) (auto simp: Let_def split: if_splits list.splits)

function utf8_valid :: "string \<Rightarrow> bool" where
  "utf8_valid s =
     (if s = [] then True
      else case rune_size s of None \<Rightarrow> False | Some n \<Rightarrow> utf8_valid (drop n s))"
  by pat_completeness auto
termination
  by (relation "measure length") (auto dest!: rune_size_pos)

text \<open>\<open>utf8.RuneCountInString\<close>: an invalid byte counts as one rune.\<close>

function rune_count :: "string \<Rightarrow> nat" where
  "rune_count s =
     (if s = [] then 0
      else Suc (rune_count (drop (case rune_size s of None \<Rightarrow> 1 | Some n \<Rightarrow> n) s)))"
  by pat_completeness auto
termination
  by (relation "measure length") (auto dest!: rune_size_pos split: option.splits)

declare utf8_valid.simps [simp del] rune_count.simps [simp del]

lemma utf8_valid_Nil [simp]: "utf8_valid []"
  by (simp add: utf8_valid.simps)

lemma rune_count_Nil [simp]: "rune_count [] = 0"
  by (simp add: rune_count.simps)

definition ascii :: "char \<Rightarrow> bool" where
  "ascii c \<longleftrightarrow> byte c < 128"

lemma rune_size_ascii [simp]: "ascii c \<Longrightarrow> rune_size (c # s) = Some 1"
  by (simp add: ascii_def)

declare rune_size.simps(2) [simp del]

lemma utf8_valid_ascii [simp]: "ascii c \<Longrightarrow> utf8_valid (c # s) = utf8_valid s"
  by (subst utf8_valid.simps) simp

lemma rune_count_ascii [simp]: "ascii c \<Longrightarrow> rune_count (c # s) = Suc (rune_count s)"
  by (subst rune_count.simps) simp

lemma utf8_valid_all_ascii: "list_all ascii s \<Longrightarrow> utf8_valid s"
  by (induction s) simp_all

lemma rune_count_all_ascii: "list_all ascii s \<Longrightarrow> rune_count s = length s"
  by (induction s) simp_all

lemma rune_count_le: "rune_count s \<le> length s"
proof (induction s rule: rune_count.induct)
  case (1 s)
  show ?case
  proof (cases "s = []")
    case False
    define n where "n = (case rune_size s of None \<Rightarrow> 1 | Some n \<Rightarrow> n)"
    from False have "1 \<le> n \<and> n \<le> length s"
      by (cases s) (auto simp: n_def dest: rune_size_pos split: option.splits)
    from 1 False have "rune_count (drop n s) \<le> length s - n" by (simp add: n_def)
    with False \<open>1 \<le> n \<and> n \<le> length s\<close> show ?thesis
      by (subst rune_count.simps) (simp flip: n_def, linarith)
  qed simp
qed

lemma byte_char_of [simp]: "n < 256 \<Longrightarrow> byte (char_of n) = n"
  by (simp add: byte_def)

lemma rune_size_take: "rune_size s = Some n \<Longrightarrow> rune_size (take n s @ x) = Some n"
  by (cases s) (auto simp: rune_size.simps Let_def numeral_eq_Suc split: if_splits list.splits)

lemma rune_size_valid: "rune_size s = Some n \<Longrightarrow> utf8_valid (take n s)"
proof -
  assume n: "rune_size s = Some n"
  then have "rune_size (take n s) = Some n" using rune_size_take [of s n "[]"] by simp
  with rune_size_pos [OF n] show ?thesis by (subst utf8_valid.simps) simp
qed

lemma utf8_valid_append: "utf8_valid s \<Longrightarrow> utf8_valid t \<Longrightarrow> utf8_valid (s @ t)"
proof (induction s rule: utf8_valid.induct)
  case (1 s)
  show ?case
  proof (cases "s = []")
    case False
    with "1.prems"(1) obtain n where n: "rune_size s = Some n" and v: "utf8_valid (drop n s)"
      by (subst (asm) utf8_valid.simps) (auto split: option.splits)
    have le: "1 \<le> n" "n \<le> length s" using rune_size_pos [OF n] by auto
    have "rune_size (s @ t) = Some n"
      using rune_size_take [OF n, of "drop n s @ t"] by (simp flip: append_assoc)
    moreover have "utf8_valid (drop n s @ t)"
      using "1.IH" [OF False n] v "1.prems"(2) by simp
    ultimately show ?thesis using False le by (subst utf8_valid.simps) simp
  qed (simp add: "1.prems")
qed

section \<open>Strings\<close>

text \<open>\<open>strings.IndexByte(s, 0) >= 0\<close>.\<close>

definition nul_byte :: "char" where "nul_byte = CHR 0x00"

definition has_nul :: "string \<Rightarrow> bool" where
  "has_nul s \<longleftrightarrow> nul_byte \<in> set s"

text \<open>The UTF-8 encodings of the runes \<open>unicode.IsSpace\<close> holds of; \<open>strings.TrimSpace\<close>
  drops them at both ends, decoding forwards at the front and backwards at the back.\<close>

definition space_runes :: "string list" where
  "space_runes =
     [[CHR 0x09], [CHR 0x0A], [CHR 0x0B], [CHR 0x0C], [CHR 0x0D], [CHR 0x20],
      [CHR 0xC2, CHR 0x85], [CHR 0xC2, CHR 0xA0], [CHR 0xE1, CHR 0x9A, CHR 0x80]]
     @ map (\<lambda>b. [CHR 0xE2, CHR 0x80, b])
         [CHR 0x80, CHR 0x81, CHR 0x82, CHR 0x83, CHR 0x84, CHR 0x85, CHR 0x86, CHR 0x87,
          CHR 0x88, CHR 0x89, CHR 0x8A, CHR 0xA8, CHR 0xA9, CHR 0xAF]
     @ [[CHR 0xE2, CHR 0x81, CHR 0x9F], [CHR 0xE3, CHR 0x80, CHR 0x80]]"

fun strip_prefix :: "string \<Rightarrow> string \<Rightarrow> string option" where
  "strip_prefix [] s = Some s"
| "strip_prefix (p # ps) [] = None"
| "strip_prefix (p # ps) (c # cs) = (if p = c then strip_prefix ps cs else None)"

fun strip_any :: "string list \<Rightarrow> string \<Rightarrow> string option" where
  "strip_any [] s = None"
| "strip_any (p # ps) s =
     (if p = [] then strip_any ps s
      else case strip_prefix p s of Some r \<Rightarrow> Some r | None \<Rightarrow> strip_any ps s)"

lemma strip_prefix_Some: "strip_prefix p s = Some r \<longleftrightarrow> s = p @ r"
  by (induction p s rule: strip_prefix.induct) auto

lemma strip_any_shorter: "strip_any ps s = Some r \<Longrightarrow> length r < length s"
  by (induction ps) (auto simp: strip_prefix_Some split: if_splits option.splits)

function trim_left :: "string list \<Rightarrow> string \<Rightarrow> string" where
  "trim_left ps s = (case strip_any ps s of None \<Rightarrow> s | Some r \<Rightarrow> trim_left ps r)"
  by pat_completeness auto
termination
  by (relation "measure (\<lambda>(ps, s). length s)") (auto dest: strip_any_shorter)

declare trim_left.simps [simp del]

definition trim_space :: "string \<Rightarrow> string" where
  "trim_space s = rev (trim_left (map rev space_runes) (rev (trim_left space_runes s)))"

text \<open>\<open>strings.TrimSpace(s) == s\<close>.\<close>

definition trimmed :: "string \<Rightarrow> bool" where
  "trimmed s \<longleftrightarrow> trim_space s = s"

lemma trim_left_length: "length (trim_left ps s) \<le> length s"
proof (induction ps s rule: trim_left.induct)
  case (1 ps s)
  show ?case
  proof (cases "strip_any ps s")
    case None
    then show ?thesis by (simp add: trim_left.simps [of ps s])
  next
    case (Some r)
    with 1 have "length (trim_left ps r) \<le> length r" by simp
    with strip_any_shorter [OF Some] Some show ?thesis by (simp add: trim_left.simps [of ps s])
  qed
qed

lemma trim_space_length: "length (trim_space s) \<le> length s"
  using trim_left_length [of "map rev space_runes" "rev (trim_left space_runes s)"]
    trim_left_length [of space_runes s]
  by (simp add: trim_space_def)

lemma trim_left_fixed: "trim_left ps s = s \<longleftrightarrow> strip_any ps s = None"
proof
  assume eq: "trim_left ps s = s"
  show "strip_any ps s = None"
  proof (rule ccontr)
    assume "strip_any ps s \<noteq> None"
    then obtain r where r: "strip_any ps s = Some r" by blast
    then have "trim_left ps s = trim_left ps r" by (simp add: trim_left.simps [of ps s])
    with eq trim_left_length [of ps r] strip_any_shorter [OF r] show False by simp
  qed
qed (simp add: trim_left.simps)

text \<open>A string is its own trimming exactly when no white-space rune stands at either end.\<close>

lemma trimmed_iff:
  "trimmed s \<longleftrightarrow> strip_any space_runes s = None \<and> strip_any (map rev space_runes) (rev s) = None"
proof -
  have len: "length (trim_left space_runes s) = length s \<Longrightarrow> trim_left space_runes s = s"
  proof (rule ccontr)
    assume l: "length (trim_left space_runes s) = length s" and ne: "trim_left space_runes s \<noteq> s"
    then obtain r where r: "strip_any space_runes s = Some r"
      using trim_left_fixed by blast
    then have "trim_left space_runes s = trim_left space_runes r"
      by (simp add: trim_left.simps [of space_runes s])
    with l trim_left_length [of space_runes r] strip_any_shorter [OF r] show False by simp
  qed
  show ?thesis
  proof
    assume t: "trimmed s"
    then have "length s \<le> length (trim_left space_runes s)"
      using trim_left_length [of "map rev space_runes" "rev (trim_left space_runes s)"]
      by (simp add: trimmed_def trim_space_def) (metis length_rev)
    with len trim_left_length [of space_runes s] have l: "trim_left space_runes s = s" by simp
    with t have "trim_left (map rev space_runes) (rev s) = rev s"
      by (simp add: trimmed_def trim_space_def) (metis rev_rev_ident)
    with l show "strip_any space_runes s = None \<and> strip_any (map rev space_runes) (rev s) = None"
      by (simp add: trim_left_fixed)
  next
    assume "strip_any space_runes s = None \<and> strip_any (map rev space_runes) (rev s) = None"
    then show "trimmed s" by (simp add: trimmed_def trim_space_def trim_left.simps)
  qed
qed

lemma trimmed_Nil [simp]: "trimmed []"
  by (simp add: trimmed_iff space_runes_def)

lemma strip_any_first:
  "list_all (\<lambda>p. case p of [] \<Rightarrow> False | x # _ \<Rightarrow> x \<noteq> c) ps \<Longrightarrow> strip_any ps (c # s) = None"
  by (induction ps) (auto split: list.splits)

section \<open>Character classes and anchored patterns\<close>

definition in_range :: "char \<Rightarrow> char \<Rightarrow> char \<Rightarrow> bool" where
  "in_range lo hi c \<longleftrightarrow> byte lo \<le> byte c \<and> byte c \<le> byte hi"

definition is_lower :: "char \<Rightarrow> bool" where
  "is_lower c \<longleftrightarrow> in_range CHR ''a'' CHR ''z'' c"

definition is_upper :: "char \<Rightarrow> bool" where
  "is_upper c \<longleftrightarrow> in_range CHR ''A'' CHR ''Z'' c"

definition is_digit :: "char \<Rightarrow> bool" where
  "is_digit c \<longleftrightarrow> in_range CHR ''0'' CHR ''9'' c"

text \<open>\<open>[a-z0-9._-]\<close>, \<open>[a-z0-9._:-]\<close>, \<open>[a-z0-9.-]\<close>, \<open>[A-Za-z0-9._:-]\<close> and \<open>[a-z2-7]\<close>.\<close>

definition name_char :: "char \<Rightarrow> bool" where
  "name_char c \<longleftrightarrow> is_lower c \<or> is_digit c \<or> c = CHR ''.'' \<or> c = CHR ''_'' \<or> c = CHR ''-''"

definition capability_char :: "char \<Rightarrow> bool" where
  "capability_char c \<longleftrightarrow> name_char c \<or> c = CHR '':''"

definition failure_char :: "char \<Rightarrow> bool" where
  "failure_char c \<longleftrightarrow> is_lower c \<or> is_digit c \<or> c = CHR ''.'' \<or> c = CHR ''-''"

definition key_char :: "char \<Rightarrow> bool" where
  "key_char c \<longleftrightarrow> capability_char c \<or> is_upper c"

definition base32_char :: "char \<Rightarrow> bool" where
  "base32_char c \<longleftrightarrow> is_lower c \<or> in_range CHR ''2'' CHR ''7'' c"

lemmas class_defs = name_char_def capability_char_def failure_char_def key_char_def
  base32_char_def is_lower_def is_upper_def is_digit_def in_range_def

text \<open>\<open>^[a-z][C]{0,n}$\<close>: \<open>$\<close> without the multi-line flag matches at the end of the text only.\<close>

definition pat_ident :: "(char \<Rightarrow> bool) \<Rightarrow> nat \<Rightarrow> string \<Rightarrow> bool" where
  "pat_ident C n s \<longleftrightarrow>
     (case s of [] \<Rightarrow> False | c # cs \<Rightarrow> is_lower c \<and> length cs \<le> n \<and> list_all C cs)"

text \<open>\<open>^[C]{lo,hi}$\<close>.\<close>

definition pat_run :: "(char \<Rightarrow> bool) \<Rightarrow> nat \<Rightarrow> nat \<Rightarrow> string \<Rightarrow> bool" where
  "pat_run C lo hi s \<longleftrightarrow> lo \<le> length s \<and> length s \<le> hi \<and> list_all C s"

text \<open>\<open>^p[C]{n}$\<close> with a literal prefix.\<close>

definition pat_prefixed :: "string \<Rightarrow> (char \<Rightarrow> bool) \<Rightarrow> nat \<Rightarrow> string \<Rightarrow> bool" where
  "pat_prefixed p C n s \<longleftrightarrow>
     (case strip_prefix p s of None \<Rightarrow> False | Some r \<Rightarrow> length r = n \<and> list_all C r)"

lemma pat_prefixed_append: "pat_prefixed p C n (p @ r) \<longleftrightarrow> length r = n \<and> list_all C r"
proof -
  have "strip_prefix p (p @ r) = Some r" by (simp add: strip_prefix_Some)
  then show ?thesis by (simp add: pat_prefixed_def)
qed

section \<open>Identifier checks shared by the packages\<close>

text \<open>Most packages repeat the same two helpers, \<open>validOpaqueID\<close> and \<open>validText\<close>
  (for example \<open>ingestion/types.go\<close> and \<open>ingestion/scan.go\<close>).\<close>

definition validOpaqueID :: "string \<Rightarrow> bool" where
  "validOpaqueID v \<longleftrightarrow>
     utf8_valid v \<and> 3 \<le> rune_count v \<and> rune_count v \<le> 128 \<and> trimmed v \<and> \<not> has_nul v"

definition validText :: "string \<Rightarrow> nat \<Rightarrow> nat \<Rightarrow> bool" where
  "validText v lo hi \<longleftrightarrow>
     utf8_valid v \<and> lo \<le> rune_count v \<and> rune_count v \<le> hi \<and> \<not> has_nul v"

definition validOptionalText :: "string \<Rightarrow> nat \<Rightarrow> bool" where
  "validOptionalText v hi \<longleftrightarrow> v = [] \<or> validText v 1 hi"

definition validOptionalBytes :: "string \<Rightarrow> nat \<Rightarrow> bool" where
  "validOptionalBytes v n \<longleftrightarrow> v = [] \<or> (utf8_valid v \<and> length v \<le> n \<and> \<not> has_nul v)"

lemma validOpaqueID_nonempty: "validOpaqueID v \<Longrightarrow> v \<noteq> []"
  by (auto simp: validOpaqueID_def)

end
