(* ===== verification/Go_Encoding.thy ===== *)
theory Go_Encoding
  imports Go_Runtime
begin

text \<open>
  Textual encodings of the Go standard library: decimal integers (\<open>strconv.Itoa\<close>,
  \<open>encoding/json\<close> integers), \<open>hex.EncodeToString\<close>, the lower-case unpadded base32 text every
  package's \<open>randomID\<close> produces, and \<open>time.RFC3339Nano\<close> in UTC.
\<close>

section \<open>Decimal integers\<close>

definition digit_char :: "nat \<Rightarrow> char" where
  "digit_char d = char_of (48 + d)"

fun nat_digits :: "nat \<Rightarrow> string" where
  "nat_digits n = (if n < 10 then [digit_char n] else nat_digits (n div 10) @ [digit_char (n mod 10)])"

declare nat_digits.simps [simp del]

definition itoa :: "int \<Rightarrow> string" where
  "itoa i = (if i < 0 then CHR ''-'' # nat_digits (nat (- i)) else nat_digits (nat i))"

lemma byte_digit_char [simp]: "d < 10 \<Longrightarrow> byte (digit_char d) = 48 + d"
  by (simp add: byte_def digit_char_def)

lemma digit_char_inj: "d < 10 \<Longrightarrow> e < 10 \<Longrightarrow> digit_char d = digit_char e \<longleftrightarrow> d = e"
  by (metis add_left_cancel byte_digit_char)

lemma is_digit_digit_char [simp]: "d < 10 \<Longrightarrow> is_digit (digit_char d)"
  by (simp add: is_digit_def in_range_def byte_def digit_char_def)

lemma nat_digits_digits: "list_all is_digit (nat_digits n)"
proof (induction n rule: nat_digits.induct)
  case (1 n)
  then show ?case by (subst nat_digits.simps) simp
qed

lemma nat_digits_nonempty [simp]: "nat_digits n \<noteq> []"
  by (subst nat_digits.simps) simp

lemma nil_nat_digits [simp]: "[] \<noteq> nat_digits n"
  using nat_digits_nonempty [of n] by metis

lemma nat_digits_inj: "nat_digits m = nat_digits n \<Longrightarrow> m = n"
proof (induction m arbitrary: n rule: nat_digits.induct)
  case (1 m)
  show ?case
  proof (cases "m < 10"; cases "n < 10")
    assume "m < 10" "n < 10"
    with 1 show ?thesis by (simp add: nat_digits.simps digit_char_inj)
  next
    assume "m < 10" "\<not> n < 10"
    with 1 show ?thesis by (simp add: nat_digits.simps [of m] nat_digits.simps [of n])
  next
    assume "\<not> m < 10" "n < 10"
    with 1 show ?thesis by (simp add: nat_digits.simps [of m] nat_digits.simps [of n])
  next
    assume big: "\<not> m < 10" "\<not> n < 10"
    with 1(2) have "nat_digits (m div 10) = nat_digits (n div 10)"
      and "digit_char (m mod 10) = digit_char (n mod 10)"
      by (simp_all add: nat_digits.simps [of m] nat_digits.simps [of n])
    with 1(1) big have "m div 10 = n div 10" "m mod 10 = n mod 10"
      by (simp_all add: digit_char_inj)
    then show ?thesis by (metis div_mult_mod_eq)
  qed
qed

lemma is_digit_not_minus: "is_digit c \<Longrightarrow> c \<noteq> CHR ''-''"
  by (auto simp: is_digit_def in_range_def byte_def)

lemma itoa_inj: "itoa i = itoa j \<longleftrightarrow> i = j"
proof
  assume eq: "itoa i = itoa j"
  have hd: "hd (nat_digits n) \<noteq> CHR ''-''" for n
    using nat_digits_digits [of n] by (cases "nat_digits n") (auto dest: is_digit_not_minus)
  show "i = j"
  proof (cases "i < 0"; cases "j < 0")
    assume "i < 0" "j < 0"
    with eq have "nat (- i) = nat (- j)" by (auto simp: itoa_def dest: nat_digits_inj)
    with \<open>i < 0\<close> \<open>j < 0\<close> show ?thesis by simp
  next
    assume "i < 0" "\<not> j < 0"
    with eq hd [of "nat j"] show ?thesis by (auto simp: itoa_def) (metis list.sel(1))
  next
    assume "\<not> i < 0" "j < 0"
    with eq hd [of "nat i"] show ?thesis by (auto simp: itoa_def)
  next
    assume "\<not> i < 0" "\<not> j < 0"
    with eq have "nat i = nat j" by (auto simp: itoa_def dest: nat_digits_inj)
    with \<open>\<not> i < 0\<close> \<open>\<not> j < 0\<close> show ?thesis by simp
  qed
qed simp

section \<open>Hexadecimal\<close>

definition hex_digit :: "nat \<Rightarrow> char" where
  "hex_digit d = (if d < 10 then char_of (48 + d) else char_of (87 + d))"

definition hex_of :: "string \<Rightarrow> string" where
  "hex_of s = concat (map (\<lambda>c. [hex_digit (byte c div 16), hex_digit (byte c mod 16)]) s)"

definition hex_char :: "char \<Rightarrow> bool" where
  "hex_char c \<longleftrightarrow> is_digit c \<or> in_range CHR ''a'' CHR ''f'' c"

lemma hex_digit_char: "d < 16 \<Longrightarrow> hex_char (hex_digit d)"
  by (auto simp: hex_char_def hex_digit_def is_digit_def in_range_def byte_def)

lemma hex_of_length [simp]: "length (hex_of s) = 2 * length s"
  by (induction s) (auto simp: hex_of_def)

lemma hex_of_chars: "list_all hex_char (hex_of s)"
  by (induction s) (auto simp: hex_of_def hex_digit_char byte_less less_mult_imp_div_less)

lemma hex_digit_inj: "d < 16 \<Longrightarrow> e < 16 \<Longrightarrow> hex_digit d = hex_digit e \<Longrightarrow> d = e"
proof -
  assume "d < 16" "e < 16" "hex_digit d = hex_digit e"
  then have "byte (hex_digit d) = byte (hex_digit e)" by simp
  with \<open>d < 16\<close> \<open>e < 16\<close> show "d = e"
    by (simp add: hex_digit_def byte_def split: if_splits)
qed

lemma byte_inj: "byte c = byte d \<longleftrightarrow> c = d"
  by (simp add: byte_def)

lemma hex_of_inj: "hex_of s = hex_of t \<Longrightarrow> s = t"
proof (induction s arbitrary: t)
  case Nil
  then show ?case by (cases t) (auto simp: hex_of_def)
next
  case (Cons c s)
  then obtain d u where t: "t = d # u" by (cases t) (auto simp: hex_of_def)
  with Cons.prems have "hex_digit (byte c div 16) = hex_digit (byte d div 16)"
    "hex_digit (byte c mod 16) = hex_digit (byte d mod 16)" and tl: "hex_of s = hex_of u"
    by (simp_all add: hex_of_def)
  then have "byte c div 16 = byte d div 16" "byte c mod 16 = byte d mod 16"
    by (auto intro!: hex_digit_inj simp: byte_less less_mult_imp_div_less)
  then have "c = d" by (metis byte_inj div_mult_mod_eq)
  with t Cons.IH [OF tl] show ?case by simp
qed

section \<open>Random identifiers\<close>

text \<open>\<open>strings.ToLower(base32.StdEncoding.WithPadding(base32.NoPadding).EncodeToString(v))\<close>:
  the big-endian bit string of the bytes cut into groups of five, the last group filled with
  zero bits.\<close>

definition byte_bits :: "char \<Rightarrow> bool list" where
  "byte_bits c = map (\<lambda>i. odd (byte c div 2 ^ i)) [7, 6, 5, 4, 3, 2, 1, 0]"

definition base32_digit :: "nat \<Rightarrow> char" where
  "base32_digit d = (if d < 26 then char_of (97 + d) else char_of (24 + d))"

fun bits_value :: "bool list \<Rightarrow> nat" where
  "bits_value [] = 0"
| "bits_value (b # bs) = (if b then 2 ^ length bs else 0) + bits_value bs"

fun base32_bits :: "bool list \<Rightarrow> string" where
  "base32_bits [] = []"
| "base32_bits (a # b # c # d # e # bs) = base32_digit (bits_value [a, b, c, d, e]) # base32_bits bs"
| "base32_bits bs = [base32_digit (bits_value (take 5 (bs @ replicate 5 False)))]"

definition base32_lower :: "string \<Rightarrow> string" where
  "base32_lower s = base32_bits (concat (map byte_bits s))"

lemma bits_value_less: "bits_value bs < 2 ^ length bs"
  by (induction bs) auto

lemma base32_digit_char: "d < 32 \<Longrightarrow> base32_char (base32_digit d)"
  by (auto simp: base32_char_def base32_digit_def is_lower_def in_range_def byte_def)

lemma base32_bits_length: "length (base32_bits bs) = (length bs + 4) div 5"
  by (induction bs rule: base32_bits.induct) auto

lemma base32_bits_chars: "list_all base32_char (base32_bits bs)"
proof (induction bs rule: base32_bits.induct)
  case (2 a b c d e bs)
  then show ?case using bits_value_less [of "[a, b, c, d, e]"] by (simp add: base32_digit_char)
qed (auto intro!: base32_digit_char simp: numeral_eq_Suc)

lemma byte_bits_length: "length (concat (map byte_bits s)) = 8 * length s"
  by (induction s) (auto simp: byte_bits_def)

lemma base32_lower_length: "length (base32_lower s) = (8 * length s + 4) div 5"
  by (simp only: base32_lower_def base32_bits_length byte_bits_length)

lemma base32_lower_chars: "list_all base32_char (base32_lower s)"
  by (simp add: base32_lower_def base32_bits_chars)

lemma base32_char_key: "base32_char c \<Longrightarrow> ascii c \<and> key_char c \<and> c \<noteq> nul_byte"
  by (auto simp: class_defs ascii_def byte_def nul_byte_def)

text \<open>The shape of every \<open>randomID(prefix, n)\<close>: the random source either fails or yields
  the bytes that are encoded.\<close>

definition random_text :: "string \<Rightarrow> string \<Rightarrow> string" where
  "random_text prefix bytes = prefix @ base32_lower bytes"

lemma random_text_length: "length (random_text p bs) = length p + (8 * length bs + 4) div 5"
  by (simp add: random_text_def base32_lower_length)

section \<open>RFC 3339 time stamps\<close>

text \<open>The proleptic Gregorian calendar date of the day with the given number, counted from
  1 January of year 1, by 400-year cycles of 146097 days.\<close>

definition year_start :: "int \<Rightarrow> int" where
  "year_start y = 365 * (y - 1) + (y - 1) div 4 - (y - 1) div 100 + (y - 1) div 400"

definition leap :: "int \<Rightarrow> bool" where
  "leap y \<longleftrightarrow> y mod 4 = 0 \<and> (y mod 100 \<noteq> 0 \<or> y mod 400 = 0)"

definition month_lengths :: "int \<Rightarrow> int list" where
  "month_lengths y = [31, if leap y then 29 else 28, 31, 30, 31, 30, 31, 31, 30, 31, 30, 31]"

definition year_of_day :: "int \<Rightarrow> int" where
  "year_of_day d = (let y = (d * 400) div 146097 + 1 in
     if d < year_start y then y - 1 else if year_start (y + 1) \<le> d then y + 1 else y)"

fun month_day :: "int list \<Rightarrow> int \<Rightarrow> int \<Rightarrow> int \<times> int" where
  "month_day [] m d = (m, d + 1)"
| "month_day (l # ls) m d = (if d < l then (m, d + 1) else month_day ls (m + 1) (d - l))"

definition civil :: "int \<Rightarrow> int \<times> int \<times> int" where
  "civil d = (let y = year_of_day d in (y, month_day (month_lengths y) 1 (d - year_start y)))"

definition pad_int :: "nat \<Rightarrow> int \<Rightarrow> string" where
  "pad_int w i = (let t = nat_digits (nat \<bar>i\<bar>) in
     (if i < 0 then [CHR ''-''] else []) @ replicate (w - length t) CHR ''0'' @ t)"

definition trim_zeros :: "string \<Rightarrow> string" where
  "trim_zeros s = rev (dropWhile (\<lambda>c. c = CHR ''0'') (rev s))"

definition rfc3339nano :: "gotime \<Rightarrow> string" where
  "rfc3339nano t =
    (let ns = t mod second; s = t div second; sod = s mod 86400; (y, m, d) = civil (s div 86400);
         frac = trim_zeros (pad_int 9 ns)
     in pad_int 4 y @ ''-'' @ pad_int 2 m @ ''-'' @ pad_int 2 d @ ''T'' @
        pad_int 2 (sod div 3600) @ '':'' @ pad_int 2 (sod mod 3600 div 60) @ '':'' @
        pad_int 2 (sod mod 60) @ (if frac = [] then [] else CHR ''.'' # frac) @ ''Z'')"

lemma civil_example: "civil 739783 = (2026, 6, 17)"
  by (simp add: civil_def year_of_day_def year_start_def month_lengths_def leap_def)

end
