(* ===== verification/Go_Json.thy ===== *)
theory Go_Json
  imports Go_Encoding "HOL-Library.Monad_Syntax"
begin

text \<open>
  The package \<open>encoding/json\<close> as the sources use it.  A decoded document is a \<open>json\<close>
  value whose object members keep document order and duplicates; \<open>canon\<close> is the value decoding
  into \<open>any\<close> or \<open>map[string]any\<close> (with \<open>UseNumber\<close>) leaves: the last duplicate wins, and
  \<open>json.Marshal\<close> writes the keys in byte order.  \<open>json_parse\<close> is the scanner with its
  nesting limit and its string unquoting; \<open>marshal\<close> is the encoder with HTML escaping on.
  \<open>Go_Json_Facts\<close> holds the round trip that makes a canonical payload a fixed point.
\<close>

datatype json =
    JNull
  | JBool bool
  | JNum string
  | JStr string
  | JArr "json list"
  | JObj "(string \<times> json) list"

abbreviation (input) dquote :: "char" where "dquote \<equiv> CHR 0x22"
abbreviation (input) bslash :: "char" where "bslash \<equiv> CHR 0x5C"

section \<open>String literals\<close>

text \<open>\<open>utf8.EncodeRune\<close>.\<close>

definition utf8_encode :: "nat \<Rightarrow> string" where
  "utf8_encode r =
    (if r < 128 then [char_of r]
     else if r < 2048 then [char_of (192 + r div 64), char_of (128 + r mod 64)]
     else if r < 65536 then
       [char_of (224 + r div 4096), char_of (128 + r div 64 mod 64), char_of (128 + r mod 64)]
     else [char_of (240 + r div 262144), char_of (128 + r div 4096 mod 64),
           char_of (128 + r div 64 mod 64), char_of (128 + r mod 64)])"

definition rune_error :: "string" where
  "rune_error = [CHR 0xEF, CHR 0xBF, CHR 0xBD]"

definition hex_val :: "char \<Rightarrow> nat option" where
  "hex_val c =
    (if is_digit c then Some (byte c - 48)
     else if in_range CHR ''a'' CHR ''f'' c then Some (byte c - 87)
     else if in_range CHR ''A'' CHR ''F'' c then Some (byte c - 55)
     else None)"

text \<open>\<open>getu4\<close> without its leading backslash and \<open>u\<close>.\<close>

fun hex4 :: "string \<Rightarrow> (nat \<times> string) option" where
  "hex4 (a # b # c # d # r) =
     do { w \<leftarrow> hex_val a; x \<leftarrow> hex_val b; y \<leftarrow> hex_val c; z \<leftarrow> hex_val d;
          Some (((w * 16 + x) * 16 + y) * 16 + z, r) }"
| "hex4 _ = None"

definition second_surrogate :: "string \<Rightarrow> (nat \<times> string) option" where
  "second_surrogate r =
     (case strip_prefix [bslash, CHR ''u''] r of
        None \<Rightarrow> None
      | Some q \<Rightarrow> do { (lo, q') \<leftarrow> hex4 q; if 56320 \<le> lo \<and> lo < 57344 then Some (lo, q') else None })"

definition scan_unicode :: "string \<Rightarrow> (string \<times> string) option" where
  "scan_unicode r =
     do { (u, q) \<leftarrow> hex4 r;
          if u < 55296 \<or> 57344 \<le> u then Some (utf8_encode u, q)
          else if u < 56320 then
            (case second_surrogate q of
               Some (lo, q') \<Rightarrow> Some (utf8_encode ((u - 55296) * 1024 + (lo - 56320) + 65536), q')
             | None \<Rightarrow> Some (rune_error, q))
          else Some (rune_error, q) }"

definition simple_escape :: "char \<Rightarrow> char option" where
  "simple_escape c =
    (if c = dquote \<or> c = bslash \<or> c = CHR ''/'' then Some c
     else if c = CHR ''b'' then Some CHR 0x08
     else if c = CHR ''f'' then Some CHR 0x0C
     else if c = CHR ''n'' then Some CHR 0x0A
     else if c = CHR ''r'' then Some CHR 0x0D
     else if c = CHR ''t'' then Some CHR 0x09
     else None)"

fun scan_escape :: "string \<Rightarrow> (string \<times> string) option" where
  "scan_escape [] = None"
| "scan_escape (c # r) =
     (if c = CHR ''u'' then scan_unicode r
      else case simple_escape c of None \<Rightarrow> None | Some e \<Rightarrow> Some ([e], r))"

lemma hex4_shorter: "hex4 s = Some (u, r) \<Longrightarrow> length r < length s"
  by (induction s rule: hex4.induct) (auto simp: bind_eq_Some_conv)

lemma second_surrogate_shorter: "second_surrogate s = Some (u, r) \<Longrightarrow> length r < length s"
proof -
  assume s: "second_surrogate s = Some (u, r)"
  then obtain q where q: "strip_prefix [bslash, CHR ''u''] s = Some q"
    by (auto simp: second_surrogate_def split: option.splits)
  with s have "hex4 q = Some (u, r)"
    by (auto simp: second_surrogate_def bind_eq_Some_conv split: if_splits)
  with q show ?thesis using hex4_shorter by (fastforce simp: strip_prefix_Some)
qed

lemma scan_unicode_shorter: "scan_unicode s = Some (t, r) \<Longrightarrow> length r < length s"
proof -
  assume s: "scan_unicode s = Some (t, r)"
  then obtain u q where q: "hex4 s = Some (u, q)"
    by (auto simp: scan_unicode_def bind_eq_Some_conv)
  have "length r \<le> length q"
    using s second_surrogate_shorter [of q]
    by (cases "second_surrogate q") (force simp: scan_unicode_def q split: if_splits)+
  with hex4_shorter [OF q] show ?thesis by simp
qed

lemma scan_escape_shorter: "scan_escape s = Some (t, r) \<Longrightarrow> length r < length s"
  by (cases s) (auto dest!: scan_unicode_shorter split: option.splits if_splits)

text \<open>The text after an opening quote: the unquoted bytes and what follows the closing quote.
  A control byte or a bad escape fails; an invalid UTF-8 byte becomes U+FFFD.\<close>

function scan_str :: "string \<Rightarrow> (string \<times> string) option" where
  "scan_str s =
     (case s of
        [] \<Rightarrow> None
      | c # r \<Rightarrow>
          if c = dquote then Some ([], r)
          else if c = bslash then
            (case scan_escape r of
               None \<Rightarrow> None
             | Some (t, r') \<Rightarrow> map_option (\<lambda>(u, q). (t @ u, q)) (scan_str r'))
          else if byte c < 32 then None
          else
            (case rune_size (c # r) of
               None \<Rightarrow> map_option (\<lambda>(u, q). (rune_error @ u, q)) (scan_str r)
             | Some n \<Rightarrow> map_option (\<lambda>(u, q). (take n s @ u, q)) (scan_str (drop n s))))"
  by pat_completeness auto
termination
  by (relation "measure length") (auto dest!: scan_escape_shorter rune_size_pos)

declare scan_str.simps [simp del]

text \<open>\<open>appendString\<close> with HTML escaping.\<close>

definition quote_ascii :: "char \<Rightarrow> string" where
  "quote_ascii c =
    (if c = dquote \<or> c = bslash then [bslash, c]
     else if c = CHR 0x08 then [bslash, CHR ''b'']
     else if c = CHR 0x0C then [bslash, CHR ''f'']
     else if c = CHR 0x0A then [bslash, CHR ''n'']
     else if c = CHR 0x0D then [bslash, CHR ''r'']
     else if c = CHR 0x09 then [bslash, CHR ''t'']
     else if byte c < 32 \<or> c = CHR ''<'' \<or> c = CHR ''>'' \<or> c = CHR ''&'' then
       [bslash, CHR ''u'', CHR ''0'', CHR ''0'', hex_digit (byte c div 16), hex_digit (byte c mod 16)]
     else [c])"

definition quote_rune :: "string \<Rightarrow> string" where
  "quote_rune u =
    (if u = [CHR 0xE2, CHR 0x80, CHR 0xA8] then bslash # ''u2028''
     else if u = [CHR 0xE2, CHR 0x80, CHR 0xA9] then bslash # ''u2029''
     else u)"

function quote_body :: "string \<Rightarrow> string" where
  "quote_body s =
     (case s of
        [] \<Rightarrow> []
      | c # r \<Rightarrow>
          if ascii c then quote_ascii c @ quote_body r
          else
            (case rune_size (c # r) of
               None \<Rightarrow> bslash # ''ufffd'' @ quote_body r
             | Some n \<Rightarrow> quote_rune (take n s) @ quote_body (drop n s)))"
  by pat_completeness auto
termination
  by (relation "measure length") (auto dest!: rune_size_pos)

declare quote_body.simps [simp del]

definition quote :: "string \<Rightarrow> string" where
  "quote s = dquote # quote_body s @ [dquote]"

section \<open>Numbers\<close>

definition p_int :: "string \<Rightarrow> (string \<times> string) option" where
  "p_int s = (case s of
       [] \<Rightarrow> None
     | c # r \<Rightarrow> if c = CHR ''0'' then Some ([c], r)
                else if is_digit c then Some (c # takeWhile is_digit r, dropWhile is_digit r)
                else None)"

definition p_frac :: "string \<Rightarrow> (string \<times> string) option" where
  "p_frac s = (case s of
       [] \<Rightarrow> Some ([], [])
     | c # r \<Rightarrow> if c \<noteq> CHR ''.'' then Some ([], s)
                else if takeWhile is_digit r = [] then None
                else Some (c # takeWhile is_digit r, dropWhile is_digit r))"

definition p_sign :: "string \<Rightarrow> string \<times> string" where
  "p_sign s = (case s of
       [] \<Rightarrow> ([], [])
     | c # r \<Rightarrow> if c = CHR ''+'' \<or> c = CHR ''-'' then ([c], r) else ([], s))"

definition p_exp :: "string \<Rightarrow> (string \<times> string) option" where
  "p_exp s = (case s of
       [] \<Rightarrow> Some ([], [])
     | c # r \<Rightarrow> if c \<noteq> CHR ''e'' \<and> c \<noteq> CHR ''E'' then Some ([], s)
                else let (sg, r') = p_sign r in
                  if takeWhile is_digit r' = [] then None
                  else Some (c # sg @ takeWhile is_digit r', dropWhile is_digit r'))"

definition p_minus :: "string \<Rightarrow> string \<times> string" where
  "p_minus s = (case s of
       [] \<Rightarrow> ([], [])
     | c # r \<Rightarrow> if c = CHR ''-'' then ([c], r) else ([], s))"

definition p_number :: "string \<Rightarrow> (string \<times> string) option" where
  "p_number s =
     (let (m, r0) = p_minus s in
      do { (i, r1) \<leftarrow> p_int r0; (f, r2) \<leftarrow> p_frac r1; (e, r3) \<leftarrow> p_exp r2;
           Some (m @ i @ f @ e, r3) })"

section \<open>Documents\<close>

definition is_ws :: "char \<Rightarrow> bool" where
  "is_ws c \<longleftrightarrow> c = CHR 0x20 \<or> c = CHR 0x09 \<or> c = CHR 0x0A \<or> c = CHR 0x0D"

definition skip_ws :: "string \<Rightarrow> string" where
  "skip_ws s = dropWhile is_ws s"

text \<open>The scanner's \<open>maxNestingDepth\<close>.\<close>

definition max_nesting :: "nat" where "max_nesting = 10000"

fun p_value :: "nat \<Rightarrow> nat \<Rightarrow> string \<Rightarrow> (json \<times> string) option"
  and p_elements :: "nat \<Rightarrow> nat \<Rightarrow> string \<Rightarrow> (json list \<times> string) option"
  and p_members :: "nat \<Rightarrow> nat \<Rightarrow> string \<Rightarrow> ((string \<times> json) list \<times> string) option" where
  "p_value 0 d s = None"
| "p_value (Suc n) d s =
     (case skip_ws s of
        [] \<Rightarrow> None
      | c # r \<Rightarrow>
          if c = CHR ''{'' then
            if d = 0 then None
            else if skip_ws r \<noteq> [] \<and> hd (skip_ws r) = CHR ''}'' then Some (JObj [], tl (skip_ws r))
            else do { (ms, q) \<leftarrow> p_members n (d - 1) r; Some (JObj ms, q) }
          else if c = CHR ''['' then
            if d = 0 then None
            else if skip_ws r \<noteq> [] \<and> hd (skip_ws r) = CHR '']'' then Some (JArr [], tl (skip_ws r))
            else do { (vs, q) \<leftarrow> p_elements n (d - 1) r; Some (JArr vs, q) }
          else if c = dquote then do { (t, q) \<leftarrow> scan_str r; Some (JStr t, q) }
          else if c = CHR ''n'' then do { q \<leftarrow> strip_prefix ''ull'' r; Some (JNull, q) }
          else if c = CHR ''t'' then do { q \<leftarrow> strip_prefix ''rue'' r; Some (JBool True, q) }
          else if c = CHR ''f'' then do { q \<leftarrow> strip_prefix ''alse'' r; Some (JBool False, q) }
          else do { (t, q) \<leftarrow> p_number (c # r); Some (JNum t, q) })"
| "p_elements 0 d s = None"
| "p_elements (Suc n) d s =
     do { (v, r) \<leftarrow> p_value n d s;
          (case skip_ws r of
             [] \<Rightarrow> None
           | c # q \<Rightarrow>
               if c = CHR '']'' then Some ([v], q)
               else if c = CHR '','' then do { (vs, q') \<leftarrow> p_elements n d q; Some (v # vs, q') }
               else None) }"
| "p_members 0 d s = None"
| "p_members (Suc n) d s =
     (case skip_ws s of
        [] \<Rightarrow> None
      | c # r \<Rightarrow>
          if c \<noteq> dquote then None
          else
            do { (k, r1) \<leftarrow> scan_str r;
                 (case skip_ws r1 of
                    [] \<Rightarrow> None
                  | c1 # r2 \<Rightarrow>
                      if c1 \<noteq> CHR '':'' then None
                      else
                        do { (v, r3) \<leftarrow> p_value n d r2;
                             (case skip_ws r3 of
                                [] \<Rightarrow> None
                              | c3 # r4 \<Rightarrow>
                                  if c3 = CHR ''}'' then Some ([(k, v)], r4)
                                  else if c3 = CHR '','' then
                                    do { (ms, q) \<leftarrow> p_members n d r4; Some ((k, v) # ms, q) }
                                  else None) }) })"

text \<open>Fuel: every recursive call is made after at least one byte has been consumed, except
  \<open>p_elements\<close> calling \<open>p_value\<close> on the same text, so twice the length suffices
  (\<open>fuel_enough\<close> in \<open>Go_Json_Facts\<close>).\<close>

definition json_fuel :: "string \<Rightarrow> nat" where
  "json_fuel s = 2 * length s + 2"

text \<open>One complete document and nothing but white space after it: \<open>json.Valid\<close> accepts exactly
  these texts, and a decoder reads the value and then reports \<open>io.EOF\<close>.\<close>

definition json_parse :: "string \<Rightarrow> json option" where
  "json_parse s =
     do { (v, r) \<leftarrow> p_value (json_fuel s) max_nesting s; if skip_ws r = [] then Some v else None }"

definition json_valid :: "string \<Rightarrow> bool" where
  "json_valid s \<longleftrightarrow> json_parse s \<noteq> None"

fun commas :: "string list \<Rightarrow> string" where
  "commas [] = []"
| "commas [x] = x"
| "commas (x # y # ys) = x @ CHR '','' # commas (y # ys)"

primrec marshal :: "json \<Rightarrow> string" where
  "marshal JNull = ''null''"
| "marshal (JBool b) = (if b then ''true'' else ''false'')"
| "marshal (JNum t) = t"
| "marshal (JStr s) = quote s"
| "marshal (JArr vs) = CHR ''['' # commas (map marshal vs) @ '']''"
| "marshal (JObj ms) =
     CHR ''{'' # commas (map (\<lambda>(k, t). quote k @ CHR '':'' # t) (map (map_prod id marshal) ms)) @ ''}''"

text \<open>Maps: \<open>m[key] = value\<close> on a key-ordered association list.\<close>

fun map_put :: "string \<Rightarrow> 'a \<Rightarrow> (string \<times> 'a) list \<Rightarrow> (string \<times> 'a) list" where
  "map_put k v [] = [(k, v)]"
| "map_put k v ((k', v') # m) =
     (if k < k' then (k, v) # (k', v') # m
      else if k = k' then (k, v) # m
      else (k', v') # map_put k v m)"

definition map_of_members :: "(string \<times> 'a) list \<Rightarrow> (string \<times> 'a) list" where
  "map_of_members ms = foldl (\<lambda>m (k, v). map_put k v m) [] ms"

primrec canon :: "json \<Rightarrow> json" where
  "canon JNull = JNull"
| "canon (JBool b) = JBool b"
| "canon (JNum t) = JNum t"
| "canon (JStr s) = JStr s"
| "canon (JArr vs) = JArr (map canon vs)"
| "canon (JObj ms) = JObj (map_of_members (map (map_prod id canon) ms))"

primrec jdepth :: "json \<Rightarrow> nat" where
  "jdepth JNull = 0"
| "jdepth (JBool b) = 0"
| "jdepth (JNum t) = 0"
| "jdepth (JStr s) = 0"
| "jdepth (JArr vs) = Suc (foldr max (map jdepth vs) 0)"
| "jdepth (JObj ms) = Suc (foldr max (map snd (map (map_prod id jdepth) ms)) 0)"

text \<open>What decoding guarantees of every value: unquoted strings are UTF-8 and number literals
  follow the JSON grammar.\<close>

primrec wf_json :: "json \<Rightarrow> bool" where
  "wf_json JNull = True"
| "wf_json (JBool b) = True"
| "wf_json (JNum t) = (p_number t = Some (t, []))"
| "wf_json (JStr s) = utf8_valid s"
| "wf_json (JArr vs) = list_all id (map wf_json vs)"
| "wf_json (JObj ms) = list_all (\<lambda>(k, b). utf8_valid k \<and> b) (map (map_prod id wf_json) ms)"

section \<open>The order of keys in a map\<close>

abbreviation sorted_keys :: "(string \<times> 'a) list \<Rightarrow> bool" where
  "sorted_keys m \<equiv> sorted_wrt (<) (map fst m)"

lemma map_put_keys: "set (map fst (map_put k v m)) = insert k (set (map fst m))"
  by (induction k v m rule: map_put.induct) auto

lemma map_put_sorted: "sorted_keys m \<Longrightarrow> sorted_keys (map_put k v m)"
proof (induction k v m rule: map_put.induct)
  case (2 k v k' v' m)
  then show ?case using map_put_keys [of k v m] by (auto dest: less_trans)
qed simp

lemma map_put_lookup:
  "sorted_keys m \<Longrightarrow> map_of (map_put k v m) = (map_of m) (k \<mapsto> v)"
  by (induction k v m rule: map_put.induct) (auto simp: fun_eq_iff)

lemma map_put_last: "\<forall>k'\<in>set (map fst m). k' < k \<Longrightarrow> map_put k v m = m @ [(k, v)]"
  by (induction m) auto

lemma map_put_set: "set (map_put k v m) \<subseteq> insert (k, v) (set m)"
  by (induction k v m rule: map_put.induct) auto

lemma foldl_put_sorted:
  "sorted_keys m \<Longrightarrow> sorted_keys (foldl (\<lambda>m (k, v). map_put k v m) m ms)"
  by (induction ms arbitrary: m) (auto simp: map_put_sorted)

lemma map_of_members_sorted: "sorted_keys (map_of_members ms)"
  unfolding map_of_members_def by (rule foldl_put_sorted) simp

lemma foldl_put_set:
  "set (foldl (\<lambda>m (k, v). map_put k v m) m ms) \<subseteq> set m \<union> set ms"
proof (induction ms arbitrary: m)
  case (Cons p ms)
  obtain k v where p: "p = (k, v)" by (cases p)
  from Cons [of "map_put k v m"] map_put_set [of k v m] show ?case by (auto simp: p)
qed simp

lemma map_of_members_set: "set (map_of_members ms) \<subseteq> set ms"
  using foldl_put_set [of "[]" ms] by (simp add: map_of_members_def)

lemma foldl_put_append:
  "sorted_wrt (<) (map fst m @ map fst ms) \<Longrightarrow> foldl (\<lambda>m (k, v). map_put k v m) m ms = m @ ms"
proof (induction ms arbitrary: m)
  case (Cons p ms)
  obtain k v where p: "p = (k, v)" by (cases p)
  with Cons.prems have "map_put k v m = m @ [(k, v)]"
    by (intro map_put_last) (auto simp: sorted_wrt_append)
  with Cons.IH [of "m @ [(k, v)]"] Cons.prems show ?case by (simp add: p)
qed simp

lemma map_of_members_id: "sorted_keys ms \<Longrightarrow> map_of_members ms = ms"
  unfolding map_of_members_def using foldl_put_append [of "[]" ms] by simp

lemma map_of_members_map:
  "map_of_members (map (map_prod id f) ms) = map (map_prod id f) (map_of_members ms)"
proof -
  have put: "map_put k (f v) (map (map_prod id f) m) = map (map_prod id f) (map_put k v m)" for k v m
    by (induction k v m rule: map_put.induct) auto
  have "foldl (\<lambda>m (k, v). map_put k v m) (map (map_prod id f) m) (map (map_prod id f) ms)
      = map (map_prod id f) (foldl (\<lambda>m (k, v). map_put k v m) m ms)" for m
    by (induction ms arbitrary: m) (auto simp: put)
  from this [of "[]"] show ?thesis by (simp add: map_of_members_def)
qed

lemma canon_idem: "canon (canon v) = canon v"
proof (induction v)
  case (JArr vs)
  then have "map canon (map canon vs) = map canon vs" by simp
  then show ?case by simp
next
  case (JObj ms)
  have "map (map_prod id canon) (map (map_prod id canon) ms) = map (map_prod id canon) ms"
    using JObj by (auto simp: map_prod_def snds.simps split: prod.splits)
  then have "map (map_prod id canon) (map_of_members (map (map_prod id canon) ms))
      = map_of_members (map (map_prod id canon) ms)"
    by (metis map_of_members_map)
  then show ?case by (simp add: map_of_members_id map_of_members_sorted)
qed simp_all

end
