(* ===== verification/Go_Json_Facts.thy ===== *)
theory Go_Json_Facts
  imports Go_Json
begin

text \<open>
  Facts about the JSON model: unquoting inverts quoting on UTF-8 text, the parsers consume
  their input and return well-formed values within the nesting limit, the fuel of
  \<open>json_parse\<close> never runs out, and decoding an encoded value gives the value back.
\<close>

section \<open>Quoting and unquoting\<close>

lemma rune_error_valid: "utf8_valid rune_error"
  using rune_size_valid [of rune_error 3]
  by (simp add: rune_error_def rune_size.simps cont_def byte_def)

lemma rune_size_2: "2 \<le> (a::nat) \<Longrightarrow> a < 32 \<Longrightarrow> (b::nat) < 64 \<Longrightarrow>
    rune_size [char_of (192 + a), char_of (128 + b)] = Some 2"
  by (simp add: rune_size.simps cont_def Let_def)

lemma rune_size_3: "(a::nat) < 16 \<Longrightarrow> (b::nat) < 64 \<Longrightarrow> (c::nat) < 64 \<Longrightarrow> a = 0 \<longrightarrow> 32 \<le> b \<Longrightarrow> a = 13 \<longrightarrow> b < 32 \<Longrightarrow>
    rune_size [char_of (224 + a), char_of (128 + b), char_of (128 + c)] = Some 3"
  by (simp add: rune_size.simps cont_def Let_def) linarith

lemma rune_size_4: "(a::nat) \<le> 4 \<Longrightarrow> (b::nat) < 64 \<Longrightarrow> (c::nat) < 64 \<Longrightarrow> (d::nat) < 64 \<Longrightarrow> a = 0 \<longrightarrow> 16 \<le> b \<Longrightarrow> a = 4 \<longrightarrow> b < 16 \<Longrightarrow>
    rune_size [char_of (240 + a), char_of (128 + b), char_of (128 + c), char_of (128 + d)] = Some 4"
  by (simp add: rune_size.simps cont_def Let_def) linarith

lemma utf8_encode_valid:
  assumes r: "r < 1114112" "r < 55296 \<or> 57344 \<le> r"
  shows "utf8_valid (utf8_encode r)"
proof -
  define q p where "q = r div 64" and "p = q div 64"
  have q: "r div 4096 = p" "r div 262144 = p div 64"
    by (simp_all add: q_def p_def div_mult2_eq [of r 64 64, simplified] div_mult2_eq [of r 4096 64, simplified])
  have pq: "q = 64 * p + q mod 64" "r = 64 * q + r mod 64" "p = 64 * (p div 64) + p mod 64"
    by (simp_all add: q_def p_def)
  have m: "q mod 64 < 64" "r mod 64 < 64" "p mod 64 < 64" by simp_all
  consider "r < 128" | "128 \<le> r" "r < 2048" | "2048 \<le> r" "r < 65536" | "65536 \<le> r" by linarith
  then have "rune_size (utf8_encode r) = Some (length (utf8_encode r))"
  proof cases
    case 1
    then show ?thesis by (simp add: utf8_encode_def rune_size.simps)
  next
    case 2
    then have "rune_size [char_of (192 + q), char_of (128 + r mod 64)] = Some 2"
      using pq m by (intro rune_size_2) linarith+
    with 2 show ?thesis by (simp add: utf8_encode_def q_def)
  next
    case 3
    then have "p < 16" "p = 0 \<longrightarrow> 32 \<le> q mod 64" "p = 13 \<longrightarrow> q mod 64 < 32" using pq m r by linarith+
    then have "rune_size [char_of (224 + p), char_of (128 + q mod 64), char_of (128 + r mod 64)] = Some 3"
      using m by (intro rune_size_3) simp_all
    with 3 show ?thesis by (simp add: utf8_encode_def q flip: q_def)
  next
    case 4
    then have "p div 64 \<le> 4" "p div 64 = 0 \<longrightarrow> 16 \<le> p mod 64" "p div 64 = 4 \<longrightarrow> p mod 64 < 16"
      using pq m r by linarith+
    then have "rune_size [char_of (240 + p div 64), char_of (128 + p mod 64), char_of (128 + q mod 64),
        char_of (128 + r mod 64)] = Some 4"
      using m by (intro rune_size_4) simp_all
    with 4 show ?thesis by (simp add: utf8_encode_def q flip: q_def)
  qed
  from rune_size_valid [OF this] show ?thesis by simp
qed

lemma hex_val_less: "hex_val c = Some x \<Longrightarrow> x < 16"
  by (auto simp: hex_val_def is_digit_def in_range_def byte_def split: if_splits)

lemma hex4_less: "hex4 s = Some (u, r) \<Longrightarrow> u < 65536"
  by (induction s rule: hex4.induct)
    (auto simp: bind_eq_Some_conv dest!: hex_val_less)

lemma scan_unicode_valid: "scan_unicode s = Some (t, r) \<Longrightarrow> utf8_valid t"
proof -
  assume s: "scan_unicode s = Some (t, r)"
  then obtain u q where q: "hex4 s = Some (u, q)"
    by (auto simp: scan_unicode_def bind_eq_Some_conv)
  note u = hex4_less [OF q]
  have pair: "utf8_valid (utf8_encode ((u - 55296) * 1024 + (lo - 56320) + 65536))"
    if "second_surrogate q = Some (lo, q')" "u < 56320" for lo q'
  proof (rule utf8_encode_valid)
    from that(1) have "lo < 57344"
      by (auto simp: second_surrogate_def bind_eq_Some_conv split: option.splits if_splits)
    with that(2) show "(u - 55296) * 1024 + (lo - 56320) + 65536 < 1114112" by linarith
  qed simp
  show ?thesis
  proof (cases "second_surrogate q")
    case None
    with s u show ?thesis
      by (auto simp: scan_unicode_def q rune_error_valid intro: utf8_encode_valid split: if_splits)
  next
    case (Some p)
    obtain lo q' where p: "p = (lo, q')" by (cases p)
    with s u Some pair show ?thesis
      by (auto simp: scan_unicode_def q rune_error_valid intro: utf8_encode_valid split: if_splits)
  qed
qed

lemma scan_escape_valid: "scan_escape s = Some (t, r) \<Longrightarrow> utf8_valid t"
  by (cases s)
    (auto simp: simple_escape_def ascii_def byte_def dest: scan_unicode_valid split: if_splits option.splits)

lemma scan_str_Nil [simp]: "scan_str [] = None"
  by (simp add: scan_str.simps)

lemma scan_str_Cons:
  "scan_str (c # r) =
     (if c = dquote then Some ([], r)
      else if c = bslash then
        (case scan_escape r of
           None \<Rightarrow> None
         | Some (t, r') \<Rightarrow> map_option (\<lambda>(u, q). (t @ u, q)) (scan_str r'))
      else if byte c < 32 then None
      else
        (case rune_size (c # r) of
           None \<Rightarrow> map_option (\<lambda>(u, q). (rune_error @ u, q)) (scan_str r)
         | Some n \<Rightarrow> map_option (\<lambda>(u, q). (take n (c # r) @ u, q)) (scan_str (drop n (c # r)))))"
  by (subst scan_str.simps) simp

text \<open>One step of the scan: it ends at the closing quote or emits a valid chunk and goes on.\<close>

lemma scan_str_step:
  assumes "scan_str s = Some (t, r)"
  obtains "s = dquote # r" "t = []"
  | x u s' where "t = x @ u" "utf8_valid x" "length s' < length s" "scan_str s' = Some (u, r)"
proof (cases s)
  case (Cons c q)
  consider "c = dquote" | "c = bslash" | "c \<noteq> dquote" "c \<noteq> bslash" by blast
  then show thesis
  proof cases
    case 1
    with assms Cons that(1) show thesis by (simp add: scan_str_Cons)
  next
    case 2
    with assms Cons obtain e q' u where e: "scan_escape q = Some (e, q')"
      and u: "scan_str q' = Some (u, r)" "t = e @ u"
      by (auto simp: scan_str_Cons split: option.splits)
    from that(2) [OF u(2) scan_escape_valid [OF e] _ u(1)] scan_escape_shorter [OF e] Cons
    show thesis by simp
  next
    case 3
    then have b: "\<not> byte c < 32" using assms Cons by (auto simp: scan_str_Cons)
    show thesis
    proof (cases "rune_size (c # q)")
      case None
      with assms Cons 3 b obtain u where u: "scan_str q = Some (u, r)" "t = rune_error @ u"
        by (auto simp: scan_str_Cons)
      from that(2) [OF u(2) rune_error_valid _ u(1)] Cons show thesis by simp
    next
      case (Some n)
      with assms Cons 3 b obtain u where u: "scan_str (drop n s) = Some (u, r)" "t = take n s @ u"
        by (auto simp: scan_str_Cons)
      from that(2) [OF u(2) _ _ u(1)] rune_size_pos [OF Some] rune_size_valid [OF Some] Cons
      show thesis by simp
    qed
  qed
qed (use assms in simp)

lemma scan_str_shorter: "scan_str s = Some (t, r) \<Longrightarrow> length r < length s"
proof (induction s arbitrary: t rule: length_induct)
  case (1 s)
  from "1.prems" show ?case
  proof (cases rule: scan_str_step)
    case (2 x u s')
    with "1.IH" have "length r < length s'" by blast
    with 2 show ?thesis by simp
  qed simp
qed

lemma scan_str_valid: "scan_str s = Some (t, r) \<Longrightarrow> utf8_valid t"
proof (induction s arbitrary: t rule: length_induct)
  case (1 s)
  from "1.prems" show ?case
  proof (cases rule: scan_str_step)
    case (2 x u s')
    with "1.IH" have "utf8_valid u" by blast
    with 2 show ?thesis by (simp add: utf8_valid_append)
  qed simp
qed

lemma hex_val_hex_digit [simp]: "d < 16 \<Longrightarrow> hex_val (hex_digit d) = Some d"
proof -
  have "byte CHR ''0'' = 48" "byte CHR ''9'' = 57" "byte CHR ''a'' = 97" "byte CHR ''f'' = 102"
    by (simp_all add: byte_def)
  then show "d < 16 \<Longrightarrow> hex_val (hex_digit d) = Some d"
    by (simp add: hex_val_def hex_digit_def is_digit_def in_range_def)
qed

lemma scan_str_plain:
  "ascii c \<Longrightarrow> c \<noteq> dquote \<Longrightarrow> c \<noteq> bslash \<Longrightarrow> \<not> byte c < 32 \<Longrightarrow>
     scan_str (c # r) = map_option (\<lambda>(u, q). (c # u, q)) (scan_str r)"
  by (subst scan_str_Cons) simp

lemma scan_str_escape:
  "scan_escape r = Some (t, r') \<Longrightarrow>
     scan_str (bslash # r) = map_option (\<lambda>(u, q). (t @ u, q)) (scan_str r')"
  by (subst scan_str_Cons) simp

lemma control_chars:
  "\<not> byte c < 32 \<Longrightarrow>
     c \<noteq> CHR 0x08 \<and> c \<noteq> CHR 0x0C \<and> c \<noteq> CHR 0x0A \<and> c \<noteq> CHR 0x0D \<and> c \<noteq> CHR 0x09"
  by (intro conjI notI) (simp_all add: byte_def)

lemma scan_str_quote_ascii:
  assumes "ascii c"
  shows "scan_str (quote_ascii c @ r) = map_option (\<lambda>(u, q). (c # u, q)) (scan_str r)"
proof (cases "quote_ascii c = [c]")
  case True
  then have "c \<noteq> dquote" "c \<noteq> bslash" "\<not> byte c < 32"
    by (auto simp: quote_ascii_def split: if_splits)
  with True assms show ?thesis by (simp add: scan_str_plain)
next
  case False
  have b: "byte c < 128" using assms by (simp add: ascii_def)
  have enc: "utf8_encode (byte c) = [c]" using b by (simp add: utf8_encode_def byte_def)
  have z: "hex_val CHR ''0'' = Some 0"
    by (simp add: hex_val_def is_digit_def in_range_def byte_def)
  have h: "hex4 (CHR ''0'' # CHR ''0'' # hex_digit (byte c div 16) # hex_digit (byte c mod 16) # r)
      = Some (byte c, r)"
    using b by (simp add: z less_mult_imp_div_less)
  with b enc have "scan_unicode (CHR ''0'' # CHR ''0'' # hex_digit (byte c div 16) # hex_digit (byte c mod 16) # r)
      = Some ([c], r)"
    by (simp add: scan_unicode_def)
  then have "\<exists>e. quote_ascii c = bslash # e \<and> scan_escape (e @ r) = Some ([c], r)"
    using False by (auto simp: quote_ascii_def simple_escape_def split: if_splits)
  then show ?thesis by (auto simp: scan_str_escape)
qed

lemma scan_str_quote_rune:
  assumes n: "rune_size s = Some n" and s: "s = c # q" "\<not> ascii c"
  shows "scan_str (quote_rune (take n s) @ r) = map_option (\<lambda>(u, q). (take n s @ u, q)) (scan_str r)"
proof (cases "quote_rune (take n s) = take n s")
  case False
  have "scan_unicode (''2028'' @ r) = Some ([CHR 0xE2, CHR 0x80, CHR 0xA8], r)"
    "scan_unicode (''2029'' @ r) = Some ([CHR 0xE2, CHR 0x80, CHR 0xA9], r)"
    by (simp_all add: scan_unicode_def hex_val_def is_digit_def in_range_def byte_def utf8_encode_def)
      (simp_all add: char_of_def bit_simps)
  then have "\<exists>e. quote_rune (take n s) = bslash # e \<and> scan_escape (e @ r) = Some (take n s, r)"
    using False by (auto simp: quote_rune_def)
  then show ?thesis by (auto simp: scan_str_escape)
next
  case True
  obtain t where t: "take n s = c # t"
    using rune_size_pos [OF n] s by (cases n) auto
  have c: "c \<noteq> dquote" "c \<noteq> bslash" "\<not> byte c < 32"
    using s(2) by (auto simp: ascii_def byte_def)
  have "rune_size ((c # t) @ r) = Some n"
    using rune_size_take [OF n, of r] t by simp
  moreover have "take n ((c # t) @ r) = c # t" "drop n ((c # t) @ r) = r"
    using rune_size_pos [OF n] t by (metis append_eq_conv_conj length_take min.absorb2)+
  ultimately have "scan_str ((c # t) @ r) = map_option (\<lambda>(u, q). ((c # t) @ u, q)) (scan_str r)"
    using c by (simp add: scan_str_Cons)
  with True t show ?thesis by simp
qed

lemma scan_str_quote_body:
  "utf8_valid s \<Longrightarrow> scan_str (quote_body s @ dquote # r) = Some (s, r)"
proof (induction s rule: quote_body.induct)
  case (1 s)
  show ?case
  proof (cases s)
    case Nil
    then show ?thesis by (subst quote_body.simps) (simp add: scan_str_Cons)
  next
    case (Cons c q)
    show ?thesis
    proof (cases "ascii c")
      case True
      with 1 Cons show ?thesis
        by (subst quote_body.simps) (simp add: scan_str_quote_ascii)
    next
      case False
      from "1.prems" Cons obtain n where n: "rune_size s = Some n" and v: "utf8_valid (drop n s)"
        by (subst (asm) utf8_valid.simps) (auto split: option.splits)
      have "scan_str (quote_body (drop n s) @ dquote # r) = Some (drop n s, r)"
        using "1.IH"(3) Cons False n v by simp
      with n Cons False show ?thesis
        using scan_str_quote_rune [OF n Cons False, of "quote_body (drop n s) @ dquote # r"]
        by (subst quote_body.simps) simp
    qed
  qed
qed

section \<open>Parsed values\<close>

lemma skip_ws_length: "length (skip_ws s) \<le> length s"
  by (simp add: skip_ws_def length_dropWhile_le)

lemma skip_ws_Cons_length: "skip_ws s = c # r \<Longrightarrow> length r < length s"
  using skip_ws_length [of s] by simp

lemma p_int_split: "p_int s = Some (i, r) \<Longrightarrow> s = i @ r \<and> i \<noteq> []"
  by (auto simp: p_int_def split: list.splits if_splits)

lemma p_frac_split: "p_frac s = Some (i, r) \<Longrightarrow> s = i @ r"
  by (auto simp: p_frac_def split: list.splits if_splits)

lemma p_sign_split: "p_sign s = (i, r) \<Longrightarrow> s = i @ r"
  by (auto simp: p_sign_def split: list.splits if_splits)

lemma p_minus_split: "p_minus s = (i, r) \<Longrightarrow> s = i @ r"
  by (auto simp: p_minus_def split: list.splits if_splits)

lemma p_exp_split: "p_exp s = Some (i, r) \<Longrightarrow> s = i @ r"
  by (auto simp: p_exp_def dest: p_sign_split split: list.splits if_splits prod.splits)

lemma p_number_parts:
  assumes "p_number s = Some (t, r)"
  obtains m i f e r0 r1 r2 where "p_minus s = (m, r0)" "p_int r0 = Some (i, r1)"
    "p_frac r1 = Some (f, r2)" "p_exp r2 = Some (e, r)" "t = m @ i @ f @ e"
  using assms by (auto simp: p_number_def Let_def bind_eq_Some_conv split: prod.splits)

lemma p_number_split: "p_number s = Some (t, r) \<Longrightarrow> s = t @ r \<and> t \<noteq> []"
  by (erule p_number_parts) (auto dest!: p_minus_split p_int_split p_frac_split p_exp_split)

lemma p_elements_SucE:
  assumes "p_elements (Suc n) d s = Some (vs, r)"
  obtains (last) v r1 where "p_value n d s = Some (v, r1)" "skip_ws r1 = CHR '']'' # r" "vs = [v]"
  | (more) v r1 q vs' where "p_value n d s = Some (v, r1)" "skip_ws r1 = CHR '','' # q"
      "p_elements n d q = Some (vs', r)" "vs = v # vs'"
proof -
  from assms obtain v r1 where v: "p_value n d s = Some (v, r1)" by (auto simp: bind_eq_Some_conv)
  then obtain c q where q: "skip_ws r1 = c # q" using assms by (cases "skip_ws r1") auto
  show thesis
  proof (cases "c = CHR '']''")
    case True
    with assms v q last show thesis by auto
  next
    case False
    with assms v q more show thesis by (auto simp: bind_eq_Some_conv split: if_splits)
  qed
qed

lemma p_members_SucE:
  assumes "p_members (Suc n) d s = Some (ms, r)"
  obtains (last) r0 k r1 r2 v r3 where "skip_ws s = dquote # r0" "scan_str r0 = Some (k, r1)"
      "skip_ws r1 = CHR '':'' # r2" "p_value n d r2 = Some (v, r3)" "skip_ws r3 = CHR ''}'' # r"
      "ms = [(k, v)]"
  | (more) r0 k r1 r2 v r3 q ms' where "skip_ws s = dquote # r0" "scan_str r0 = Some (k, r1)"
      "skip_ws r1 = CHR '':'' # r2" "p_value n d r2 = Some (v, r3)" "skip_ws r3 = CHR '','' # q"
      "p_members n d q = Some (ms', r)" "ms = (k, v) # ms'"
proof -
  from assms obtain r0 where s: "skip_ws s = dquote # r0"
    by (cases "skip_ws s") (auto split: if_splits)
  from assms s obtain k r1 where k: "scan_str r0 = Some (k, r1)" by (auto simp: bind_eq_Some_conv)
  from assms s k obtain r2 where r2: "skip_ws r1 = CHR '':'' # r2"
    by (cases "skip_ws r1") (auto split: if_splits)
  from assms s k r2 obtain v r3 where v: "p_value n d r2 = Some (v, r3)"
    by (auto simp: bind_eq_Some_conv)
  from assms s k r2 v obtain c q where q: "skip_ws r3 = c # q"
    by (cases "skip_ws r3") auto
  show thesis
  proof (cases "c = CHR ''}''")
    case True
    with assms s k r2 v q last show thesis by auto
  next
    case False
    with assms s k r2 v q more show thesis by (auto simp: bind_eq_Some_conv split: if_splits)
  qed
qed

lemma p_value_SucE:
  assumes "p_value (Suc n) d s = Some (v, r)"
  obtains (obj0) q where "skip_ws s = CHR ''{'' # q" "0 < d" "skip_ws q = CHR ''}'' # r" "v = JObj []"
  | (obj) q ms where "skip_ws s = CHR ''{'' # q" "0 < d" "p_members n (d - 1) q = Some (ms, r)" "v = JObj ms"
  | (arr0) q where "skip_ws s = CHR ''['' # q" "0 < d" "skip_ws q = CHR '']'' # r" "v = JArr []"
  | (arr) q vs where "skip_ws s = CHR ''['' # q" "0 < d" "p_elements n (d - 1) q = Some (vs, r)" "v = JArr vs"
  | (str) q t where "skip_ws s = dquote # q" "scan_str q = Some (t, r)" "v = JStr t"
  | (lit) u where "skip_ws s = u @ r" "u \<noteq> []" "v = JNull \<or> v = JBool True \<or> v = JBool False"
  | (num) t where "p_number (skip_ws s) = Some (t, r)" "v = JNum t"
proof (cases "skip_ws s")
  case (Cons c q)
  consider "c = CHR ''{''" | "c = CHR ''[''" | "c = dquote"
    | "c \<noteq> CHR ''{''" "c \<noteq> CHR ''[''" "c \<noteq> dquote" by blast
  then show thesis
  proof cases
    case 1
    then have d: "0 < d" using assms Cons by (auto split: if_splits)
    show thesis
    proof (cases "skip_ws q \<noteq> [] \<and> hd (skip_ws q) = CHR ''}''")
      case True
      with 1 d assms Cons obj0 show thesis by (cases "skip_ws q") auto
    next
      case False
      with 1 d assms Cons obj show thesis by (auto simp: bind_eq_Some_conv)
    qed
  next
    case 2
    then have d: "0 < d" using assms Cons by (auto split: if_splits)
    show thesis
    proof (cases "skip_ws q \<noteq> [] \<and> hd (skip_ws q) = CHR '']''")
      case True
      with 2 d assms Cons arr0 show thesis by (cases "skip_ws q") auto
    next
      case False
      with 2 d assms Cons arr show thesis by (auto simp: bind_eq_Some_conv)
    qed
  next
    case 3
    with assms Cons str show thesis by (auto simp: bind_eq_Some_conv)
  next
    case 4
    show thesis
    proof (cases "c \<in> {CHR ''n'', CHR ''t'', CHR ''f''}")
      case True
      with 4 assms Cons show thesis
        by (intro lit [of "take (length (skip_ws s) - length r) (skip_ws s)"])
          (auto simp: bind_eq_Some_conv strip_prefix_Some split: if_splits)
    next
      case False
      with 4 assms Cons num show thesis by (auto simp: bind_eq_Some_conv)
    qed
  qed
qed (use assms in simp)

text \<open>Every parser leaves a strictly shorter text.\<close>

lemma parsers_shorter:
  "(\<forall>d s v r. p_value n d s = Some (v, r) \<longrightarrow> length r < length s) \<and>
   (\<forall>d s vs r. p_elements n d s = Some (vs, r) \<longrightarrow> length r < length s) \<and>
   (\<forall>d s ms r. p_members n d s = Some (ms, r) \<longrightarrow> length r < length s)"
proof (induction n)
  case (Suc n)
  have v: "length r < length s" if "p_value (Suc n) d s = Some (v, r)" for d s v r
    using that
  proof (cases rule: p_value_SucE)
    case (obj0 q)
    then show ?thesis by (meson less_trans skip_ws_Cons_length)
  next
    case (obj q ms)
    then show ?thesis using Suc by (meson less_trans skip_ws_Cons_length)
  next
    case (arr0 q)
    then show ?thesis by (meson less_trans skip_ws_Cons_length)
  next
    case (arr q vs)
    then show ?thesis using Suc by (meson less_trans skip_ws_Cons_length)
  next
    case (str q t)
    then show ?thesis by (meson less_trans skip_ws_Cons_length scan_str_shorter)
  next
    case (lit u)
    then show ?thesis using skip_ws_length [of s] by (cases u) auto
  next
    case (num t)
    then show ?thesis using skip_ws_length [of s] p_number_split [of "skip_ws s"] by (cases t) fastforce+
  qed
  have e: "length r < length s" if "p_elements (Suc n) d s = Some (vs, r)" for d s vs r
    using that by (cases rule: p_elements_SucE) (use Suc in \<open>meson less_trans skip_ws_Cons_length\<close>)+
  have m: "length r < length s" if "p_members (Suc n) d s = Some (ms, r)" for d s ms r
    using that by (cases rule: p_members_SucE)
      (use Suc in \<open>meson less_trans skip_ws_Cons_length scan_str_shorter\<close>)+
  from v e m show ?case by blast
qed simp

lemmas value_shorter = parsers_shorter [THEN conjunct1, rule_format]
lemmas elements_shorter = parsers_shorter [THEN conjunct2, THEN conjunct1, rule_format]
lemmas members_shorter = parsers_shorter [THEN conjunct2, THEN conjunct2, rule_format]

text \<open>Number literals: what the scanner returns is itself a literal, and it is found again before
  any byte that cannot continue it.\<close>

definition ends_number :: "string \<Rightarrow> bool" where
  "ends_number r \<longleftrightarrow> (case r of [] \<Rightarrow> True
     | c # _ \<Rightarrow> \<not> is_digit c \<and> c \<noteq> CHR ''.'' \<and> c \<noteq> CHR ''e'' \<and> c \<noteq> CHR ''E'')"

lemma run_append:
  "dropWhile P u = [] \<longrightarrow> r = [] \<or> \<not> P (hd r) \<Longrightarrow>
     takeWhile P (u @ r) = takeWhile P u \<and> dropWhile P (u @ r) = dropWhile P u @ r"
  by (induction u) (cases r; auto)+

lemma p_minus_append:
  assumes "p_minus s = (m, q)" "q \<noteq> []"
  shows "p_minus (s @ r) = (m, q @ r)"
  using assms by (cases s) (auto simp: p_minus_def split: if_splits)

lemma p_int_append:
  assumes "p_int s = Some (i, q)" "q = [] \<longrightarrow> r = [] \<or> \<not> is_digit (hd r)"
  shows "p_int (s @ r) = Some (i, q @ r)"
proof (cases s)
  case (Cons c u)
  show ?thesis
  proof (cases "c = CHR ''0''")
    case False
    with assms(1) Cons have i: "is_digit c" "i = c # takeWhile is_digit u" "q = dropWhile is_digit u"
      by (auto simp: p_int_def split: if_splits)
    with run_append [of is_digit u r] assms(2) Cons False show ?thesis by (simp add: p_int_def)
  qed (use assms(1) Cons in \<open>auto simp: p_int_def\<close>)
qed (use assms in \<open>simp add: p_int_def\<close>)

lemma p_frac_append:
  assumes "p_frac s = Some (f, q)" "q = [] \<longrightarrow> r = [] \<or> \<not> is_digit (hd r) \<and> hd r \<noteq> CHR ''.''"
  shows "p_frac (s @ r) = Some (f, q @ r)"
proof (cases s)
  case Nil
  with assms show ?thesis by (cases r) (auto simp: p_frac_def)
next
  case (Cons c u)
  show ?thesis
  proof (cases "c = CHR ''.''")
    case True
    with assms(1) Cons have "takeWhile is_digit u \<noteq> []" "f = c # takeWhile is_digit u"
      "q = dropWhile is_digit u"
      by (auto simp: p_frac_def split: if_splits)
    moreover have "takeWhile is_digit (u @ r) = takeWhile is_digit u \<and>
        dropWhile is_digit (u @ r) = dropWhile is_digit u @ r"
      by (rule run_append) (use assms(2) calculation in blast)
    ultimately show ?thesis using Cons True by (simp add: p_frac_def)
  qed (use assms(1) Cons in \<open>auto simp: p_frac_def\<close>)
qed

lemma p_exp_append:
  assumes "p_exp s = Some (e, [])" "ends_number r"
  shows "p_exp (s @ r) = Some (e, r)"
proof (cases s)
  case Nil
  with assms show ?thesis by (cases r) (auto simp: p_exp_def ends_number_def)
next
  case (Cons c u)
  obtain sg v where sg: "p_sign u = (sg, v)" by (cases "p_sign u")
  from assms(1) Cons sg have c: "c = CHR ''e'' \<or> c = CHR ''E''" "takeWhile is_digit v \<noteq> []"
      "dropWhile is_digit v = []" "e = c # sg @ takeWhile is_digit v"
    by (simp_all add: p_exp_def split: if_splits)
  have "p_sign (u @ r) = (sg, v @ r)"
    using sg c(2) by (cases u) (auto simp: p_sign_def split: if_splits)
  moreover have "r = [] \<or> \<not> is_digit (hd r)" using assms(2) by (cases r) (auto simp: ends_number_def)
  ultimately show ?thesis using c Cons run_append [of is_digit v r] by (simp add: p_exp_def)
qed

lemma p_exp_self: "p_exp s = Some (e, r) \<Longrightarrow> p_exp e = Some (e, [])"
proof (cases s)
  case (Cons c u)
  assume a: "p_exp s = Some (e, r)"
  obtain sg v where sg: "p_sign u = (sg, v)" by (cases "p_sign u")
  show ?thesis
  proof (cases "c = CHR ''e'' \<or> c = CHR ''E''")
    case True
    with a Cons sg have e: "takeWhile is_digit v \<noteq> []" "e = c # sg @ takeWhile is_digit v"
      by (simp_all add: p_exp_def split: if_splits)
    obtain x y where xy: "takeWhile is_digit v = x # y" using e(1) by (cases "takeWhile is_digit v") auto
    have "is_digit x" using xy by (metis list.set_intros(1) set_takeWhileD)
    then have "x \<noteq> CHR ''+''" "x \<noteq> CHR ''-''" by (auto simp: is_digit_def in_range_def byte_def)
    then have "p_sign (sg @ takeWhile is_digit v) = (sg, takeWhile is_digit v)"
      using sg xy by (cases u) (auto simp: p_sign_def split: if_splits)
    with True e show ?thesis by (auto simp: p_exp_def dest: set_takeWhileD)
  qed (use a Cons in \<open>auto simp: p_exp_def\<close>)
qed (simp add: p_exp_def)

lemma p_frac_self: "p_frac s = Some (f, r) \<Longrightarrow> p_frac f = Some (f, [])"
  by (cases s) (auto simp: p_frac_def dest: set_takeWhileD split: if_splits)

lemma p_int_self: "p_int s = Some (i, r) \<Longrightarrow> p_int i = Some (i, [])"
  by (cases s) (auto simp: p_int_def dest: set_takeWhileD split: if_splits)

lemma p_exp_head: "p_exp s = Some (e, r) \<Longrightarrow> e = [] \<or> hd e = CHR ''e'' \<or> hd e = CHR ''E''"
  by (cases s) (auto simp: p_exp_def split: if_splits prod.splits)

lemma p_frac_head: "p_frac s = Some (f, r) \<Longrightarrow> f = [] \<or> hd f = CHR ''.''"
  by (cases s) (auto simp: p_frac_def split: if_splits)

lemma not_digit_chars [simp]: "\<not> is_digit CHR ''.''" "\<not> is_digit CHR ''e''" "\<not> is_digit CHR ''E''"
  by (simp_all add: is_digit_def in_range_def byte_def)

text \<open>The literal that was read, followed by a byte that ends it, is read again.\<close>

lemma p_number_literal:
  assumes "p_number s = Some (t, q)" "ends_number r"
  shows "p_number (t @ r) = Some (t, r)"
  using assms(1)
proof (rule p_number_parts)
  fix m i f e r0 r1 r2
  assume m: "p_minus s = (m, r0)" and i: "p_int r0 = Some (i, r1)" and f: "p_frac r1 = Some (f, r2)"
    and e: "p_exp r2 = Some (e, q)" and t: "t = m @ i @ f @ e"
  note r = assms(2) [unfolded ends_number_def]
  have 1: "p_exp (e @ r) = Some (e, r)" using p_exp_append [OF p_exp_self [OF e] assms(2)] .
  have 2: "p_frac (f @ e @ r) = Some (f, e @ r)"
    using p_frac_append [OF p_frac_self [OF f], of "e @ r"] p_exp_head [OF e] r
    by (cases e; cases r) auto
  have 3: "p_int (i @ f @ e @ r) = Some (i, f @ e @ r)"
    using p_int_append [OF p_int_self [OF i], of "f @ e @ r"] p_frac_head [OF f] p_exp_head [OF e] r
    by (cases f; cases e; cases r) auto
  have "p_minus (m @ i @ f @ e @ r) = (m, i @ f @ e @ r)"
    using m i by (cases s; cases i) (auto simp: p_minus_def p_int_def is_digit_def in_range_def byte_def
        split: if_splits list.splits)
  with 1 2 3 t show ?thesis by (simp add: p_number_def)
qed

lemma p_number_wf: "p_number s = Some (t, q) \<Longrightarrow> p_number t = Some (t, [])"
  using p_number_literal [of s t q "[]"] by (simp add: ends_number_def)

section \<open>What parsing guarantees\<close>

lemma foldr_max_le: "foldr max (xs :: nat list) 0 \<le> d \<longleftrightarrow> (\<forall>x\<in>set xs. x \<le> d)"
  by (induction xs) auto

lemma jdepth_arr: "jdepth (JArr vs) \<le> d \<longleftrightarrow> 0 < d \<and> (\<forall>v\<in>set vs. jdepth v \<le> d - 1)"
  by (cases d) (auto simp: foldr_max_le)

lemma jdepth_obj: "jdepth (JObj ms) \<le> d \<longleftrightarrow> 0 < d \<and> (\<forall>(k, v)\<in>set ms. jdepth v \<le> d - 1)"
  by (cases d) (auto simp: foldr_max_le)

lemma wf_arr: "wf_json (JArr vs) \<longleftrightarrow> (\<forall>v\<in>set vs. wf_json v)"
  by (auto simp: list_all_iff)

lemma wf_obj: "wf_json (JObj ms) \<longleftrightarrow> (\<forall>(k, v)\<in>set ms. utf8_valid k \<and> wf_json v)"
  by (auto simp: list_all_iff)

declare jdepth.simps(5,6) [simp del] wf_json.simps(5,6) [simp del]

lemma parsers_wf:
  "(\<forall>d s v r. p_value n d s = Some (v, r) \<longrightarrow> wf_json v \<and> jdepth v \<le> d) \<and>
   (\<forall>d s vs r. p_elements n d s = Some (vs, r) \<longrightarrow> (\<forall>v\<in>set vs. wf_json v \<and> jdepth v \<le> d)) \<and>
   (\<forall>d s ms r. p_members n d s = Some (ms, r) \<longrightarrow>
      (\<forall>(k, v)\<in>set ms. utf8_valid k \<and> wf_json v \<and> jdepth v \<le> d))"
proof (induction n)
  case (Suc n)
  have v: "wf_json v \<and> jdepth v \<le> d" if "p_value (Suc n) d s = Some (v, r)" for d s v r
    using that
    by (cases rule: p_value_SucE)
      (use Suc in \<open>auto simp: wf_arr wf_obj jdepth_arr jdepth_obj dest: scan_str_valid p_number_wf; blast\<close>)+
  have e: "\<forall>v\<in>set vs. wf_json v \<and> jdepth v \<le> d" if "p_elements (Suc n) d s = Some (vs, r)" for d s vs r
    using that by (cases rule: p_elements_SucE) (use Suc in \<open>auto; blast\<close>)+
  have m: "\<forall>(k, v)\<in>set ms. utf8_valid k \<and> wf_json v \<and> jdepth v \<le> d"
    if "p_members (Suc n) d s = Some (ms, r)" for d s ms r
    using that by (cases rule: p_members_SucE) (use Suc in \<open>auto dest: scan_str_valid; blast\<close>)+
  from v e m show ?case by blast
qed simp

lemma json_parse_wf: "json_parse s = Some v \<Longrightarrow> wf_json v \<and> jdepth v \<le> max_nesting"
  using parsers_wf [of "json_fuel s"] by (auto simp: json_parse_def bind_eq_Some_conv split: if_splits)

lemma wf_canon: "wf_json v \<Longrightarrow> wf_json (canon v)"
proof (induction v)
  case (JObj ms)
  then show ?case using map_of_members_set [of "map (map_prod id canon) ms"]
    by (fastforce simp: wf_obj)
qed (auto simp: wf_arr)

lemma jdepth_canon: "jdepth v \<le> d \<Longrightarrow> jdepth (canon v) \<le> d"
proof (induction v arbitrary: d)
  case (JObj ms)
  then show ?case using map_of_members_set [of "map (map_prod id canon) ms"]
    by (fastforce simp: jdepth_obj)
qed (auto simp: jdepth_arr)

section \<open>Round trip\<close>

lemma skip_ws_not: "\<not> is_ws c \<Longrightarrow> skip_ws (c # s) = c # s"
  by (simp add: skip_ws_def)

text \<open>The first byte of an encoded value decides the parser's branch.\<close>

lemma p_number_head:
  "p_number t = Some (u, r) \<Longrightarrow> t \<noteq> [] \<and> (is_digit (hd t) \<or> hd t = CHR ''-'')"
  by (erule p_number_parts, cases t)
    (auto simp: p_minus_def p_int_def is_digit_def in_range_def byte_def split: if_splits list.splits)

definition value_head :: "char \<Rightarrow> bool" where
  "value_head c \<longleftrightarrow> \<not> is_ws c \<and> c \<noteq> CHR '']'' \<and> c \<noteq> CHR ''}'' \<and> c \<noteq> CHR '','' \<and> c \<noteq> CHR '':''"

lemma number_head_value: "is_digit c \<or> c = CHR ''-'' \<Longrightarrow> value_head c \<and> c \<notin> {CHR ''{'', CHR ''['', dquote, CHR ''n'', CHR ''t'', CHR ''f''}"
  by (auto simp: value_head_def is_ws_def is_digit_def in_range_def byte_def)

lemma marshal_head: "wf_json v \<Longrightarrow> \<exists>c s. marshal v = c # s \<and> value_head c"
proof (cases v)
  case (JNum t)
  assume "wf_json v"
  with JNum have "t \<noteq> [] \<and> (is_digit (hd t) \<or> hd t = CHR ''-'')" by (auto dest: p_number_head)
  with JNum number_head_value show ?thesis by (cases t) auto
qed (auto simp: value_head_def is_ws_def quote_def)

lemma ends_number_punct [simp]:
  "ends_number (CHR '','' # r)" "ends_number (CHR '']'' # r)" "ends_number (CHR ''}'' # r)" "ends_number []"
  by (simp_all add: ends_number_def is_digit_def in_range_def byte_def)

lemma skip_ws_punct [simp]:
  "skip_ws (CHR '','' # r) = CHR '','' # r" "skip_ws (CHR '']'' # r) = CHR '']'' # r"
  "skip_ws (CHR ''}'' # r) = CHR ''}'' # r" "skip_ws (CHR '':'' # r) = CHR '':'' # r"
  "skip_ws (dquote # r) = dquote # r"
  by (simp_all add: skip_ws_def is_ws_def)

definition reads :: "nat \<Rightarrow> json \<Rightarrow> bool" where
  "reads d v \<longleftrightarrow> (\<forall>n r. 2 * length (marshal v) \<le> n \<longrightarrow> ends_number r \<longrightarrow>
     p_value n d (marshal v @ r) = Some (v, r))"

lemma readsI:
  assumes "marshal v \<noteq> []"
    and "\<And>n r. 2 * length (marshal v) \<le> Suc n \<Longrightarrow> ends_number r \<Longrightarrow>
      p_value (Suc n) d (marshal v @ r) = Some (v, r)"
  shows "reads d v"
  unfolding reads_def
proof (intro allI impI)
  fix n r
  assume n: "2 * length (marshal v) \<le> n" and r: "ends_number r"
  with assms(1) obtain m where "n = Suc m" by (cases n) auto
  with assms(2) n r show "p_value n d (marshal v @ r) = Some (v, r)" by blast
qed

lemma elements_read:
  "xs \<noteq> [] \<Longrightarrow> \<forall>x\<in>set xs. reads d x \<Longrightarrow> 2 * length (commas (map marshal xs)) < n \<Longrightarrow>
     p_elements n d (commas (map marshal xs) @ CHR '']'' # r) = Some (xs, r)"
proof (induction xs arbitrary: n rule: list_nonempty_induct)
  case (single x)
  then obtain m where n: "n = Suc m" by (cases n) auto
  from single n have "p_value m d (marshal x @ CHR '']'' # r) = Some (x, CHR '']'' # r)"
    by (simp add: reads_def)
  with n show ?case by simp
next
  case (cons x xs)
  then obtain m where n: "n = Suc m" by (cases n) auto
  obtain y ys where xs: "xs = y # ys" using cons.hyps by (cases xs) auto
  let ?tl = "CHR '','' # commas (map marshal xs) @ CHR '']'' # r"
  have split: "commas (map marshal (x # xs)) @ CHR '']'' # r = marshal x @ ?tl"
    by (simp add: xs)
  have "p_value m d (marshal x @ ?tl) = Some (x, ?tl)"
    using cons.prems n xs by (simp add: reads_def)
  moreover have "p_elements m d (commas (map marshal xs) @ CHR '']'' # r) = Some (xs, r)"
    using cons.IH [of m] cons.prems n xs by simp
  ultimately show ?case unfolding split n by simp
qed

abbreviation member_text :: "string \<times> json \<Rightarrow> string" where
  "member_text m \<equiv> quote (fst m) @ CHR '':'' # marshal (snd m)"

lemma marshal_obj: "marshal (JObj ms) = CHR ''{'' # commas (map member_text ms) @ ''}''"
  by (simp add: comp_def case_prod_unfold)

declare marshal.simps(6) [simp del]

lemma member_read:
  assumes "utf8_valid k" "reads d v" "2 * length (marshal v) \<le> n" "ends_number r"
  shows "p_members (Suc n) d (quote k @ CHR '':'' # marshal v @ r) =
    (case skip_ws r of
       [] \<Rightarrow> None
     | c # q \<Rightarrow>
         if c = CHR ''}'' then Some ([(k, v)], q)
         else if c = CHR '','' then do { (ms, q') \<leftarrow> p_members n d q; Some ((k, v) # ms, q') }
         else None)"
  using assms
  by (simp add: quote_def reads_def scan_str_quote_body split: list.split)

lemma members_read:
  "ms \<noteq> [] \<Longrightarrow> \<forall>(k, v)\<in>set ms. utf8_valid k \<and> reads d v \<Longrightarrow>
     2 * length (commas (map member_text ms)) < n \<Longrightarrow>
     p_members n d (commas (map member_text ms) @ CHR ''}'' # r) = Some (ms, r)"
proof (induction ms arbitrary: n rule: list_nonempty_induct)
  case (single m)
  obtain k v where m: "m = (k, v)" by (cases m)
  from single obtain n' where n: "n = Suc n'" by (cases n) auto
  from single m n member_read [of k d v n' "CHR ''}'' # r"] show ?case by simp
next
  case (cons m ms)
  obtain k v where m: "m = (k, v)" by (cases m)
  from cons obtain n' where n: "n = Suc n'" by (cases n) auto
  obtain y ys where ms: "ms = y # ys" using cons.hyps by (cases ms) auto
  let ?tl = "CHR '','' # commas (map member_text ms) @ CHR ''}'' # r"
  have split: "commas (map member_text (m # ms)) @ CHR ''}'' # r = quote k @ CHR '':'' # marshal v @ ?tl"
    by (simp add: ms m)
  have "p_members n' d (commas (map member_text ms) @ CHR ''}'' # r) = Some (ms, r)"
    using cons.IH [of n'] cons.prems n ms m by simp
  with cons.prems n m ms member_read [of k d v n' ?tl] show ?case unfolding split n by simp
qed

lemma commas_head: "xs \<noteq> [] \<Longrightarrow> hd xs = c # s \<Longrightarrow> \<exists>s'. commas xs = c # s'"
  by (cases xs rule: commas.cases) auto

text \<open>Encoding and then decoding gives the value back: within the nesting limit, before any text
  that does not continue a number, with fuel for twice the length.\<close>

lemma parse_marshal: "wf_json v \<Longrightarrow> jdepth v \<le> d \<Longrightarrow> reads d v"
proof (induction v arbitrary: d)
  case (JNum t)
  from JNum have p: "p_number t = Some (t, [])" by simp
  from p_number_head [OF p] obtain c u where t: "t = c # u" "is_digit c \<or> c = CHR ''-''"
    by (cases t) auto
  with number_head_value have c: "value_head c"
    "c \<notin> {CHR ''{'', CHR ''['', dquote, CHR ''n'', CHR ''t'', CHR ''f''}" by blast+
  show ?case
  proof (rule readsI)
    fix n r
    assume "ends_number r"
    then have "p_number (c # u @ r) = Some (t, r)" using p_number_literal [OF p] t by simp
    with c t show "p_value (Suc n) d (marshal (JNum t) @ r) = Some (JNum t, r)"
      by (simp add: skip_ws_not value_head_def)
  qed (simp add: t)
next
  case (JStr s)
  then show ?case by (intro readsI) (simp_all add: quote_def scan_str_quote_body)
next
  case (JArr vs)
  then have d: "0 < d" "\<forall>v\<in>set vs. reads (d - 1) v" by (auto simp: jdepth_arr wf_arr)
  show ?case
  proof (cases "vs = []")
    case True
    with d show ?thesis by (intro readsI) (simp_all add: skip_ws_not is_ws_def)
  next
    case False
    then obtain x xs where vs: "vs = x # xs" by (cases vs) auto
    with JArr.prems marshal_head [of x] obtain c s where c: "marshal x = c # s" "value_head c"
      by (auto simp: wf_arr)
    with vs commas_head [of "map marshal vs" c s] obtain s' where s': "commas (map marshal vs) = c # s'"
      by auto
    show ?thesis
    proof (rule readsI)
      fix n r
      assume "2 * length (marshal (JArr vs)) \<le> Suc n"
      with False d have "p_elements n (d - 1) (commas (map marshal vs) @ CHR '']'' # r) = Some (vs, r)"
        by (intro elements_read) auto
      with c d s' show "p_value (Suc n) d (marshal (JArr vs) @ r) = Some (JArr vs, r)"
        by (simp add: skip_ws_not value_head_def is_ws_def)
    qed simp
  qed
next
  case (JObj ms)
  then have d: "0 < d" "\<forall>(k, v)\<in>set ms. utf8_valid k \<and> reads (d - 1) v"
    by (fastforce simp: jdepth_obj wf_obj)+
  show ?case
  proof (cases "ms = []")
    case True
    with d show ?thesis by (intro readsI) (simp_all add: marshal_obj skip_ws_not is_ws_def)
  next
    case False
    with commas_head [of "map member_text ms" dquote] obtain s'
      where s': "commas (map member_text ms) = dquote # s'"
      by (cases ms) (auto simp: quote_def)
    show ?thesis
    proof (rule readsI)
      fix n r
      assume "2 * length (marshal (JObj ms)) \<le> Suc n"
      with False d have "p_members n (d - 1) (commas (map member_text ms) @ CHR ''}'' # r) = Some (ms, r)"
        by (intro members_read) (auto simp: marshal_obj)
      with d s' show "p_value (Suc n) d (marshal (JObj ms) @ r) = Some (JObj ms, r)"
        by (simp add: skip_ws_not is_ws_def marshal_obj)
    qed (simp add: marshal_obj)
  qed
qed (auto intro!: readsI simp: skip_ws_not is_ws_def split: if_splits)

lemma json_parse_marshal:
  "wf_json v \<Longrightarrow> jdepth v \<le> max_nesting \<Longrightarrow> json_parse (marshal v) = Some v"
proof -
  assume "wf_json v" "jdepth v \<le> max_nesting"
  then have "reads max_nesting v" by (rule parse_marshal)
  from this [unfolded reads_def, rule_format, of "json_fuel (marshal v)" "[]"]
  have "p_value (json_fuel (marshal v)) max_nesting (marshal v) = Some (v, [])"
    by (simp only: json_fuel_def ends_number_punct append_Nil2)
  then show ?thesis by (simp add: json_parse_def skip_ws_def)
qed

section \<open>The fuel is enough\<close>

lemma value_fuel_step:
  assumes e: "\<And>q d n m. length q < length s \<Longrightarrow> 2 * length q + 1 < n \<Longrightarrow> 2 * length q + 1 < m \<Longrightarrow>
      p_elements n d q = p_elements m d q"
    and m: "\<And>q d n m. length q < length s \<Longrightarrow> 2 * length q < n \<Longrightarrow> 2 * length q < m \<Longrightarrow>
      p_members n d q = p_members m d q"
    and n: "2 * length s \<le> n" "2 * length s \<le> m"
  shows "p_value (Suc n) d s = p_value (Suc m) d s"
proof (cases "skip_ws s")
  case (Cons c q)
  then have "length q < length s" by (rule skip_ws_Cons_length)
  with n have "p_elements n (d - 1) q = p_elements m (d - 1) q"
    "p_members n (d - 1) q = p_members m (d - 1) q" by (auto intro!: e m)
  with Cons show ?thesis by simp
qed simp

lemma elements_fuel_step:
  assumes v: "p_value n d s = p_value m d s"
    and e: "\<And>q. length q < length s \<Longrightarrow> p_elements n d q = p_elements m d q"
  shows "p_elements (Suc n) d s = p_elements (Suc m) d s"
proof (cases "p_value m d s")
  case (Some vr)
  obtain x r where vr: "vr = (x, r)" by (cases vr)
  show ?thesis
  proof (cases "skip_ws r")
    case (Cons c q)
    then have "length q < length s"
      using skip_ws_Cons_length value_shorter Some vr by (metis less_trans)
    with e Cons Some v vr show ?thesis by simp
  qed (simp add: v Some vr)
qed (simp add: v)

lemma members_fuel_step:
  assumes v: "\<And>q. length q < length s \<Longrightarrow> p_value n d q = p_value m d q"
    and e: "\<And>q. length q < length s \<Longrightarrow> p_members n d q = p_members m d q"
  shows "p_members (Suc n) d s = p_members (Suc m) d s"
proof (cases "skip_ws s")
  case s: (Cons c r)
  show ?thesis
  proof (cases "scan_str r")
    case k: (Some kr)
    obtain key r1 where kr: "kr = (key, r1)" by (cases kr)
    show ?thesis
    proof (cases "skip_ws r1")
      case r1: (Cons c1 r2)
      have r2: "length r2 < length s"
        using skip_ws_Cons_length [OF s] skip_ws_Cons_length [OF r1] scan_str_shorter k kr by fastforce
      have eq: "p_value n d r2 = p_value m d r2" by (rule v [OF r2])
      show ?thesis
      proof (cases "p_value m d r2")
        case (Some vr)
        obtain x r3 where vr: "vr = (x, r3)" by (cases vr)
        have "p_members n d r4 = p_members m d r4" if "skip_ws r3 = c3 # r4" for c3 r4
          using skip_ws_Cons_length [OF that] value_shorter [of m d r2 x r3] Some vr r2 by (intro e) simp
        then show ?thesis by (cases "skip_ws r3") (simp_all add: s k kr r1 eq Some vr)
      qed (simp add: s k kr r1 eq)
    qed (simp add: s k kr)
  qed (simp add: s)
qed simp

lemma fuel_enough:
  "(2 * length s < n \<longrightarrow> 2 * length s < m \<longrightarrow> p_value n d s = p_value m d s) \<and>
   (2 * length s + 1 < n \<longrightarrow> 2 * length s + 1 < m \<longrightarrow> p_elements n d s = p_elements m d s) \<and>
   (2 * length s < n \<longrightarrow> 2 * length s < m \<longrightarrow> p_members n d s = p_members m d s)"
proof (induction s arbitrary: n m d rule: length_induct)
  case (1 s)
  have IHv: "p_value n d q = p_value m d q"
    if "length q < length s" "2 * length q < n" "2 * length q < m" for q n m d using 1 that by blast
  have IHe: "p_elements n d q = p_elements m d q"
    if "length q < length s" "2 * length q + 1 < n" "2 * length q + 1 < m" for q n m d using 1 that by blast
  have IHm: "p_members n d q = p_members m d q"
    if "length q < length s" "2 * length q < n" "2 * length q < m" for q n m d using 1 that by blast
  have v: "p_value n d s = p_value m d s" if nm: "2 * length s < n" "2 * length s < m" for n m d
  proof -
    obtain n' m' where nm': "n = Suc n'" "m = Suc m'" using nm by (cases n; cases m) auto
    show ?thesis unfolding nm'
    proof (rule value_fuel_step)
      show "2 * length s \<le> n'" "2 * length s \<le> m'" using nm nm' by simp_all
    qed (fact IHe IHm)+
  qed
  have e: "p_elements n d s = p_elements m d s" if nm: "2 * length s + 1 < n" "2 * length s + 1 < m"
  proof -
    obtain n' m' where nm': "n = Suc n'" "m = Suc m'" using nm by (cases n; cases m) auto
    show ?thesis unfolding nm'
    proof (rule elements_fuel_step)
      show "p_value n' d s = p_value m' d s" using nm nm' by (intro v) simp_all
    next
      fix q :: string
      assume "length q < length s"
      with nm nm' show "p_elements n' d q = p_elements m' d q" by (intro IHe) simp_all
    qed
  qed
  have "p_members n d s = p_members m d s" if nm: "2 * length s < n" "2 * length s < m"
  proof -
    obtain n' m' where nm': "n = Suc n'" "m = Suc m'" using nm by (cases n; cases m) auto
    show ?thesis unfolding nm'
    proof (rule members_fuel_step)
      fix q :: string
      assume q: "length q < length s"
      with nm nm' show "p_value n' d q = p_value m' d q" by (intro IHv) simp_all
      from q nm nm' show "p_members n' d q = p_members m' d q" by (intro IHm) simp_all
    qed
  qed
  with v e show ?case by blast
qed

end
