(* ===== verification/Sql_Store.thy ===== *)
theory Sql_Store
  imports Go_Encoding "HOL-Library.Product_Lexorder"
begin

text \<open>
  The PostgreSQL side of the stores.  A table is the list of its rows in scan order; an
  \<open>UPDATE\<close> rewrites the rows its \<open>WHERE\<close> clause selects, an \<open>INSERT\<close> appends.  A transaction
  is a function from the state it read to the state it commits, so rolling back is returning the
  old state.  What the sources cannot control is the environment \<open>db_env\<close>: the transaction's
  \<open>now()\<close>, the successive \<open>clock_timestamp()\<close> readings, which rows other transactions hold
  (\<open>SKIP LOCKED\<close>), the collation's sort keys, whether the statement or commit reported under a
  given error message fails, and whether a commit that reported failure took effect.
\<close>

datatype cause = Canceled | DeadlineExceeded | DriverError

record db_env =
  db_now :: gotime
  db_clock :: "nat \<Rightarrow> gotime"
  db_locked :: "string \<Rightarrow> bool"
  db_collate :: "string \<Rightarrow> string"
  db_fault :: "string \<Rightarrow> cause option"
  commit_applied :: bool

definition sql_update :: "('r \<Rightarrow> bool) \<Rightarrow> ('r \<Rightarrow> 'r) \<Rightarrow> 'r list \<Rightarrow> 'r list" where
  "sql_update P f rs = map (\<lambda>r. if P r then f r else r) rs"

definition sql_count :: "('r \<Rightarrow> bool) \<Rightarrow> 'r list \<Rightarrow> nat" where
  "sql_count P rs = length (filter P rs)"

text \<open>A text parameter PostgreSQL accepts: valid UTF-8 without NUL.\<close>

definition db_text :: "string \<Rightarrow> bool" where
  "db_text s \<longleftrightarrow> utf8_valid s \<and> \<not> has_nul s"

text \<open>The error of one statement sent with the given text parameters, if any.\<close>

definition stmt_fault :: "db_env \<Rightarrow> string \<Rightarrow> string list \<Rightarrow> cause option" where
  "stmt_fault env msg ps =
     (if list_all db_text ps then db_fault env msg
      else case db_fault env msg of None \<Rightarrow> Some DriverError | Some c \<Rightarrow> Some c)"

text \<open>The error of a statement a constraint rejects.\<close>

definition violation :: "db_env \<Rightarrow> string \<Rightarrow> cause" where
  "violation env msg = (case db_fault env msg of None \<Rightarrow> DriverError | Some c \<Rightarrow> c)"

text \<open>A statement inside a transaction: a fault returns the wrapped error and rolls back to
  \<open>old\<close>.\<close>

definition stmt ::
  "db_env \<Rightarrow> (string \<Rightarrow> cause \<Rightarrow> 'e) \<Rightarrow> string \<Rightarrow> string list \<Rightarrow> 'db \<Rightarrow> 'db \<times> ('e + 'a) \<Rightarrow> 'db \<times> ('e + 'a)" where
  "stmt env wrap msg ps old k =
     (case stmt_fault env msg ps of None \<Rightarrow> k | Some c \<Rightarrow> (old, Inl (wrap msg c)))"

text \<open>The commit of a transaction, or a single statement outside one: when an error is reported
  the new state may have been made durable or not.\<close>

definition commit ::
  "db_env \<Rightarrow> (string \<Rightarrow> cause \<Rightarrow> 'e) \<Rightarrow> string \<Rightarrow> string list \<Rightarrow> 'db \<Rightarrow> 'db \<Rightarrow> 'a \<Rightarrow> 'db \<times> ('e + 'a)" where
  "commit env wrap msg ps old new v =
     (case stmt_fault env msg ps of
        None \<Rightarrow> (new, Inr v)
      | Some c \<Rightarrow> (if commit_applied env \<and> list_all db_text ps then new else old, Inl (wrap msg c)))"

text \<open>An environment without faults, and one whose statements all succeed at a given time.\<close>

definition calm :: "db_env \<Rightarrow> bool" where
  "calm env \<longleftrightarrow> (\<forall>msg. db_fault env msg = None)"

definition quiet_env :: "gotime \<Rightarrow> db_env" where
  "quiet_env t = \<lparr>db_now = t, db_clock = (\<lambda>_. t), db_locked = (\<lambda>_. False),
     db_collate = (\<lambda>s. s), db_fault = (\<lambda>_. None), commit_applied = False\<rparr>"

section \<open>Rows under an update\<close>

named_theorems sql_simps \<open>rewriting with table operations\<close>

lemma length_sql_update [simp, sql_simps]: "length (sql_update P f rs) = length rs"
  by (simp add: sql_update_def)

lemma map_sql_update [sql_simps]: "(\<And>r. P r \<Longrightarrow> g (f r) = g r) \<Longrightarrow> map g (sql_update P f rs) = map g rs"
  by (auto simp: sql_update_def)

lemma list_all_sql_update:
  "list_all Q rs \<Longrightarrow> (\<And>r. r \<in> set rs \<Longrightarrow> P r \<Longrightarrow> Q r \<Longrightarrow> Q (f r)) \<Longrightarrow> list_all Q (sql_update P f rs)"
  by (auto simp: sql_update_def list_all_iff)

lemma in_sql_update:
  "r \<in> set (sql_update P f rs) \<longleftrightarrow> (\<exists>x\<in>set rs. r = (if P x then f x else x))"
  by (auto simp: sql_update_def)

lemma sql_update_none: "(\<And>r. r \<in> set rs \<Longrightarrow> \<not> P r) \<Longrightarrow> sql_update P f rs = rs"
  by (induction rs) (auto simp: sql_update_def)

lemma sql_update_id: "(\<And>r. f r = r) \<Longrightarrow> sql_update P f rs = rs"
  by (induction rs) (auto simp: sql_update_def)

lemma sql_update_cong:
  "(\<And>r. r \<in> set rs \<Longrightarrow> P r = Q r) \<Longrightarrow> (\<And>r. r \<in> set rs \<Longrightarrow> Q r \<Longrightarrow> f r = g r) \<Longrightarrow>
     sql_update P f rs = sql_update Q g rs"
  by (auto simp: sql_update_def)

lemma filter_sql_update:
  "(\<And>r. P r \<Longrightarrow> Q (f r) = Q r) \<Longrightarrow> filter Q (sql_update P f rs) = sql_update P f (filter Q rs)"
  by (induction rs) (auto simp: sql_update_def)

lemma sql_count_le: "(\<And>r. r \<in> set rs \<Longrightarrow> P r \<Longrightarrow> Q r) \<Longrightarrow> sql_count P rs \<le> sql_count Q rs"
  by (induction rs) (auto simp: sql_count_def)

lemma distinct_key_unique:
  "distinct (map k rs) \<Longrightarrow> r \<in> set rs \<Longrightarrow> s \<in> set rs \<Longrightarrow> k r = k s \<Longrightarrow> r = s"
  by (metis distinct_map inj_onD)

lemma filter_singleton:
  "distinct xs \<Longrightarrow> x \<in> set xs \<Longrightarrow> P x \<Longrightarrow> (\<And>y. y \<in> set xs \<Longrightarrow> P y \<Longrightarrow> y = x) \<Longrightarrow> filter P xs = [x]"
proof (induction xs)
  case (Cons a xs)
  show ?case
  proof (cases "a = x")
    case True
    have "filter P xs = []" unfolding filter_empty_conv
    proof (intro ballI notI)
      fix y
      assume "y \<in> set xs" "P y"
      with Cons.prems(4) [of y] True Cons.prems(1) show False by simp
    qed
    with True Cons.prems(3) show ?thesis by simp
  next
    case False
    have "\<not> P a" using Cons.prems(4) [of a] False by auto
    moreover have "filter P xs = [x]"
      by (rule Cons.IH) (use Cons.prems(1-3) False in simp_all, rule Cons.prems(4), simp_all)
    ultimately show ?thesis by simp
  qed
qed simp

section \<open>Single-row reads\<close>

text \<open>\<open>QueryRow\<close>: the first row the clause selects, \<open>None\<close> standing for \<open>sql.ErrNoRows\<close>.\<close>

definition sql_row :: "('r \<Rightarrow> bool) \<Rightarrow> 'r list \<Rightarrow> 'r option" where
  "sql_row P rs = find P rs"

lemma sql_row_Some: "sql_row P rs = Some r \<Longrightarrow> r \<in> set rs \<and> P r"
  by (auto simp: sql_row_def find_Some_iff)

lemma sql_row_None: "sql_row P rs = None \<longleftrightarrow> (\<forall>r\<in>set rs. \<not> P r)"
  by (auto simp: sql_row_def find_None_iff)

lemma sql_row_unique:
  "r \<in> set rs \<Longrightarrow> P r \<Longrightarrow> (\<And>s. s \<in> set rs \<Longrightarrow> P s \<Longrightarrow> s = r) \<Longrightarrow> sql_row P rs = Some r"
proof -
  assume r: "r \<in> set rs" "P r" and u: "\<And>s. s \<in> set rs \<Longrightarrow> P s \<Longrightarrow> s = r"
  have "sql_row P rs \<noteq> None" using r by (auto simp: sql_row_None)
  then obtain s where s: "sql_row P rs = Some s" by blast
  with u sql_row_Some [OF s] show ?thesis by auto
qed

section \<open>Faults\<close>

lemma calm_quiet [simp]: "calm (quiet_env t)"
  by (simp add: calm_def quiet_env_def)

lemma quiet_env_sel [simp]:
  "db_now (quiet_env t) = t" "db_clock (quiet_env t) i = t" "db_locked (quiet_env t) s = False"
  "db_collate (quiet_env t) s = s" "db_fault (quiet_env t) m = None"
  by (simp_all add: quiet_env_def)

lemma stmt_calm [simp]: "calm env \<Longrightarrow> list_all db_text ps \<Longrightarrow> stmt env w msg ps old k = k"
  by (simp add: stmt_def stmt_fault_def calm_def)

lemma commit_calm [simp]: "calm env \<Longrightarrow> list_all db_text ps \<Longrightarrow> commit env w msg ps old new v = (new, Inr v)"
  by (simp add: commit_def stmt_fault_def calm_def)

lemma stmt_cases:
  assumes "stmt env w msg ps old k = (db', res)"
  obtains (fault) c where "db' = old" "res = Inl (w msg c)" | (go_on) "k = (db', res)"
  using assms by (auto simp: stmt_def split: option.splits)

lemma commit_cases:
  assumes "commit env w msg ps old new v = (db', res)"
  obtains (lost) c where "db' = old" "res = Inl (w msg c)"
  | (unknown) c where "db' = new" "res = Inl (w msg c)"
  | (applied) "db' = new" "res = Inr v"
  using assms by (auto simp: commit_def split: option.splits if_splits)

end
