(* ===== verification/Job_Queue.thy ===== *)
theory Job_Queue
  imports Go_Json_Facts Sql_Store
begin

text \<open>
  The package \<open>internal/jobqueue\<close>, file \<open>queue.go\<close>: a lease-fenced job queue over the tables
  \<open>jobs\<close> and \<open>job_attempts\<close> (migration 00002).  Each exported method of \<open>Queue\<close> is one
  function from the database to the database and a result; validation errors, sentinel errors and
  database errors are values of \<open>queue_error\<close>.  Parameters: \<open>sha\<close> is \<open>sha256.Sum256\<close>,
  \<open>jsonb\<close> is PostgreSQL's normalisation of a \<open>jsonb\<close> value (\<open>None\<close> when the value or its
  stored size is rejected), \<open>rnd\<close> is what the random source returned.  The telemetry averages of
  \<open>Metrics\<close>, which are floating-point, are left out of \<open>metrics\<close>.
\<close>

section \<open>Data\<close>

datatype queue_error =
    ErrConflict | ErrCancellationRequested | ErrInvalid | ErrLeaseLost | ErrNotFound
  | ErrNotCancellable | QueueRandom | QueueDB string cause

datatype State =
    StateQueued | StateLeased | StateRunning | StateRetryWait
  | StateSucceeded | StateDeadLetter | StateCancelled

text \<open>Any string converts to \<open>ErrorClass\<close>; the two constants are the valid ones.\<close>

datatype ErrorClass = ErrorRetryable | ErrorPermanent | OtherClass string

record Spec =
  specWorkspaceID :: string
  specOperationID :: string
  specInitiatingPrincipalID :: string
  specSystemCapability :: string
  specQueue :: string
  specKind :: string
  specSchemaVersion :: int
  specPayload :: string
  specIdempotencyKey :: string
  specPriority :: int
  specAvailableAt :: gotime
  specMaxAttempts :: int

record Job =
  jobID :: string
  jobWorkspaceID :: string
  jobOperationID :: string
  jobInitiatingPrincipalID :: string
  jobSystemCapability :: string
  jobQueue :: string
  jobKind :: string
  jobSchemaVersion :: int
  jobPayload :: string
  jobIdempotencyKey :: string
  jobState :: State
  jobPriority :: int
  jobAvailableAt :: gotime
  jobAttemptCount :: int
  jobMaxAttempts :: int
  jobLeaseOwner :: string
  jobLeaseExpiresAt :: "gotime option"
  jobHeartbeatAt :: "gotime option"
  jobCancellationRequestedAt :: "gotime option"
  jobLastErrorClass :: string
  jobLastErrorCode :: string
  jobCreatedAt :: gotime
  jobStartedAt :: "gotime option"
  jobCompletedAt :: "gotime option"
  requestFingerprint :: string

record Lease =
  leaseJob :: Job
  leaseToken :: string

record Failure =
  failureClass :: ErrorClass
  failureCode :: string

record Metrics =
  mQueued :: nat
  mRunning :: nat
  mRetryWait :: nat
  mDeadLetter :: nat
  mSucceeded :: nat
  mCancelled :: nat
  mExpiredLeases :: nat
  mSaturatedWorkspaces :: nat
  mRetries :: nat

text \<open>A row of \<open>open_aspm.jobs\<close>; nullable columns are options.\<close>

record job_row =
  j_id :: string
  j_workspace :: string
  j_operation :: "string option"
  j_principal :: string
  j_capability :: string
  j_queue :: string
  j_kind :: string
  j_schema_version :: int
  j_payload :: string
  j_key :: string
  j_fingerprint :: string
  j_state :: State
  j_priority :: int
  j_available_at :: gotime
  j_attempts :: int
  j_max_attempts :: int
  j_owner :: "string option"
  j_token_hash :: "string option"
  j_expires_at :: "gotime option"
  j_heartbeat_at :: "gotime option"
  j_cancel_at :: "gotime option"
  j_error_class :: "string option"
  j_error_code :: "string option"
  j_created_at :: gotime
  j_started_at :: "gotime option"
  j_completed_at :: "gotime option"

record attempt_row =
  a_job :: string
  a_workspace :: string
  a_number :: int
  a_owner :: string
  a_leased_at :: gotime
  a_started_at :: "gotime option"
  a_heartbeat_at :: gotime
  a_finished_at :: "gotime option"
  a_outcome :: "string option"
  a_error_code :: "string option"

record queue_db =
  workspaces :: "string list"
  jobs :: "job_row list"
  job_attempts :: "attempt_row list"

definition active :: "State \<Rightarrow> bool" where
  "active s \<longleftrightarrow> s = StateLeased \<or> s = StateRunning"

definition waiting :: "State \<Rightarrow> bool" where
  "waiting s \<longleftrightarrow> s = StateQueued \<or> s = StateRetryWait"

definition terminal :: "State \<Rightarrow> bool" where
  "terminal s \<longleftrightarrow> s = StateSucceeded \<or> s = StateDeadLetter \<or> s = StateCancelled"

section \<open>Validation\<close>

definition maxPayloadBytes :: "nat" where "maxPayloadBytes = 60 * 1024"
definition minLease :: "duration" where "minLease = second"
definition maxLease :: "duration" where "maxLease = hour"

definition validName :: "string \<Rightarrow> bool" where
  "validName v \<longleftrightarrow> pat_ident name_char 62 v"

definition validCode :: "string \<Rightarrow> bool" where
  "validCode v \<longleftrightarrow> v \<noteq> [] \<and> length v \<le> 128 \<and> pat_ident name_char 62 v"

definition validateOpaqueID :: "string \<Rightarrow> bool" where
  "validateOpaqueID v \<longleftrightarrow> 3 \<le> length v \<and> length v \<le> 128 \<and> trimmed v \<and> \<not> has_nul v"

definition validateResourceIdentity :: "string \<Rightarrow> string \<Rightarrow> bool" where
  "validateResourceIdentity ws i \<longleftrightarrow> validateOpaqueID ws \<and> validateOpaqueID i"

definition validateLeaseIdentity :: "string \<Rightarrow> string \<Rightarrow> string \<Rightarrow> bool" where
  "validateLeaseIdentity ws i token \<longleftrightarrow>
     validateResourceIdentity ws i \<and> strip_prefix ''lease_'' token \<noteq> None \<and>
     length token = length ''lease_'' + 52"

definition validateSpec :: "Spec \<Rightarrow> bool" where
  "validateSpec sp \<longleftrightarrow>
     validateOpaqueID (specWorkspaceID sp) \<and>
     (specOperationID sp = [] \<or> validateOpaqueID (specOperationID sp)) \<and>
     validateOpaqueID (specInitiatingPrincipalID sp) \<and>
     pat_ident capability_char 127 (specSystemCapability sp) \<and> validName (specQueue sp) \<and>
     validName (specKind sp) \<and> 0 < specSchemaVersion sp \<and>
     pat_run key_char 1 128 (specIdempotencyKey sp) \<and>
     - 1000 \<le> specPriority sp \<and> specPriority sp \<le> 1000 \<and>
     0 < specMaxAttempts sp \<and> specMaxAttempts sp \<le> 100 \<and>
     specPayload sp \<noteq> [] \<and> length (specPayload sp) \<le> maxPayloadBytes \<and> json_valid (specPayload sp)"

text \<open>The object whose encoding is hashed into the request fingerprint, with the canonical
  payload embedded as it is.\<close>

definition member :: "string \<Rightarrow> string \<Rightarrow> string" where
  "member k v = quote k @ CHR '':'' # v"

definition fingerprintInput :: "Spec \<Rightarrow> string \<Rightarrow> string" where
  "fingerprintInput sp payload =
     CHR ''{'' # commas
       ([member ''workspace_id'' (quote (specWorkspaceID sp))]
        @ (if specOperationID sp = [] then [] else [member ''operation_id'' (quote (specOperationID sp))])
        @ [member ''initiating_principal_id'' (quote (specInitiatingPrincipalID sp)),
           member ''system_capability'' (quote (specSystemCapability sp)),
           member ''queue'' (quote (specQueue sp)),
           member ''kind'' (quote (specKind sp)),
           member ''schema_version'' (itoa (specSchemaVersion sp)),
           member ''payload'' payload,
           member ''priority'' (itoa (specPriority sp)),
           member ''available_at''
             (quote (if is_zero (specAvailableAt sp) then [] else rfc3339nano (specAvailableAt sp))),
           member ''max_attempts'' (itoa (specMaxAttempts sp))]) @ ''}''"

definition fingerprintSpec ::
  "(string \<Rightarrow> string) \<Rightarrow> Spec \<Rightarrow> queue_error + (string \<times> string)" where
  "fingerprintSpec sha sp =
     (if \<not> validateSpec sp then Inl ErrInvalid
      else
        (case json_parse (specPayload sp) of
           Some (JObj ms) \<Rightarrow>
             (let payload = marshal (canon (JObj ms)) in
              if length payload > maxPayloadBytes then Inl ErrInvalid
              else Inr (payload, sha (fingerprintInput sp payload)))
         | _ \<Rightarrow> Inl ErrInvalid))"

definition sameSpec :: "Job \<Rightarrow> Spec \<Rightarrow> bool" where
  "sameSpec job sp \<longleftrightarrow>
     (case (json_parse (jobPayload job), json_parse (specPayload sp)) of
        (Some existing, Some requested) \<Rightarrow>
          jobOperationID job = specOperationID sp \<and>
          jobInitiatingPrincipalID job = specInitiatingPrincipalID sp \<and>
          jobSystemCapability job = specSystemCapability sp \<and>
          jobSchemaVersion job = specSchemaVersion sp \<and>
          marshal (canon existing) = marshal (canon requested) \<and>
          jobPriority job = specPriority sp \<and> jobMaxAttempts job = specMaxAttempts sp
      | _ \<Rightarrow> False)"

definition randomID :: "string \<Rightarrow> nat \<Rightarrow> string option \<Rightarrow> queue_error + string" where
  "randomID prefix n rnd =
     (case rnd of
        None \<Rightarrow> Inl QueueRandom
      | Some bs \<Rightarrow> Inr (random_text prefix (take n (bs @ replicate n nul_byte))))"

definition hashLeaseToken :: "(string \<Rightarrow> string) \<Rightarrow> string \<Rightarrow> string" where
  "hashLeaseToken sha token = sha token"

definition null_string :: "string option \<Rightarrow> string" where
  "null_string v = (case v of None \<Rightarrow> [] | Some s \<Rightarrow> s)"

definition scanJob :: "job_row \<Rightarrow> Job" where
  "scanJob r =
     \<lparr>jobID = j_id r, jobWorkspaceID = j_workspace r, jobOperationID = null_string (j_operation r),
      jobInitiatingPrincipalID = j_principal r, jobSystemCapability = j_capability r,
      jobQueue = j_queue r, jobKind = j_kind r, jobSchemaVersion = j_schema_version r,
      jobPayload = j_payload r, jobIdempotencyKey = j_key r, jobState = j_state r,
      jobPriority = j_priority r, jobAvailableAt = j_available_at r, jobAttemptCount = j_attempts r,
      jobMaxAttempts = j_max_attempts r, jobLeaseOwner = null_string (j_owner r),
      jobLeaseExpiresAt = j_expires_at r, jobHeartbeatAt = j_heartbeat_at r,
      jobCancellationRequestedAt = j_cancel_at r, jobLastErrorClass = null_string (j_error_class r),
      jobLastErrorCode = null_string (j_error_code r), jobCreatedAt = j_created_at r,
      jobStartedAt = j_started_at r, jobCompletedAt = j_completed_at r,
      requestFingerprint = j_fingerprint r\<rparr>"

section \<open>The schema\<close>

text \<open>The \<open>CHECK\<close> constraints of \<open>open_aspm.jobs\<close>; \<open>length\<close> counts characters.  The payload
  constraints are part of \<open>jsonb\<close>.\<close>

definition in_length :: "nat \<Rightarrow> nat \<Rightarrow> string \<Rightarrow> bool" where
  "in_length lo hi s \<longleftrightarrow> lo \<le> rune_count s \<and> rune_count s \<le> hi"

definition jobs_lease_fields_consistent :: "job_row \<Rightarrow> bool" where
  "jobs_lease_fields_consistent r \<longleftrightarrow>
     (if active (j_state r)
      then j_owner r \<noteq> None \<and> j_token_hash r \<noteq> None \<and> j_expires_at r \<noteq> None \<and> j_heartbeat_at r \<noteq> None
      else j_owner r = None \<and> j_token_hash r = None \<and> j_expires_at r = None \<and> j_heartbeat_at r = None)"

definition jobs_attempts_valid :: "job_row \<Rightarrow> bool" where
  "jobs_attempts_valid r \<longleftrightarrow>
     0 \<le> j_attempts r \<and> 1 \<le> j_max_attempts r \<and> j_max_attempts r \<le> 100 \<and>
     j_attempts r \<le> j_max_attempts r \<and>
     (waiting (j_state r) \<longrightarrow> j_attempts r < j_max_attempts r) \<and>
     (active (j_state r) \<longrightarrow> 0 < j_attempts r)"

definition jobs_error_fields_known :: "job_row \<Rightarrow> bool" where
  "jobs_error_fields_known r \<longleftrightarrow>
     (case j_error_class r of None \<Rightarrow> True | Some c \<Rightarrow> c \<in> {''retryable'', ''permanent'', ''worker''}) \<and>
     (case j_error_code r of None \<Rightarrow> True | Some c \<Rightarrow> pat_ident name_char 127 c)"

definition jobs_request_valid :: "job_row \<Rightarrow> bool" where
  "jobs_request_valid r \<longleftrightarrow>
     (case j_operation r of None \<Rightarrow> True | Some i \<Rightarrow> in_length 3 128 i) \<and>
     in_length 3 128 (j_principal r) \<and> pat_ident capability_char 127 (j_capability r) \<and>
     pat_ident name_char 127 (j_queue r) \<and> pat_ident name_char 127 (j_kind r) \<and>
     0 < j_schema_version r \<and> j_schema_version r < 2 ^ 31 \<and>
     pat_run key_char 1 128 (j_key r) \<and> length (j_fingerprint r) = 32 \<and>
     - 1000 \<le> j_priority r \<and> j_priority r \<le> 1000"

definition job_row_ok :: "job_row \<Rightarrow> bool" where
  "job_row_ok r \<longleftrightarrow>
     jobs_request_valid r \<and> jobs_attempts_valid r \<and> jobs_lease_fields_consistent r \<and>
     jobs_error_fields_known r \<and>
     (case j_owner r of None \<Rightarrow> True | Some o' \<Rightarrow> in_length 1 128 o') \<and>
     (case j_token_hash r of None \<Rightarrow> True | Some h \<Rightarrow> length h = 32) \<and>
     (j_state r = StateRunning \<longrightarrow> j_started_at r \<noteq> None) \<and>
     (terminal (j_state r) \<longleftrightarrow> j_completed_at r \<noteq> None)"

definition attempt_row_ok :: "attempt_row \<Rightarrow> bool" where
  "attempt_row_ok a \<longleftrightarrow>
     0 < a_number a \<and> in_length 1 128 (a_owner a) \<and>
     (case a_outcome a of None \<Rightarrow> True
      | Some o' \<Rightarrow> o' \<in> {''succeeded'', ''retry'', ''dead_letter'', ''cancelled'', ''lease_expired''}) \<and>
     (a_finished_at a = None \<longleftrightarrow> a_outcome a = None) \<and>
     (case a_error_code a of None \<Rightarrow> True | Some c \<Rightarrow> pat_ident name_char 127 c)"

section \<open>Enqueue\<close>

definition idempotency_key :: "job_row \<Rightarrow> string \<times> string \<times> string \<times> string" where
  "idempotency_key r = (j_workspace r, j_queue r, j_kind r, j_key r)"

definition spec_key :: "Spec \<Rightarrow> string \<times> string \<times> string \<times> string" where
  "spec_key sp = (specWorkspaceID sp, specQueue sp, specKind sp, specIdempotencyKey sp)"

definition new_job_row :: "db_env \<Rightarrow> string \<Rightarrow> Spec \<Rightarrow> string \<Rightarrow> string \<Rightarrow> job_row" where
  "new_job_row env i sp payload fp =
     \<lparr>j_id = i, j_workspace = specWorkspaceID sp,
      j_operation = (if specOperationID sp = [] then None else Some (specOperationID sp)),
      j_principal = specInitiatingPrincipalID sp, j_capability = specSystemCapability sp,
      j_queue = specQueue sp, j_kind = specKind sp, j_schema_version = specSchemaVersion sp,
      j_payload = payload, j_key = specIdempotencyKey sp, j_fingerprint = fp,
      j_state = StateQueued, j_priority = specPriority sp,
      j_available_at = (if is_zero (specAvailableAt sp) then db_clock env 0
                        else truncate_us (specAvailableAt sp)),
      j_attempts = 0, j_max_attempts = specMaxAttempts sp,
      j_owner = None, j_token_hash = None, j_expires_at = None, j_heartbeat_at = None,
      j_cancel_at = None, j_error_class = None, j_error_code = None,
      j_created_at = db_clock env 1, j_started_at = None, j_completed_at = None\<rparr>"

text \<open>\<open>INSERT ... ON CONFLICT (workspace_id, queue, kind, idempotency_key) DO NOTHING\<close>: the new
  state and the affected row count, or the constraint violation.\<close>

definition insert_job :: "job_row \<Rightarrow> queue_db \<Rightarrow> (queue_db \<times> nat) option" where
  "insert_job r db =
     (if \<not> job_row_ok r then None
      else if idempotency_key r \<in> set (map idempotency_key (jobs db)) then Some (db, 0)
      else if j_id r \<in> set (map j_id (jobs db)) \<or> j_workspace r \<notin> set (workspaces db) then None
      else Some (db\<lparr>jobs := jobs db @ [r]\<rparr>, 1))"

definition byIdempotencyKey :: "db_env \<Rightarrow> Spec \<Rightarrow> queue_db \<Rightarrow> queue_error + Job" where
  "byIdempotencyKey env sp db =
     (case db_fault env ''read enqueued job'' of
        Some c \<Rightarrow> Inl (QueueDB ''read enqueued job'' c)
      | None \<Rightarrow>
          (case sql_row (\<lambda>r. idempotency_key r = spec_key sp) (jobs db) of
             None \<Rightarrow> Inl ErrNotFound
           | Some r \<Rightarrow> Inr (scanJob r)))"

definition enqueue ::
  "(string \<Rightarrow> string) \<Rightarrow> (string \<Rightarrow> string option) \<Rightarrow> db_env \<Rightarrow> string option \<Rightarrow> Spec \<Rightarrow> queue_db
     \<Rightarrow> queue_db \<times> (queue_error + Job \<times> bool)" where
  "enqueue sha jsonb env rnd sp db =
     (case fingerprintSpec sha sp of
        Inl e \<Rightarrow> (db, Inl e)
      | Inr (payload, fp) \<Rightarrow>
          (case randomID ''job_'' 20 rnd of
             Inl e \<Rightarrow> (db, Inl e)
           | Inr i \<Rightarrow>
               (case Option.bind (jsonb payload) (\<lambda>p. insert_job (new_job_row env i sp p fp) db) of
                  None \<Rightarrow> (db, Inl (QueueDB ''enqueue job'' (violation env ''enqueue job'')))
                | Some (db1, rows) \<Rightarrow>
                    (case stmt_fault env ''enqueue job''
                            [specWorkspaceID sp, specOperationID sp, specInitiatingPrincipalID sp] of
                       Some c \<Rightarrow>
                         (if commit_applied env \<and> list_all db_text
                               [specWorkspaceID sp, specOperationID sp, specInitiatingPrincipalID sp]
                          then db1 else db, Inl (QueueDB ''enqueue job'' c))
                     | None \<Rightarrow>
                         (case db_fault env ''read enqueue result'' of
                            Some c \<Rightarrow> (db1, Inl (QueueDB ''read enqueue result'' c))
                          | None \<Rightarrow>
                              (case byIdempotencyKey env sp db1 of
                                 Inl e \<Rightarrow> (db1, Inl e)
                               | Inr job \<Rightarrow>
                                   if rows \<noteq> 1 \<and> requestFingerprint job \<noteq> fp
                                   then (db1, Inl ErrConflict)
                                   else (db1, Inr (job, rows = 1))))))))"

text \<open>\<open>EnqueueTx\<close>: the same inside a caller's transaction, which an error rolls back.\<close>

definition EnqueueTx ::
  "(string \<Rightarrow> string) \<Rightarrow> (string \<Rightarrow> string option) \<Rightarrow> db_env \<Rightarrow> string option \<Rightarrow> Spec \<Rightarrow> queue_db
     \<Rightarrow> queue_error + (queue_db \<times> Job \<times> bool)" where
  "EnqueueTx sha jsonb env rnd sp db =
     (case enqueue sha jsonb env rnd sp db of
        (_, Inl e) \<Rightarrow> Inl e
      | (db1, Inr (job, created)) \<Rightarrow> Inr (db1, job, created))"

section \<open>Acquire\<close>

definition active_count :: "string \<Rightarrow> string \<Rightarrow> queue_db \<Rightarrow> nat" where
  "active_count ws q db = sql_count (\<lambda>r. j_workspace r = ws \<and> j_queue r = q \<and> active (j_state r)) (jobs db)"

definition eligible :: "gotime \<Rightarrow> string \<Rightarrow> int \<Rightarrow> queue_db \<Rightarrow> job_row \<Rightarrow> bool" where
  "eligible now q cap db r \<longleftrightarrow>
     j_queue r = q \<and> waiting (j_state r) \<and> j_available_at r \<le> now \<and> j_cancel_at r = None \<and>
     int (active_count (j_workspace r) (j_queue r) db) < cap"

text \<open>\<open>ORDER BY active ASC, priority DESC, available_at ASC, created_at ASC\<close>.\<close>

definition fairness_key :: "queue_db \<Rightarrow> job_row \<Rightarrow> nat \<times> int \<times> int \<times> int" where
  "fairness_key db r =
     (active_count (j_workspace r) (j_queue r) db, - j_priority r, j_available_at r, j_created_at r)"

definition candidate :: "db_env \<Rightarrow> string \<Rightarrow> int \<Rightarrow> queue_db \<Rightarrow> job_row option" where
  "candidate env q cap db =
     (case filter (\<lambda>r. eligible (db_now env) q cap db r \<and> \<not> db_locked env (j_id r)) (jobs db) of
        [] \<Rightarrow> None
      | rs \<Rightarrow> Some (arg_min_list (fairness_key db) rs))"

definition lease_end :: "gotime \<Rightarrow> duration \<Rightarrow> gotime" where
  "lease_end now d = now + d div 1000 * 1000"

definition leased_row :: "gotime \<Rightarrow> string \<Rightarrow> string \<Rightarrow> duration \<Rightarrow> job_row \<Rightarrow> job_row" where
  "leased_row now owner h d r =
     r\<lparr>j_state := StateLeased, j_attempts := j_attempts r + 1, j_owner := Some owner,
       j_token_hash := Some h, j_expires_at := Some (lease_end now d), j_heartbeat_at := Some now\<rparr>"

definition new_attempt :: "gotime \<Rightarrow> string \<Rightarrow> job_row \<Rightarrow> attempt_row" where
  "new_attempt now owner r =
     \<lparr>a_job = j_id r, a_workspace = j_workspace r, a_number = j_attempts r, a_owner = owner,
      a_leased_at = now, a_started_at = None, a_heartbeat_at = now, a_finished_at = None,
      a_outcome = None, a_error_code = None\<rparr>"

definition acquire_valid :: "string \<Rightarrow> string \<Rightarrow> duration \<Rightarrow> int \<Rightarrow> bool" where
  "acquire_valid q owner d cap \<longleftrightarrow>
     validName q \<and> trimmed owner \<and> owner \<noteq> [] \<and> \<not> has_nul owner \<and> length owner \<le> 128 \<and>
     minLease \<le> d \<and> d \<le> maxLease \<and> 1 \<le> cap \<and> cap \<le> 100"

definition Acquire ::
  "(string \<Rightarrow> string) \<Rightarrow> db_env \<Rightarrow> string option \<Rightarrow> string \<Rightarrow> string \<Rightarrow> duration \<Rightarrow> int \<Rightarrow> queue_db
     \<Rightarrow> queue_db \<times> (queue_error + Lease option)" where
  "Acquire sha env rnd q owner d cap db =
     (if \<not> acquire_valid q owner d cap then (db, Inl ErrInvalid)
      else
        (case randomID ''lease_'' 32 rnd of
           Inl e \<Rightarrow> (db, Inl e)
         | Inr token \<Rightarrow>
             stmt env QueueDB ''begin lease'' [] db
             (stmt env QueueDB ''lock job acquisition'' [] db
             (stmt env QueueDB ''acquire job'' [owner] db
               (case candidate env q cap db of
                  None \<Rightarrow> (db, Inr None)
                | Some r \<Rightarrow>
                    (let r' = leased_row (db_now env) owner (hashLeaseToken sha token) d r;
                         a = new_attempt (db_now env) owner r'
                     in
                     if (a_job a, a_number a) \<in> set (map (\<lambda>x. (a_job x, a_number x)) (job_attempts db))
                     then (db, Inl (QueueDB ''record job attempt'' (violation env ''record job attempt'')))
                     else
                       stmt env QueueDB ''record job attempt'' [] db
                       (commit env QueueDB ''commit lease'' [] db
                         (db\<lparr>jobs := sql_update (\<lambda>x. j_id x = j_id r)
                                       (leased_row (db_now env) owner (hashLeaseToken sha token) d) (jobs db),
                             job_attempts := job_attempts db @ [a]\<rparr>)
                         (Some \<lparr>leaseJob = scanJob r', leaseToken = token\<rparr>))))))))"

section \<open>Lease mutations\<close>

definition holds :: "gotime \<Rightarrow> string \<Rightarrow> string \<Rightarrow> string \<Rightarrow> job_row \<Rightarrow> bool" where
  "holds now ws i h r \<longleftrightarrow>
     j_workspace r = ws \<and> j_id r = i \<and> j_token_hash r = Some h \<and>
     (case j_expires_at r of None \<Rightarrow> False | Some e \<Rightarrow> now < e)"

definition classifyLeaseMiss :: "db_env \<Rightarrow> string \<Rightarrow> string \<Rightarrow> string \<Rightarrow> queue_db \<Rightarrow> queue_error" where
  "classifyLeaseMiss env ws i h db =
     (case db_fault env ''classify lease loss'' of
        Some c \<Rightarrow> QueueDB ''classify lease loss'' c
      | None \<Rightarrow>
          (case sql_row (\<lambda>r. holds (db_now env) ws i h r \<and> active (j_state r)) (jobs db) of
             None \<Rightarrow> ErrLeaseLost
           | Some r \<Rightarrow> if j_cancel_at r \<noteq> None then ErrCancellationRequested else ErrLeaseLost))"

text \<open>\<open>UPDATE job_attempts ... FROM jobs\<close> on the attempt a leased job is in.\<close>

definition update_current_attempt ::
  "string \<Rightarrow> string \<Rightarrow> string \<Rightarrow> (attempt_row \<Rightarrow> attempt_row) \<Rightarrow> queue_db \<Rightarrow> queue_db" where
  "update_current_attempt ws i h f db =
     db\<lparr>job_attempts := sql_update
          (\<lambda>a. list_ex (\<lambda>r. j_workspace r = ws \<and> j_id r = i \<and> j_token_hash r = Some h \<and>
                             a_workspace a = j_workspace r \<and> a_job a = j_id r \<and> a_number a = j_attempts r)
                 (jobs db))
          f (job_attempts db)\<rparr>"

definition coalesce :: "'a option \<Rightarrow> 'a \<Rightarrow> 'a option" where
  "coalesce v d = (case v of None \<Rightarrow> Some d | Some x \<Rightarrow> Some x)"

definition startable :: "gotime \<Rightarrow> string \<Rightarrow> string \<Rightarrow> string \<Rightarrow> job_row \<Rightarrow> bool" where
  "startable now ws i h r \<longleftrightarrow> holds now ws i h r \<and> j_state r = StateLeased \<and> j_cancel_at r = None"

definition Start ::
  "(string \<Rightarrow> string) \<Rightarrow> db_env \<Rightarrow> string \<Rightarrow> string \<Rightarrow> string \<Rightarrow> queue_db \<Rightarrow> queue_db \<times> (queue_error + unit)" where
  "Start sha env ws i token db =
     (if \<not> validateLeaseIdentity ws i token then (db, Inl ErrInvalid)
      else
        let h = hashLeaseToken sha token; now = db_now env;
            db1 = db\<lparr>jobs := sql_update (startable now ws i h)
                       (\<lambda>r. r\<lparr>j_state := StateRunning, j_started_at := coalesce (j_started_at r) now\<rparr>) (jobs db)\<rparr>;
            db2 = update_current_attempt ws i h (\<lambda>a. a\<lparr>a_started_at := coalesce (a_started_at a) now\<rparr>) db1
        in
        stmt env QueueDB ''begin job start'' [] db
        (stmt env QueueDB ''start job'' [ws, i] db
        (stmt env QueueDB ''read lease result'' [] db
          (if sql_count (startable now ws i h) (jobs db) \<noteq> 1
           then (db, Inl (classifyLeaseMiss env ws i h db1))
           else
             stmt env QueueDB ''record job start'' [] db
             (commit env QueueDB ''commit job start'' [] db db2 ())))))"

definition beatable :: "gotime \<Rightarrow> string \<Rightarrow> string \<Rightarrow> string \<Rightarrow> job_row \<Rightarrow> bool" where
  "beatable now ws i h r \<longleftrightarrow> holds now ws i h r \<and> active (j_state r) \<and> j_cancel_at r = None"

definition Heartbeat ::
  "(string \<Rightarrow> string) \<Rightarrow> db_env \<Rightarrow> string \<Rightarrow> string \<Rightarrow> string \<Rightarrow> duration \<Rightarrow> queue_db
     \<Rightarrow> queue_db \<times> (queue_error + unit)" where
  "Heartbeat sha env ws i token d db =
     (if d < minLease \<or> maxLease < d then (db, Inl ErrInvalid)
      else if \<not> validateLeaseIdentity ws i token then (db, Inl ErrInvalid)
      else
        let h = hashLeaseToken sha token; now = db_now env;
            db1 = db\<lparr>jobs := sql_update (beatable now ws i h)
                       (\<lambda>r. r\<lparr>j_heartbeat_at := Some now, j_expires_at := Some (lease_end now d)\<rparr>) (jobs db)\<rparr>;
            db2 = update_current_attempt ws i h (\<lambda>a. a\<lparr>a_heartbeat_at := now\<rparr>) db1
        in
        stmt env QueueDB ''begin heartbeat'' [] db
        (stmt env QueueDB ''heartbeat job'' [ws, i] db
        (stmt env QueueDB ''read lease result'' [] db
          (if sql_count (beatable now ws i h) (jobs db) \<noteq> 1
           then (db, Inl (classifyLeaseMiss env ws i h db1))
           else
             stmt env QueueDB ''record heartbeat'' [] db
             (commit env QueueDB ''commit heartbeat'' [] db db2 ())))))"

section \<open>Completion\<close>

definition clear_lease :: "job_row \<Rightarrow> job_row" where
  "clear_lease r = r\<lparr>j_owner := None, j_token_hash := None, j_expires_at := None, j_heartbeat_at := None\<rparr>"

definition finishable :: "gotime \<Rightarrow> string \<Rightarrow> string \<Rightarrow> string \<Rightarrow> State \<Rightarrow> job_row \<Rightarrow> bool" where
  "finishable now ws i h s r \<longleftrightarrow>
     holds now ws i h r \<and>
     (j_state r = StateRunning \<or> (s = StateCancelled \<and> j_state r = StateLeased)) \<and>
     (s = StateCancelled \<or> j_cancel_at r = None)"

definition attempt_is :: "string \<Rightarrow> string \<Rightarrow> int \<Rightarrow> attempt_row \<Rightarrow> bool" where
  "attempt_is ws i n a \<longleftrightarrow> a_workspace a = ws \<and> a_job a = i \<and> a_number a = n"

definition state_text :: "State \<Rightarrow> string" where
  "state_text s =
     (case s of StateQueued \<Rightarrow> ''queued'' | StateLeased \<Rightarrow> ''leased'' | StateRunning \<Rightarrow> ''running''
      | StateRetryWait \<Rightarrow> ''retry_wait'' | StateSucceeded \<Rightarrow> ''succeeded''
      | StateDeadLetter \<Rightarrow> ''dead_letter'' | StateCancelled \<Rightarrow> ''cancelled'')"

definition finishTx ::
  "(string \<Rightarrow> string) \<Rightarrow> db_env \<Rightarrow> string \<Rightarrow> string \<Rightarrow> string \<Rightarrow> State \<Rightarrow> queue_db \<Rightarrow> queue_error + queue_db" where
  "finishTx sha env ws i token s db =
     (if s \<noteq> StateSucceeded \<and> s \<noteq> StateCancelled then Inl ErrInvalid
      else if \<not> validateLeaseIdentity ws i token then Inl ErrInvalid
      else
        let h = hashLeaseToken sha token; now = db_now env in
        (case stmt_fault env ''complete job'' [ws, i] of
           Some c \<Rightarrow> Inl (QueueDB ''complete job'' c)
         | None \<Rightarrow>
             (case sql_row (finishable now ws i h s) (jobs db) of
                None \<Rightarrow> Inl (if s = StateSucceeded then classifyLeaseMiss env ws i h db else ErrLeaseLost)
              | Some r \<Rightarrow>
                  (case db_fault env ''finish job attempt'' of
                     Some c \<Rightarrow> Inl (QueueDB ''finish job attempt'' c)
                   | None \<Rightarrow>
                       Inr (db\<lparr>jobs := sql_update (finishable now ws i h s)
                                   (\<lambda>x. clear_lease x\<lparr>j_state := s, j_completed_at := Some now\<rparr>) (jobs db),
                               job_attempts := sql_update (attempt_is ws i (j_attempts r))
                                   (\<lambda>a. a\<lparr>a_finished_at := Some now, a_outcome := Some (state_text s)\<rparr>)
                                   (job_attempts db)\<rparr>)))))"

definition finish ::
  "(string \<Rightarrow> string) \<Rightarrow> db_env \<Rightarrow> string \<Rightarrow> string \<Rightarrow> string \<Rightarrow> State \<Rightarrow> queue_db \<Rightarrow> queue_db \<times> (queue_error + unit)" where
  "finish sha env ws i token s db =
     stmt env QueueDB ''begin job completion'' [] db
       (case finishTx sha env ws i token s db of
          Inl e \<Rightarrow> (db, Inl e)
        | Inr db1 \<Rightarrow> commit env QueueDB ''commit job completion'' [] db db1 ())"

definition Succeed ::
  "(string \<Rightarrow> string) \<Rightarrow> db_env \<Rightarrow> string \<Rightarrow> string \<Rightarrow> string \<Rightarrow> queue_db \<Rightarrow> queue_db \<times> (queue_error + unit)" where
  "Succeed sha env ws i token db = finish sha env ws i token StateSucceeded db"

definition SucceedTx ::
  "(string \<Rightarrow> string) \<Rightarrow> db_env \<Rightarrow> string \<Rightarrow> string \<Rightarrow> string \<Rightarrow> queue_db \<Rightarrow> queue_error + queue_db" where
  "SucceedTx sha env ws i token db = finishTx sha env ws i token StateSucceeded db"

definition CancelActive ::
  "(string \<Rightarrow> string) \<Rightarrow> db_env \<Rightarrow> string \<Rightarrow> string \<Rightarrow> string \<Rightarrow> queue_db \<Rightarrow> queue_db \<times> (queue_error + unit)" where
  "CancelActive sha env ws i token db = finish sha env ws i token StateCancelled db"

definition class_text :: "ErrorClass \<Rightarrow> string" where
  "class_text c = (case c of ErrorRetryable \<Rightarrow> ''retryable'' | ErrorPermanent \<Rightarrow> ''permanent'' | OtherClass s \<Rightarrow> s)"

definition fail_state :: "Failure \<Rightarrow> job_row \<Rightarrow> State \<times> string" where
  "fail_state f r =
     (if j_cancel_at r \<noteq> None then (StateCancelled, ''cancelled'')
      else if failureClass f = ErrorRetryable \<and> j_attempts r < j_max_attempts r
      then (StateRetryWait, ''retry'')
      else (StateDeadLetter, ''dead_letter''))"

definition failed_row :: "gotime \<Rightarrow> State \<Rightarrow> Failure \<Rightarrow> gotime \<Rightarrow> job_row \<Rightarrow> job_row" where
  "failed_row now s f availableAt r =
     clear_lease r\<lparr>
       j_state := s,
       j_available_at := (if s = StateRetryWait then truncate_us availableAt else j_available_at r),
       j_error_class := (if s = StateCancelled then j_error_class r else Some (class_text (failureClass f))),
       j_error_code := (if s = StateCancelled then j_error_code r else Some (failureCode f)),
       j_completed_at := (if s = StateDeadLetter \<or> s = StateCancelled then Some now else None)\<rparr>"

definition failed_attempt :: "gotime \<Rightarrow> string \<Rightarrow> string \<Rightarrow> attempt_row \<Rightarrow> attempt_row" where
  "failed_attempt now outcome code a =
     a\<lparr>a_finished_at := Some now, a_outcome := Some outcome,
       a_error_code := (if outcome = ''cancelled'' then None else Some code)\<rparr>"

definition Fail ::
  "(string \<Rightarrow> string) \<Rightarrow> db_env \<Rightarrow> string \<Rightarrow> string \<Rightarrow> string \<Rightarrow> Failure \<Rightarrow> gotime \<Rightarrow> queue_db
     \<Rightarrow> queue_db \<times> (queue_error + State)" where
  "Fail sha env ws i token f availableAt db =
     (if (failureClass f \<noteq> ErrorRetryable \<and> failureClass f \<noteq> ErrorPermanent) \<or> \<not> validCode (failureCode f)
      then (db, Inl ErrInvalid)
      else if \<not> validateLeaseIdentity ws i token then (db, Inl ErrInvalid)
      else
        let h = hashLeaseToken sha token; now = db_now env in
        stmt env QueueDB ''begin job failure'' [] db
        (stmt env QueueDB ''lock failed job'' [ws, i] db
          (case sql_row (\<lambda>r. holds now ws i h r \<and> j_state r = StateRunning) (jobs db) of
             None \<Rightarrow> (db, Inl ErrLeaseLost)
           | Some r \<Rightarrow>
               (case fail_state f r of (s, outcome) \<Rightarrow>
                  if s = StateRetryWait \<and> is_zero availableAt then (db, Inl ErrInvalid)
                  else
                    stmt env QueueDB ''fail job'' [] db
                    (stmt env QueueDB ''finish failed attempt'' [] db
                      (commit env QueueDB ''commit job failure'' [] db
                        (db\<lparr>jobs := sql_update
                                    (\<lambda>x. j_workspace x = ws \<and> j_id x = i \<and> j_token_hash x = Some h)
                                    (failed_row now s f availableAt) (jobs db),
                            job_attempts := sql_update (attempt_is ws i (j_attempts r))
                                    (failed_attempt now outcome (failureCode f)) (job_attempts db)\<rparr>)
                        s))))))"

section \<open>Cancellation\<close>

definition cancel_row :: "gotime \<Rightarrow> job_row \<Rightarrow> job_row" where
  "cancel_row now r =
     r\<lparr>j_cancel_at := coalesce (j_cancel_at r) now,
       j_state := (if waiting (j_state r) then StateCancelled else j_state r),
       j_completed_at := (if waiting (j_state r) then Some now else j_completed_at r)\<rparr>"

definition cancellable :: "string \<Rightarrow> string \<Rightarrow> job_row \<Rightarrow> bool" where
  "cancellable ws i r \<longleftrightarrow> j_workspace r = ws \<and> j_id r = i \<and> \<not> terminal (j_state r)"

definition RequestCancellation ::
  "db_env \<Rightarrow> string \<Rightarrow> string \<Rightarrow> queue_db \<Rightarrow> queue_db \<times> (queue_error + State)" where
  "RequestCancellation env ws i db =
     (if \<not> validateResourceIdentity ws i then (db, Inl ErrInvalid)
      else
        case sql_row (cancellable ws i) (jobs db) of
          Some r \<Rightarrow>
            commit env QueueDB ''request job cancellation'' [ws, i] db
              (db\<lparr>jobs := sql_update (cancellable ws i) (cancel_row (db_now env)) (jobs db)\<rparr>)
              (j_state (cancel_row (db_now env) r))
        | None \<Rightarrow>
            stmt env QueueDB ''request job cancellation'' [ws, i] db
            (stmt env QueueDB ''check cancellation target'' [ws, i] db
              (db, Inl (if list_ex (\<lambda>r. j_workspace r = ws \<and> j_id r = i) (jobs db)
                        then ErrNotCancellable else ErrNotFound))))"

section \<open>Recovery\<close>

definition expired :: "gotime \<Rightarrow> string \<Rightarrow> job_row \<Rightarrow> bool" where
  "expired now q r \<longleftrightarrow>
     j_queue r = q \<and> active (j_state r) \<and> (case j_expires_at r of None \<Rightarrow> False | Some e \<Rightarrow> e \<le> now)"

definition expiry :: "job_row \<Rightarrow> gotime" where
  "expiry r = (case j_expires_at r of None \<Rightarrow> 0 | Some e \<Rightarrow> e)"

text \<open>Text columns order by the collation's sort key, then by bytes.\<close>

definition text_key :: "db_env \<Rightarrow> string \<Rightarrow> string \<times> string" where
  "text_key env s = (db_collate env s, s)"

definition workspace_rank :: "db_env \<Rightarrow> string \<Rightarrow> queue_db \<Rightarrow> job_row \<Rightarrow> nat" where
  "workspace_rank env q db r =
     Suc (sql_count (\<lambda>x. expired (db_now env) q x \<and> j_workspace x = j_workspace r \<and>
                         (expiry x, text_key env (j_id x)) < (expiry r, text_key env (j_id r)))
           (jobs db))"

definition recovery_key ::
  "db_env \<Rightarrow> string \<Rightarrow> queue_db \<Rightarrow> job_row \<Rightarrow> nat \<times> int \<times> (string \<times> string) \<times> (string \<times> string)" where
  "recovery_key env q db r =
     (workspace_rank env q db r, expiry r, text_key env (j_workspace r), text_key env (j_id r))"

definition expired_batch :: "db_env \<Rightarrow> string \<Rightarrow> nat \<Rightarrow> queue_db \<Rightarrow> job_row list" where
  "expired_batch env q limit db =
     take limit (sort_key (recovery_key env q db)
       (filter (\<lambda>r. expired (db_now env) q r \<and> \<not> db_locked env (j_id r)) (jobs db)))"

definition recover_state :: "job_row \<Rightarrow> State \<times> string" where
  "recover_state r =
     (if j_cancel_at r \<noteq> None then (StateCancelled, ''cancelled'')
      else if j_max_attempts r \<le> j_attempts r then (StateDeadLetter, ''dead_letter'')
      else if j_state r = StateRunning then (StateRetryWait, ''lease_expired'')
      else (StateQueued, ''lease_expired''))"

definition recovered_row :: "gotime \<Rightarrow> State \<Rightarrow> gotime \<Rightarrow> job_row \<Rightarrow> job_row" where
  "recovered_row now s availableAt r =
     clear_lease r\<lparr>
       j_state := s,
       j_available_at := truncate_us availableAt,
       j_error_class := (if s = StateCancelled then j_error_class r
                         else if s = StateDeadLetter then Some ''worker'' else Some ''retryable''),
       j_error_code := (if s = StateCancelled then j_error_code r else Some ''lease_expired''),
       j_completed_at := (if s = StateCancelled \<or> s = StateDeadLetter then Some now else None)\<rparr>"

definition recover_one :: "gotime \<Rightarrow> gotime \<Rightarrow> duration \<Rightarrow> job_row \<Rightarrow> queue_db \<Rightarrow> queue_db" where
  "recover_one now clock delay r db =
     (case recover_state r of (s, outcome) \<Rightarrow>
        let availableAt = (if s = StateRetryWait then clock + delay else clock) in
        db\<lparr>jobs := sql_update (\<lambda>x. j_workspace x = j_workspace r \<and> j_id x = j_id r)
                    (recovered_row now s availableAt) (jobs db),
           job_attempts := sql_update (attempt_is (j_workspace r) (j_id r) (j_attempts r))
                    (failed_attempt now outcome ''lease_expired'') (job_attempts db)\<rparr>)"

fun recover_loop :: "db_env \<Rightarrow> duration \<Rightarrow> nat \<Rightarrow> job_row list \<Rightarrow> queue_db \<Rightarrow> queue_error + queue_db" where
  "recover_loop env delay k [] db = Inr db"
| "recover_loop env delay k (r # rs) db =
     (case db_fault env ''read database time for lease recovery'' of
        Some c \<Rightarrow> Inl (QueueDB ''read database time for lease recovery'' c)
      | None \<Rightarrow>
     (case db_fault env ''recover expired lease'' of
        Some c \<Rightarrow> Inl (QueueDB ''recover expired lease'' c)
      | None \<Rightarrow>
     (case db_fault env ''finish expired attempt'' of
        Some c \<Rightarrow> Inl (QueueDB ''finish expired attempt'' c)
      | None \<Rightarrow>
          recover_loop env delay (Suc k) rs (recover_one (db_now env) (db_clock env k) delay r db))))"

definition RecoverExpired ::
  "db_env \<Rightarrow> string \<Rightarrow> int \<Rightarrow> duration \<Rightarrow> queue_db \<Rightarrow> queue_db \<times> (queue_error + nat)" where
  "RecoverExpired env q limit delay db =
     (if \<not> validName q \<or> limit \<le> 0 \<or> 1000 < limit \<or> delay < 0 then (db, Inl ErrInvalid)
      else
        stmt env QueueDB ''begin lease recovery'' [] db
        (stmt env QueueDB ''select expired leases'' [] db
        (stmt env QueueDB ''scan expired lease'' [] db
        (stmt env QueueDB ''iterate expired leases'' [] db
        (stmt env QueueDB ''close expired leases'' [] db
          (let batch = expired_batch env q (nat limit) db in
           case recover_loop env delay 0 batch db of
             Inl e \<Rightarrow> (db, Inl e)
           | Inr db1 \<Rightarrow> commit env QueueDB ''commit lease recovery'' [] db db1 (length batch)))))))"

section \<open>Metrics\<close>

definition metrics :: "db_env \<Rightarrow> string \<Rightarrow> int \<Rightarrow> queue_db \<Rightarrow> queue_error + Metrics" where
  "metrics env q cap db =
     (if \<not> validName q \<or> cap < 1 \<or> 100 < cap then Inl ErrInvalid
      else case db_fault env ''read queue metrics'' of
        Some c \<Rightarrow> Inl (QueueDB ''read queue metrics'' c)
      | None \<Rightarrow>
          (let n = (\<lambda>P. sql_count (\<lambda>r. j_queue r = q \<and> P r) (jobs db)) in
           Inr \<lparr>mQueued = n (\<lambda>r. j_state r = StateQueued),
                mRunning = n (\<lambda>r. active (j_state r)),
                mRetryWait = n (\<lambda>r. j_state r = StateRetryWait),
                mDeadLetter = n (\<lambda>r. j_state r = StateDeadLetter),
                mSucceeded = n (\<lambda>r. j_state r = StateSucceeded),
                mCancelled = n (\<lambda>r. j_state r = StateCancelled),
                mExpiredLeases = n (expired (db_now env) q),
                mSaturatedWorkspaces =
                  length (filter (\<lambda>ws. cap \<le> int (active_count ws q db))
                    (remdups (map j_workspace (filter (\<lambda>r. j_queue r = q \<and> active (j_state r)) (jobs db))))),
                mRetries = sql_count (\<lambda>a. 1 < a_number a \<and>
                    list_ex (\<lambda>r. j_queue r = q \<and> j_workspace r = a_workspace a \<and> j_id r = a_job a) (jobs db))
                    (job_attempts db)\<rparr>))"

end
