(* ===== verification/Job_Lifecycle.thy ===== *)
theory Job_Lifecycle
  imports Job_Queue
begin

text \<open>
  The abstract lease machine the queue implements.  An \<open>effect\<close> changes one job and the attempt it
  is in; \<open>enabled\<close> is the effect's guard on the row, \<open>apply_effect\<close> its action on the two
  tables.  \<open>queue_inv\<close> is the queue's well-formedness: every \<open>CHECK\<close>, key and reference
  constraint of the schema, and that a job's attempts are numbered 1, 2, ... without gaps with
  exactly the last one open while the job is leased or running.  The theory shows that every
  enabled effect keeps it; \<open>Job_Queue_Refine\<close> shows that the queue's methods do nothing else.
\<close>

datatype effect =
    Leasing gotime string string duration
  | Starting gotime
  | Beating gotime duration
  | Finishing gotime State
  | Failing gotime Failure gotime
  | Cancelling gotime
  | Recovering gotime gotime

fun enabled :: "effect \<Rightarrow> job_row \<Rightarrow> bool" where
  "enabled (Leasing now owner h d) r \<longleftrightarrow>
     waiting (j_state r) \<and> j_cancel_at r = None \<and> j_available_at r \<le> now \<and>
     in_length 1 128 owner \<and> length h = 32 \<and> minLease \<le> d \<and> d \<le> maxLease"
| "enabled (Starting now) r \<longleftrightarrow> j_state r = StateLeased \<and> j_cancel_at r = None"
| "enabled (Beating now d) r \<longleftrightarrow>
     active (j_state r) \<and> j_cancel_at r = None \<and> minLease \<le> d \<and> d \<le> maxLease"
| "enabled (Finishing now s) r \<longleftrightarrow>
     (s = StateSucceeded \<and> j_state r = StateRunning \<and> j_cancel_at r = None) \<or>
     (s = StateCancelled \<and> active (j_state r))"
| "enabled (Failing now f t) r \<longleftrightarrow>
     j_state r = StateRunning \<and> validCode (failureCode f) \<and>
     (failureClass f = ErrorRetryable \<or> failureClass f = ErrorPermanent)"
| "enabled (Cancelling now) r \<longleftrightarrow> \<not> terminal (j_state r)"
| "enabled (Recovering now t) r \<longleftrightarrow>
     active (j_state r) \<and> (case j_expires_at r of None \<Rightarrow> False | Some e \<Rightarrow> e \<le> now)"

fun effect_row :: "effect \<Rightarrow> job_row \<Rightarrow> job_row" where
  "effect_row (Leasing now owner h d) r = leased_row now owner h d r"
| "effect_row (Starting now) r =
     r\<lparr>j_state := StateRunning, j_started_at := coalesce (j_started_at r) now\<rparr>"
| "effect_row (Beating now d) r =
     r\<lparr>j_heartbeat_at := Some now, j_expires_at := Some (lease_end now d)\<rparr>"
| "effect_row (Finishing now s) r = clear_lease r\<lparr>j_state := s, j_completed_at := Some now\<rparr>"
| "effect_row (Failing now f t) r = failed_row now (fst (fail_state f r)) f t r"
| "effect_row (Cancelling now) r = cancel_row now r"
| "effect_row (Recovering now t) r = recovered_row now (fst (recover_state r)) t r"

text \<open>What the effect does to the attempt the job is in.\<close>

fun effect_attempt :: "effect \<Rightarrow> job_row \<Rightarrow> attempt_row \<Rightarrow> attempt_row" where
  "effect_attempt (Leasing now owner h d) r a = a"
| "effect_attempt (Starting now) r a = a\<lparr>a_started_at := coalesce (a_started_at a) now\<rparr>"
| "effect_attempt (Beating now d) r a = a\<lparr>a_heartbeat_at := now\<rparr>"
| "effect_attempt (Finishing now s) r a =
     a\<lparr>a_finished_at := Some now, a_outcome := Some (state_text s)\<rparr>"
| "effect_attempt (Failing now f t) r a =
     failed_attempt now (snd (fail_state f r)) (failureCode f) a"
| "effect_attempt (Cancelling now) r a = a"
| "effect_attempt (Recovering now t) r a =
     failed_attempt now (snd (recover_state r)) ''lease_expired'' a"

fun opened_attempts :: "effect \<Rightarrow> job_row \<Rightarrow> attempt_row list" where
  "opened_attempts (Leasing now owner h d) r = [new_attempt now owner (leased_row now owner h d r)]"
| "opened_attempts _ r = []"

definition apply_effect :: "effect \<Rightarrow> job_row \<Rightarrow> queue_db \<Rightarrow> queue_db" where
  "apply_effect e r db =
     db\<lparr>jobs := sql_update (\<lambda>x. j_id x = j_id r) (effect_row e) (jobs db),
        job_attempts :=
          sql_update (attempt_is (j_workspace r) (j_id r) (j_attempts r)) (effect_attempt e r) (job_attempts db)
          @ opened_attempts e r\<rparr>"

section \<open>The invariant\<close>

definition attempts_of :: "string \<Rightarrow> queue_db \<Rightarrow> attempt_row list" where
  "attempts_of i db = filter (\<lambda>a. a_job a = i) (job_attempts db)"

definition attempts_ok :: "job_row \<Rightarrow> attempt_row list \<Rightarrow> bool" where
  "attempts_ok r as \<longleftrightarrow>
     map a_number as = map int [1..<Suc (nat (j_attempts r))] \<and>
     list_all (\<lambda>a. attempt_row_ok a \<and> a_workspace a = j_workspace r \<and>
       (a_finished_at a = None \<longleftrightarrow> active (j_state r) \<and> a_number a = j_attempts r)) as"

definition queue_inv :: "queue_db \<Rightarrow> bool" where
  "queue_inv db \<longleftrightarrow>
     list_all job_row_ok (jobs db) \<and> distinct (map j_id (jobs db)) \<and>
     distinct (map idempotency_key (jobs db)) \<and>
     list_all (\<lambda>r. j_workspace r \<in> set (workspaces db)) (jobs db) \<and>
     list_all (\<lambda>r. attempts_ok r (attempts_of (j_id r) db)) (jobs db) \<and>
     list_all (\<lambda>a. a_job a \<in> set (map j_id (jobs db))) (job_attempts db)"

definition empty_queue :: "string list \<Rightarrow> queue_db" where
  "empty_queue ws = \<lparr>workspaces = ws, jobs = [], job_attempts = []\<rparr>"

lemma queue_inv_empty: "queue_inv (empty_queue ws)"
  by (simp add: queue_inv_def empty_queue_def)

lemmas state_defs = active_def waiting_def terminal_def

lemma queue_invD:
  assumes "queue_inv db" "r \<in> set (jobs db)"
  shows "job_row_ok r" "attempts_ok r (attempts_of (j_id r) db)" "j_workspace r \<in> set (workspaces db)"
  using assms by (auto simp: queue_inv_def list_all_iff)

lemma queue_inv_unique:
  assumes "queue_inv db" "r \<in> set (jobs db)" "s \<in> set (jobs db)" "j_id r = j_id s"
  shows "r = s"
  using assms distinct_key_unique [of j_id "jobs db"] by (auto simp: queue_inv_def)

section \<open>Effects keep the request part of a row\<close>

lemma effect_row_frame [simp]:
  "j_id (effect_row e r) = j_id r" "j_workspace (effect_row e r) = j_workspace r"
  "j_queue (effect_row e r) = j_queue r" "j_kind (effect_row e r) = j_kind r"
  "j_key (effect_row e r) = j_key r" "j_fingerprint (effect_row e r) = j_fingerprint r"
  "j_payload (effect_row e r) = j_payload r" "j_created_at (effect_row e r) = j_created_at r"
  "j_max_attempts (effect_row e r) = j_max_attempts r" "j_priority (effect_row e r) = j_priority r"
  "j_operation (effect_row e r) = j_operation r" "j_principal (effect_row e r) = j_principal r"
  "j_capability (effect_row e r) = j_capability r" "j_schema_version (effect_row e r) = j_schema_version r"
  by (cases e; simp add: leased_row_def clear_lease_def failed_row_def cancel_row_def recovered_row_def)+

lemma effect_row_key [simp]: "idempotency_key (effect_row e r) = idempotency_key r"
  by (simp add: idempotency_key_def)

lemma effect_row_request: "jobs_request_valid (effect_row e r) = jobs_request_valid r"
  by (simp add: jobs_request_valid_def)

lemma effect_attempt_frame [simp]:
  "a_job (effect_attempt e r a) = a_job a" "a_number (effect_attempt e r a) = a_number a"
  "a_workspace (effect_attempt e r a) = a_workspace a" "a_owner (effect_attempt e r a) = a_owner a"
  by (cases e; simp add: failed_attempt_def)+

lemma fail_state_cases:
  "fail_state f r = (StateCancelled, ''cancelled'') \<and> j_cancel_at r \<noteq> None \<or>
   fail_state f r = (StateRetryWait, ''retry'') \<and> j_attempts r < j_max_attempts r \<or>
   fail_state f r = (StateDeadLetter, ''dead_letter'')"
  by (auto simp: fail_state_def)

lemma recover_state_cases:
  "recover_state r = (StateCancelled, ''cancelled'') \<or>
   recover_state r = (StateDeadLetter, ''dead_letter'') \<or>
   recover_state r = (StateRetryWait, ''lease_expired'') \<and> j_attempts r < j_max_attempts r \<or>
   recover_state r = (StateQueued, ''lease_expired'') \<and> j_attempts r < j_max_attempts r"
  by (auto simp: recover_state_def)

lemma validCode_db: "validCode c \<Longrightarrow> pat_ident name_char 127 c"
  by (auto simp: validCode_def pat_ident_def split: list.splits)

lemma lease_expired_code: "pat_ident name_char 127 ''lease_expired''"
  by (simp add: pat_ident_def class_defs byte_def)

lemma class_text_known:
  "c = ErrorRetryable \<or> c = ErrorPermanent \<Longrightarrow> class_text c \<in> {''retryable'', ''permanent'', ''worker''}"
  by (auto simp: class_text_def)

lemmas row_effects = leased_row_def clear_lease_def failed_row_def cancel_row_def recovered_row_def

lemma effect_attempts_valid:
  assumes "jobs_attempts_valid r" "enabled e r"
  shows "jobs_attempts_valid (effect_row e r)"
  using assms fail_state_cases [of "case e of Failing _ f _ \<Rightarrow> f" r] recover_state_cases [of r]
  by (cases e) (auto simp: jobs_attempts_valid_def row_effects state_defs)

lemma effect_lease_fields:
  assumes "jobs_lease_fields_consistent r" "enabled e r"
  shows "jobs_lease_fields_consistent (effect_row e r)"
  using assms fail_state_cases [of "case e of Failing _ f _ \<Rightarrow> f" r] recover_state_cases [of r]
  by (cases e) (auto simp: jobs_lease_fields_consistent_def row_effects state_defs)

lemma effect_error_fields:
  assumes "jobs_error_fields_known r" "enabled e r"
  shows "jobs_error_fields_known (effect_row e r)"
  using assms class_text_known [of "failureClass (case e of Failing _ f _ \<Rightarrow> f)"]
  by (cases e) (auto simp: jobs_error_fields_known_def row_effects validCode_db lease_expired_code)

lemma effect_owner:
  assumes "case j_owner r of None \<Rightarrow> True | Some o' \<Rightarrow> in_length 1 128 o'" "enabled e r"
  shows "case j_owner (effect_row e r) of None \<Rightarrow> True | Some o' \<Rightarrow> in_length 1 128 o'"
  using assms by (cases e) (auto simp: row_effects)

lemma effect_token:
  assumes "case j_token_hash r of None \<Rightarrow> True | Some h \<Rightarrow> length h = 32" "enabled e r"
  shows "case j_token_hash (effect_row e r) of None \<Rightarrow> True | Some h \<Rightarrow> length h = 32"
  using assms by (cases e) (auto simp: row_effects)

lemma effect_started:
  assumes "j_state r = StateRunning \<longrightarrow> j_started_at r \<noteq> None" "enabled e r"
  shows "j_state (effect_row e r) = StateRunning \<longrightarrow> j_started_at (effect_row e r) \<noteq> None"
  using assms fail_state_cases [of "case e of Failing _ f _ \<Rightarrow> f" r] recover_state_cases [of r]
  by (cases e) (auto simp: row_effects coalesce_def split: option.splits)

lemma effect_completed:
  assumes "terminal (j_state r) \<longleftrightarrow> j_completed_at r \<noteq> None" "enabled e r"
  shows "terminal (j_state (effect_row e r)) \<longleftrightarrow> j_completed_at (effect_row e r) \<noteq> None"
  using assms fail_state_cases [of "case e of Failing _ f _ \<Rightarrow> f" r] recover_state_cases [of r]
  by (cases e) (auto simp: row_effects state_defs)

text \<open>Every enabled effect leads to a row the schema accepts, so its constraints never fire.\<close>

lemma effect_row_ok: "job_row_ok r \<Longrightarrow> enabled e r \<Longrightarrow> job_row_ok (effect_row e r)"
  unfolding job_row_ok_def effect_row_request
  by (elim conjE) (intro conjI; (assumption | rule effect_attempts_valid effect_lease_fields
      effect_error_fields effect_owner effect_token effect_started effect_completed; assumption))

section \<open>Effects keep the invariant\<close>

lemma attempts_ok_number:
  assumes "attempts_ok r as" "a \<in> set as"
  shows "1 \<le> a_number a \<and> a_number a \<le> j_attempts r"
proof -
  have "a_number a \<in> set (map int [1..<Suc (nat (j_attempts r))])"
    using assms by (metis attempts_ok_def image_eqI image_set)
  then show ?thesis by auto
qed

lemma attempts_number_update:
  "map a_number (sql_update P (effect_attempt e r) as) = map a_number as"
  by (rule map_sql_update) simp

lemma effect_attempts_count:
  "(\<And>now ow h d. e \<noteq> Leasing now ow h d) \<Longrightarrow> j_attempts (effect_row e r) = j_attempts r"
  by (cases e) (auto simp: row_effects)

text \<open>The attempt an effect rewrites stays a legal attempt row, and is closed exactly when the job
  leaves the leased and running states.\<close>

lemma effect_attempt_ok:
  assumes "attempt_row_ok a" "enabled e r"
  shows "attempt_row_ok (effect_attempt e r a)"
  using assms fail_state_cases [of "case e of Failing _ f _ \<Rightarrow> f" r] recover_state_cases [of r]
  by (cases e) (auto simp: attempt_row_ok_def failed_attempt_def state_text_def validCode_db lease_expired_code)

lemma effect_attempt_open:
  assumes "enabled e r" "a_finished_at a = None" "active (j_state r)"
  shows "a_finished_at (effect_attempt e r a) = None \<longleftrightarrow> active (j_state (effect_row e r))"
  using assms fail_state_cases [of "case e of Failing _ f _ \<Rightarrow> f" r] recover_state_cases [of r]
  by (cases e) (auto simp: failed_attempt_def row_effects state_defs)

lemma effect_attempt_closed:
  assumes "enabled e r" "\<not> active (j_state r)" "\<And>now ow h d. e \<noteq> Leasing now ow h d"
  shows "\<not> active (j_state (effect_row e r)) \<and> effect_attempt e r a = a"
  using assms by (cases e) (auto simp: row_effects state_defs)

lemma attempts_ok_effect:
  assumes ok: "attempts_ok r as" and row: "job_row_ok r" and en: "enabled e r"
    and as: "\<forall>a\<in>set as. a_job a = j_id r"
  shows "attempts_ok (effect_row e r)
    (sql_update (attempt_is (j_workspace r) (j_id r) (j_attempts r)) (effect_attempt e r) as
     @ opened_attempts e r)"
proof (cases "\<exists>now ow h d. e = Leasing now ow h d")
  case True
  then obtain now ow h d where e: "e = Leasing now ow h d" by blast
  have w: "\<not> active (j_state r)" using en e by (auto simp: state_defs)
  have n: "0 \<le> j_attempts r" using row by (simp add: job_row_ok_def jobs_attempts_valid_def)
  have same: "sql_update (attempt_is (j_workspace r) (j_id r) (j_attempts r)) (effect_attempt e r) as = as"
    by (rule sql_update_id) (simp add: e)
  have "a_number a \<noteq> j_attempts r + 1" if "a \<in> set as" for a
    using attempts_ok_number [OF ok that] by simp
  moreover have "in_length 1 128 ow" using en e by simp
  ultimately show ?thesis
    using ok w n unfolding same
    by (auto simp: e attempts_ok_def leased_row_def new_attempt_def state_defs list_all_iff
        attempt_row_ok_def nat_add_distrib)
next
  case False
  then have nl: "\<And>now ow h d. e \<noteq> Leasing now ow h d" by blast
  then have op: "opened_attempts e r = []" by (cases e) auto
  have cnt: "j_attempts (effect_row e r) = j_attempts r" by (rule effect_attempts_count [OF nl])
  let ?P = "attempt_is (j_workspace r) (j_id r) (j_attempts r)"
  have "attempt_row_ok b \<and> a_workspace b = j_workspace r \<and>
      (a_finished_at b = None \<longleftrightarrow> active (j_state (effect_row e r)) \<and> a_number b = j_attempts r)"
    if b: "b \<in> set (sql_update ?P (effect_attempt e r) as)" for b
  proof -
    obtain a where a: "a \<in> set as" "b = (if ?P a then effect_attempt e r a else a)"
      using b by (auto simp: in_sql_update)
    have aok: "attempt_row_ok a" "a_workspace a = j_workspace r"
      "a_finished_at a = None \<longleftrightarrow> active (j_state r) \<and> a_number a = j_attempts r"
      using ok a(1) by (auto simp: attempts_ok_def list_all_iff)
    show ?thesis
    proof (cases "a_number a = j_attempts r")
      case True
      then have "b = effect_attempt e r a" using a as aok by (simp add: attempt_is_def)
      with aok True en nl show ?thesis
        by (cases "active (j_state r)")
          (auto simp: effect_attempt_ok effect_attempt_open effect_attempt_closed)
    next
      case False
      then have "b = a" using a by (simp add: attempt_is_def)
      with aok False show ?thesis by simp
    qed
  qed
  with ok cnt op attempts_number_update [of ?P e r as] show ?thesis
    by (simp add: attempts_ok_def list_all_iff)
qed

lemma attempts_of_effect:
  "attempts_of i (apply_effect e r db) =
     (if i = j_id r
      then sql_update (attempt_is (j_workspace r) (j_id r) (j_attempts r)) (effect_attempt e r) (attempts_of i db)
           @ opened_attempts e r
      else attempts_of i db)"
proof -
  have f: "filter (\<lambda>a. a_job a = i) (sql_update P (effect_attempt e r) as) =
      sql_update P (effect_attempt e r) (filter (\<lambda>a. a_job a = i) as)" for P as
    by (rule filter_sql_update) simp
  have o: "filter (\<lambda>a. a_job a = i) (opened_attempts e r) = (if i = j_id r then opened_attempts e r else [])"
    by (cases e) (auto simp: new_attempt_def leased_row_def)
  have "sql_update (attempt_is (j_workspace r) (j_id r) (j_attempts r)) (effect_attempt e r) (attempts_of i db)
      = attempts_of i db" if "i \<noteq> j_id r"
    using that by (intro sql_update_none) (auto simp: attempts_of_def attempt_is_def)
  then show ?thesis by (auto simp: attempts_of_def apply_effect_def f o)
qed

lemma apply_effect_jobs:
  "jobs (apply_effect e r db) = sql_update (\<lambda>x. j_id x = j_id r) (effect_row e) (jobs db)"
  "workspaces (apply_effect e r db) = workspaces db"
  by (simp_all add: apply_effect_def)

lemma in_effect_jobs:
  assumes "queue_inv db" "r \<in> set (jobs db)"
  shows "x \<in> set (jobs (apply_effect e r db)) \<longleftrightarrow> x = effect_row e r \<or> x \<in> set (jobs db) \<and> x \<noteq> r"
proof -
  have key: "j_id y = j_id r \<longleftrightarrow> y = r" if "y \<in> set (jobs db)" for y
    using queue_inv_unique [OF assms(1) that assms(2)] by blast
  have "x \<in> set (jobs (apply_effect e r db)) \<longleftrightarrow>
      (\<exists>y\<in>set (jobs db). x = (if y = r then effect_row e y else y))"
    unfolding apply_effect_jobs in_sql_update using key by (metis (full_types))
  with assms(2) show ?thesis by (metis (full_types))
qed

theorem apply_effect_inv:
  assumes inv: "queue_inv db" and r: "r \<in> set (jobs db)" and en: "enabled e r"
  shows "queue_inv (apply_effect e r db)"
proof -
  note ok = queue_invD [OF inv r]
  have ids: "map j_id (jobs (apply_effect e r db)) = map j_id (jobs db)"
    "map idempotency_key (jobs (apply_effect e r db)) = map idempotency_key (jobs db)"
    unfolding apply_effect_jobs by (rule map_sql_update, simp)+
  have rows: "job_row_ok x \<and> j_workspace x \<in> set (workspaces db) \<and>
      attempts_ok x (attempts_of (j_id x) (apply_effect e r db))"
    if x: "x \<in> set (jobs (apply_effect e r db))" for x
  proof (cases "x = effect_row e r")
    case True
    have "\<forall>a\<in>set (attempts_of (j_id r) db). a_job a = j_id r" by (simp add: attempts_of_def)
    with True ok en show ?thesis
      by (simp add: effect_row_ok attempts_of_effect attempts_ok_effect)
  next
    case False
    with x have x': "x \<in> set (jobs db)" "x \<noteq> r" by (auto simp: in_effect_jobs [OF inv r])
    with queue_inv_unique [OF inv _ r] have "j_id x \<noteq> j_id r" by blast
    with queue_invD [OF inv x'(1)] show ?thesis by (simp add: attempts_of_effect)
  qed
  have atts: "a_job a \<in> set (map j_id (jobs db))" if "a \<in> set (job_attempts (apply_effect e r db))" for a
    using that inv r by (cases e)
      (auto simp: apply_effect_def in_sql_update queue_inv_def list_all_iff new_attempt_def leased_row_def
        failed_attempt_def split: if_splits)
  show ?thesis
    using rows atts inv ids unfolding queue_inv_def list_all_iff apply_effect_jobs(2) by simp
qed

end
