(* ===== verification/Job_Queue_Refine.thy ===== *)
theory Job_Queue_Refine
  imports Job_Lifecycle
begin

text \<open>
  The queue's methods refine the lease machine of \<open>Job_Lifecycle\<close>: on a well-formed database each
  method of \<open>queue.go\<close> leaves the tables alone, adds one queued job (\<open>enqueue\<close>), or performs enabled
  effects; the lease mutations perform theirs only on the row whose unexpired lease carries the
  digest of the caller's token.  \<open>queue_step\<close> is the transition relation of the whole queue under
  any interleaving of calls, \<open>queue_reach\<close> its closure, and the invariant, the absorbing terminal
  states, the permanence of a lost lease and the in-flight cap are proved of it.
\<close>

section \<open>Effects of the methods\<close>

definition digest32 :: "(string \<Rightarrow> string) \<Rightarrow> bool" where
  "digest32 sha \<longleftrightarrow> (\<forall>x. length (sha x) = 32)"

definition performs :: "queue_db \<Rightarrow> effect \<Rightarrow> job_row \<Rightarrow> queue_db \<Rightarrow> bool" where
  "performs db e r db' \<longleftrightarrow> r \<in> set (jobs db) \<and> enabled e r \<and> db' = apply_effect e r db"

lemma effect_eqI:
  assumes "r \<in> set (jobs db)"
    and "\<And>x. x \<in> set (jobs db) \<Longrightarrow> P x \<longleftrightarrow> j_id x = j_id r"
    and "\<And>x. x \<in> set (jobs db) \<Longrightarrow> j_id x = j_id r \<Longrightarrow> f x = effect_row e x"
    and "\<And>a. a \<in> set (job_attempts db) \<Longrightarrow> Q a \<longleftrightarrow> attempt_is (j_workspace r) (j_id r) (j_attempts r) a"
    and "\<And>a. g a = effect_attempt e r a" and "opened_attempts e r = []"
  shows "db\<lparr>jobs := sql_update P f (jobs db), job_attempts := sql_update Q g (job_attempts db)\<rparr> = apply_effect e r db"
proof -
  have "sql_update P f (jobs db) = sql_update (\<lambda>x. j_id x = j_id r) (effect_row e) (jobs db)"
    using assms(2,3) by (intro sql_update_cong) auto
  moreover have "sql_update Q g (job_attempts db) =
      sql_update (attempt_is (j_workspace r) (j_id r) (j_attempts r)) (effect_attempt e r) (job_attempts db)"
    using assms(4,5) by (intro sql_update_cong) auto
  ultimately show ?thesis using assms(6) by (simp add: apply_effect_def)
qed

lemma sql_count_pos: "sql_count P rs = 1 \<Longrightarrow> \<exists>r\<in>set rs. P r"
  by (auto simp: sql_count_def length_Suc_conv filter_eq_Cons_iff)

lemma unique_row:
  assumes "queue_inv db" "r \<in> set (jobs db)" "x \<in> set (jobs db)"
  shows "j_id x = j_id r \<longleftrightarrow> x = r"
  using queue_inv_unique [OF assms(1,3,2)] by blast

text \<open>The attempt update of a leased job, after the job row has been rewritten by an effect that
  keeps the token and the attempt count.\<close>

lemma current_attempt_pred:
  assumes inv: "queue_inv db" and r: "r \<in> set (jobs db)"
    and row: "j_workspace r = ws" "j_id r = i" "j_token_hash r = Some h"
    and keep: "j_token_hash (effect_row e r) = j_token_hash r" "j_attempts (effect_row e r) = j_attempts r"
    and js: "js = sql_update (\<lambda>x. j_id x = j_id r) (effect_row e) (jobs db)"
  shows "list_ex (\<lambda>x. j_workspace x = ws \<and> j_id x = i \<and> j_token_hash x = Some h \<and>
       a_workspace a = j_workspace x \<and> a_job a = j_id x \<and> a_number a = j_attempts x) js
     \<longleftrightarrow> attempt_is (j_workspace r) (j_id r) (j_attempts r) a"
proof -
  have mem: "x \<in> set js \<longleftrightarrow> x = effect_row e r \<or> x \<in> set (jobs db) \<and> x \<noteq> r" for x
    using in_effect_jobs [OF inv r, of x e] by (simp add: js apply_effect_jobs)
  have other: "j_id x \<noteq> i" if "x \<in> set (jobs db)" "x \<noteq> r" for x
    using unique_row [OF inv r that(1)] that(2) row by simp
  show ?thesis
  proof
    assume "list_ex (\<lambda>x. j_workspace x = ws \<and> j_id x = i \<and> j_token_hash x = Some h \<and>
       a_workspace a = j_workspace x \<and> a_job a = j_id x \<and> a_number a = j_attempts x) js"
    then obtain x where x: "x \<in> set js" "j_id x = i" "a_workspace a = j_workspace x" "a_job a = j_id x"
        "a_number a = j_attempts x"
      by (auto simp: list_ex_iff)
    from x(1,2) mem [of x] other [of x] have "x = effect_row e r" by auto
    with x keep show "attempt_is (j_workspace r) (j_id r) (j_attempts r) a" by (simp add: attempt_is_def)
  next
    assume "attempt_is (j_workspace r) (j_id r) (j_attempts r) a"
    moreover have "effect_row e r \<in> set js" using mem [of "effect_row e r"] by simp
    ultimately show "list_ex (\<lambda>x. j_workspace x = ws \<and> j_id x = i \<and> j_token_hash x = Some h \<and>
       a_workspace a = j_workspace x \<and> a_job a = j_id x \<and> a_number a = j_attempts x) js"
      unfolding list_ex_iff using row keep
      by (intro bexI [of _ "effect_row e r"]) (simp_all add: attempt_is_def)
  qed
qed

lemma holdsD:
  assumes "holds now ws i h r"
  shows "j_workspace r = ws" "j_id r = i" "j_token_hash r = Some h"
  using assms by (auto simp: holds_def)

lemma leased_update_effect:
  assumes inv: "queue_inv db" and r: "r \<in> set (jobs db)" and h: "holds now ws i h r" and P: "P r"
    and imp: "\<And>x. P x \<Longrightarrow> holds now ws i h x"
    and f: "f = effect_row e" and g: "g = effect_attempt e r" and op: "opened_attempts e r = []"
    and keep: "j_token_hash (effect_row e r) = j_token_hash r" "j_attempts (effect_row e r) = j_attempts r"
  shows "update_current_attempt ws i h g (db\<lparr>jobs := sql_update P f (jobs db)\<rparr>) = apply_effect e r db"
proof -
  have sel: "P x \<longleftrightarrow> j_id x = j_id r" if "x \<in> set (jobs db)" for x
    using unique_row [OF inv r that] imp holdsD(2) [OF imp] holdsD(2) [OF h] P by metis
  have js: "sql_update P f (jobs db) = sql_update (\<lambda>x. j_id x = j_id r) (effect_row e) (jobs db)"
    by (intro sql_update_cong) (simp_all add: sel f)
  have "sql_update (\<lambda>a. list_ex (\<lambda>x. j_workspace x = ws \<and> j_id x = i \<and> j_token_hash x = Some h \<and>
       a_workspace a = j_workspace x \<and> a_job a = j_id x \<and> a_number a = j_attempts x)
         (sql_update P f (jobs db))) g (job_attempts db)
    = sql_update (attempt_is (j_workspace r) (j_id r) (j_attempts r)) (effect_attempt e r) (job_attempts db)"
    by (intro sql_update_cong current_attempt_pred [OF inv r holdsD [OF h] keep js]) (simp add: g)
  then show ?thesis by (simp add: update_current_attempt_def apply_effect_def js op)
qed

section \<open>Start and heartbeat\<close>

lemma Start_effect:
  assumes "Start sha env ws i token db = (db', res)" "queue_inv db"
  shows "db' = db \<and> (\<exists>e. res = Inl e) \<or>
    (\<exists>r. holds (db_now env) ws i (sha token) r \<and> performs db (Starting (db_now env)) r db')"
proof (cases "sql_count (startable (db_now env) ws i (sha token)) (jobs db) = 1")
  case False
  with assms(1) show ?thesis
    by (auto simp: Start_def Let_def hashLeaseToken_def stmt_def split: if_splits option.splits)
next
  case True
  then obtain r where r: "r \<in> set (jobs db)" "startable (db_now env) ws i (sha token) r"
    using sql_count_pos by blast
  then have h: "holds (db_now env) ws i (sha token) r" and en: "enabled (Starting (db_now env)) r"
    by (simp_all add: startable_def)
  have eq: "update_current_attempt ws i (sha token) (\<lambda>a. a\<lparr>a_started_at := coalesce (a_started_at a) (db_now env)\<rparr>)
      (db\<lparr>jobs := sql_update (startable (db_now env) ws i (sha token))
        (\<lambda>r. r\<lparr>j_state := StateRunning, j_started_at := coalesce (j_started_at r) (db_now env)\<rparr>) (jobs db)\<rparr>)
      = apply_effect (Starting (db_now env)) r db"
    by (rule leased_update_effect [where now = "db_now env", OF assms(2) r(1) h])
      (use r in \<open>auto simp: startable_def fun_eq_iff\<close>)
  from assms(1) True show ?thesis
    unfolding Start_def Let_def hashLeaseToken_def eq
    using h r(1) en by (auto simp: performs_def stmt_def commit_def split: if_splits option.splits)
qed

lemma Heartbeat_effect:
  assumes "Heartbeat sha env ws i token d db = (db', res)" "queue_inv db"
  shows "db' = db \<and> (\<exists>e. res = Inl e) \<or>
    (\<exists>r. holds (db_now env) ws i (sha token) r \<and> performs db (Beating (db_now env) d) r db')"
proof (cases "sql_count (beatable (db_now env) ws i (sha token)) (jobs db) = 1 \<and> minLease \<le> d \<and> d \<le> maxLease")
  case False
  with assms(1) show ?thesis
    by (auto simp: Heartbeat_def Let_def hashLeaseToken_def stmt_def split: if_splits option.splits)
next
  case True
  then obtain r where r: "r \<in> set (jobs db)" "beatable (db_now env) ws i (sha token) r"
    using sql_count_pos by blast
  then have h: "holds (db_now env) ws i (sha token) r" and en: "enabled (Beating (db_now env) d) r"
    using True by (simp_all add: beatable_def)
  have eq: "update_current_attempt ws i (sha token) (\<lambda>a. a\<lparr>a_heartbeat_at := db_now env\<rparr>)
      (db\<lparr>jobs := sql_update (beatable (db_now env) ws i (sha token))
        (\<lambda>r. r\<lparr>j_heartbeat_at := Some (db_now env), j_expires_at := Some (lease_end (db_now env) d)\<rparr>) (jobs db)\<rparr>)
      = apply_effect (Beating (db_now env) d) r db"
    by (rule leased_update_effect [where now = "db_now env", OF assms(2) r(1) h])
      (use r in \<open>auto simp: beatable_def fun_eq_iff\<close>)
  from assms(1) True show ?thesis
    unfolding Heartbeat_def Let_def hashLeaseToken_def eq
    using h r(1) en by (auto simp: performs_def stmt_def commit_def split: if_splits option.splits)
qed

section \<open>Completion, failure, cancellation\<close>

lemma id_update_effect:
  assumes inv: "queue_inv db" and r: "r \<in> set (jobs db)" and P: "P r"
    and imp: "\<And>x. P x \<Longrightarrow> j_id x = j_id r"
    and f: "f r = effect_row e r" and ws: "ws = j_workspace r" and i: "i = j_id r" and n: "n = j_attempts r"
    and g: "\<And>a. g a = effect_attempt e r a" and op: "opened_attempts e r = []"
  shows "db\<lparr>jobs := sql_update P f (jobs db), job_attempts := sql_update (attempt_is ws i n) g (job_attempts db)\<rparr>
    = apply_effect e r db"
proof (rule effect_eqI [OF r])
  fix x
  assume x: "x \<in> set (jobs db)"
  show "P x \<longleftrightarrow> j_id x = j_id r" using unique_row [OF inv r x] imp P by blast
  show "j_id x = j_id r \<Longrightarrow> f x = effect_row e x" using unique_row [OF inv r x] f by simp
qed (simp_all add: ws i n g op)

lemma finishTx_effect:
  assumes "finishTx sha env ws i token s db = Inr db'" "queue_inv db"
  shows "\<exists>r. holds (db_now env) ws i (sha token) r \<and> performs db (Finishing (db_now env) s) r db'"
proof -
  from assms(1) obtain r where row: "sql_row (finishable (db_now env) ws i (sha token) s) (jobs db) = Some r"
    and s: "s = StateSucceeded \<or> s = StateCancelled"
    and db': "db' = db\<lparr>jobs := sql_update (finishable (db_now env) ws i (sha token) s)
            (\<lambda>x. clear_lease x\<lparr>j_state := s, j_completed_at := Some (db_now env)\<rparr>) (jobs db),
          job_attempts := sql_update (attempt_is ws i (j_attempts r))
            (\<lambda>a. a\<lparr>a_finished_at := Some (db_now env), a_outcome := Some (state_text s)\<rparr>) (job_attempts db)\<rparr>"
    unfolding finishTx_def Let_def hashLeaseToken_def
    by (auto split: if_splits option.splits)
  from sql_row_Some [OF row] have r: "r \<in> set (jobs db)" "finishable (db_now env) ws i (sha token) s r" by auto
  then have h: "holds (db_now env) ws i (sha token) r" and en: "enabled (Finishing (db_now env) s) r"
    using s by (auto simp: finishable_def active_def)
  have "db' = apply_effect (Finishing (db_now env) s) r db"
    unfolding db'
    by (rule id_update_effect [OF assms(2) r(1)])
      (use r holdsD [OF h] in \<open>auto simp: finishable_def holds_def\<close>)
  with h en r show ?thesis by (auto simp: performs_def)
qed

lemma finish_effect:
  assumes "finish sha env ws i token s db = (db', res)" "queue_inv db"
  shows "db' = db \<and> (\<exists>e. res = Inl e) \<or>
    (\<exists>r. holds (db_now env) ws i (sha token) r \<and> performs db (Finishing (db_now env) s) r db')"
proof (cases "finishTx sha env ws i token s db")
  case (Inl e)
  with assms(1) show ?thesis by (auto simp: finish_def stmt_def split: option.splits)
next
  case (Inr db1)
  from finishTx_effect [OF this assms(2)] assms(1) Inr show ?thesis
    by (auto simp: finish_def stmt_def commit_def split: option.splits if_splits)
qed

lemma Fail_effect:
  assumes "Fail sha env ws i token f t db = (db', res)" "queue_inv db"
  shows "db' = db \<and> (\<exists>e. res = Inl e) \<or>
    (\<exists>r. holds (db_now env) ws i (sha token) r \<and> performs db (Failing (db_now env) f t) r db' \<and>
      (\<forall>s. res = Inr s \<longrightarrow> s = j_state (effect_row (Failing (db_now env) f t) r)))"
proof -
  let ?h = "sha token" and ?now = "db_now env"
  let ?P = "\<lambda>r. holds ?now ws i ?h r \<and> j_state r = StateRunning"
  show ?thesis
  proof (cases "sql_row ?P (jobs db)")
    case None
    with assms(1) show ?thesis
      unfolding Fail_def Let_def hashLeaseToken_def
      by (auto simp: stmt_def split: if_splits option.splits)
  next
    case (Some r)
    from sql_row_Some [OF this] have r: "r \<in> set (jobs db)" "holds ?now ws i ?h r" "j_state r = StateRunning"
      by auto
    obtain s out where fs: "fail_state f r = (s, out)" by (cases "fail_state f r")
    have eq: "db\<lparr>jobs := sql_update (\<lambda>x. j_workspace x = ws \<and> j_id x = i \<and> j_token_hash x = Some ?h)
            (failed_row ?now s f t) (jobs db),
          job_attempts := sql_update (attempt_is ws i (j_attempts r)) (failed_attempt ?now out (failureCode f))
            (job_attempts db)\<rparr> = apply_effect (Failing ?now f t) r db"
      by (rule id_update_effect [OF assms(2) r(1)]) (use holdsD [OF r(2)] fs in auto)
    show ?thesis
    proof (cases "(failureClass f = ErrorRetryable \<or> failureClass f = ErrorPermanent) \<and> validCode (failureCode f)")
      case True
      then have "performs db (Failing ?now f t) r (apply_effect (Failing ?now f t) r db)"
        using r by (simp add: performs_def)
      moreover have "j_state (effect_row (Failing ?now f t) r) = s" by (simp add: failed_row_def fs)
      ultimately show ?thesis
        using assms(1) r(2) unfolding Fail_def Let_def hashLeaseToken_def Some
        by (auto simp: fs eq stmt_def commit_def split: if_splits option.splits)
    next
      case False
      with assms(1) show ?thesis by (auto simp: Fail_def)
    qed
  qed
qed

lemma RequestCancellation_effect:
  assumes "RequestCancellation env ws i db = (db', res)" "queue_inv db"
  shows "db' = db \<and> (\<exists>e. res = Inl e) \<or>
    (\<exists>r. j_workspace r = ws \<and> j_id r = i \<and> performs db (Cancelling (db_now env)) r db' \<and>
      (\<forall>s. res = Inr s \<longrightarrow> s = j_state (effect_row (Cancelling (db_now env)) r)))"
proof (cases "sql_row (cancellable ws i) (jobs db)")
  case None
  with assms(1) show ?thesis
    by (auto simp: RequestCancellation_def stmt_def split: if_splits option.splits)
next
  case (Some r)
  from sql_row_Some [OF this] have r: "r \<in> set (jobs db)" "cancellable ws i r" by auto
  have "db\<lparr>jobs := sql_update (cancellable ws i) (cancel_row (db_now env)) (jobs db)\<rparr>
      = apply_effect (Cancelling (db_now env)) r db"
  proof -
    have j: "sql_update (cancellable ws i) (cancel_row (db_now env)) (jobs db)
        = sql_update (\<lambda>x. j_id x = j_id r) (effect_row (Cancelling (db_now env))) (jobs db)"
      using r unique_row [OF assms(2) r(1)] by (intro sql_update_cong) (auto simp: cancellable_def)
    have "sql_update P (effect_attempt (Cancelling (db_now env)) r) (job_attempts db) = job_attempts db" for P
      by (rule sql_update_id) simp
    with j show ?thesis by (simp add: apply_effect_def)
  qed
  with r assms(1) show ?thesis
    unfolding RequestCancellation_def Some
    by (auto simp: cancellable_def performs_def commit_def split: if_splits option.splits)
qed

section \<open>Acquisition\<close>

lemma candidate_Some:
  assumes "candidate env q cap db = Some r"
  shows "r \<in> set (jobs db)" "eligible (db_now env) q cap db r" "\<not> db_locked env (j_id r)"
    "\<And>x. x \<in> set (jobs db) \<Longrightarrow> eligible (db_now env) q cap db x \<Longrightarrow> \<not> db_locked env (j_id x) \<Longrightarrow>
       fairness_key db r \<le> fairness_key db x"
proof -
  let ?rs = "filter (\<lambda>r. eligible (db_now env) q cap db r \<and> \<not> db_locked env (j_id r)) (jobs db)"
  have ne: "?rs \<noteq> []" and r: "r = arg_min_list (fairness_key db) ?rs"
    using assms by (auto simp: candidate_def split: list.splits)
  from arg_min_list_in [OF ne] r have "r \<in> set ?rs" by simp
  then show "r \<in> set (jobs db)" "eligible (db_now env) q cap db r" "\<not> db_locked env (j_id r)" by auto
  fix x
  assume "x \<in> set (jobs db)" "eligible (db_now env) q cap db x" "\<not> db_locked env (j_id x)"
  then have "x \<in> set ?rs" by simp
  with f_arg_min_list_f [OF ne, of "fairness_key db"] r show "fairness_key db r \<le> fairness_key db x" by simp
qed

lemma candidate_None:
  "candidate env q cap db = None \<longleftrightarrow>
     (\<forall>r\<in>set (jobs db). eligible (db_now env) q cap db r \<longrightarrow> db_locked env (j_id r))"
proof -
  have "candidate env q cap db = None \<longleftrightarrow>
      filter (\<lambda>r. eligible (db_now env) q cap db r \<and> \<not> db_locked env (j_id r)) (jobs db) = []"
    by (simp add: candidate_def split: list.split)
  then show ?thesis by (auto simp: filter_empty_conv)
qed

lemma owner_in_length: "owner \<noteq> [] \<Longrightarrow> length owner \<le> 128 \<Longrightarrow> in_length 1 128 owner"
  using rune_count_le [of owner] by (subst in_length_def, subst (1) rune_count.simps) simp

lemma leased_update_effect_row:
  "db\<lparr>jobs := sql_update (\<lambda>x. j_id x = j_id r) (leased_row now owner h d) (jobs db),
      job_attempts := job_attempts db @ [new_attempt now owner (leased_row now owner h d r)]\<rparr>
   = apply_effect (Leasing now owner h d) r db"
proof -
  have "sql_update P (effect_attempt (Leasing now owner h d) r) as = as" for P as
    by (rule sql_update_id) simp
  moreover have "effect_row (Leasing now owner h d) = leased_row now owner h d" by (simp add: fun_eq_iff)
  ultimately show ?thesis by (simp add: apply_effect_def)
qed

lemma Acquire_effect:
  assumes "Acquire sha env rnd q owner d cap db = (db', res)" "digest32 sha"
  shows "db' = db \<and> (res = Inr None \<or> (\<exists>e. res = Inl e)) \<or>
    (\<exists>r token. candidate env q cap db = Some r \<and> randomID ''lease_'' 32 rnd = Inr token \<and>
       performs db (Leasing (db_now env) owner (sha token) d) r db' \<and>
       (\<forall>l. res = Inr l \<longrightarrow> l = Some \<lparr>leaseJob = scanJob (leased_row (db_now env) owner (sha token) d r),
          leaseToken = token\<rparr>))"
proof (cases "\<exists>r token. candidate env q cap db = Some r \<and> randomID ''lease_'' 32 rnd = Inr token \<and> acquire_valid q owner d cap")
  case False
  with assms(1) show ?thesis
    by (auto simp: Acquire_def stmt_def split: if_splits option.splits sum.splits)
next
  case True
  then obtain r token where c: "candidate env q cap db = Some r" and tk: "randomID ''lease_'' 32 rnd = Inr token"
    and v: "acquire_valid q owner d cap" by blast
  have "enabled (Leasing (db_now env) owner (sha token) d) r"
    using candidate_Some(2) [OF c] v assms(2)
    by (auto simp: eligible_def acquire_valid_def digest32_def intro: owner_in_length [simplified])
  with candidate_Some(1) [OF c]
  have p: "performs db (Leasing (db_now env) owner (sha token) d) r
      (apply_effect (Leasing (db_now env) owner (sha token) d) r db)"
    by (simp add: performs_def)
  show ?thesis
    using assms(1) p c tk v unfolding Acquire_def hashLeaseToken_def Let_def
    by (auto simp: leased_update_effect_row stmt_def commit_def split: if_splits option.splits)
qed

section \<open>Recovery\<close>

lemma recover_one_effect:
  assumes "queue_inv db" "r \<in> set (jobs db)"
  shows "recover_one now clock delay r db =
    apply_effect (Recovering now (if fst (recover_state r) = StateRetryWait then clock + delay else clock)) r db"
proof -
  obtain s out where fs: "recover_state r = (s, out)" by (cases "recover_state r")
  show ?thesis
    unfolding recover_one_def fs prod.case Let_def fst_conv
    by (rule id_update_effect [OF assms]) (use fs in auto)
qed

text \<open>The effects other than a new lease.\<close>

fun quiet :: "effect \<Rightarrow> bool" where
  "quiet (Leasing now owner h d) = False"
| "quiet _ = True"

definition effect_step :: "queue_db \<Rightarrow> queue_db \<Rightarrow> bool" where
  "effect_step db db' \<longleftrightarrow> (\<exists>e r. quiet e \<and> performs db e r db')"

lemma recover_loop_effect:
  assumes "recover_loop env delay k rs db = Inr db'" "queue_inv db" "distinct (map j_id rs)"
    "set rs \<subseteq> set (jobs db)" "\<forall>r\<in>set rs. expired (db_now env) q r"
  shows "effect_step\<^sup>*\<^sup>* db db' \<and> queue_inv db' \<and>
    (\<forall>x\<in>set (jobs db). x \<notin> set rs \<longrightarrow> x \<in> set (jobs db')) \<and>
    (\<forall>r\<in>set rs. \<exists>t. effect_row (Recovering (db_now env) t) r \<in> set (jobs db')) \<and>
    (\<forall>x\<in>set (jobs db'). x \<in> set (jobs db) \<and> x \<notin> set rs \<or>
       (\<exists>r\<in>set rs. \<exists>t. x = effect_row (Recovering (db_now env) t) r))"
  using assms
proof (induction rs arbitrary: k db)
  case (Cons r rs)
  have r: "r \<in> set (jobs db)" and ex: "expired (db_now env) q r" using Cons.prems by auto
  obtain t where t: "recover_one (db_now env) (db_clock env k) delay r db = apply_effect (Recovering (db_now env) t) r db"
    using recover_one_effect [OF Cons.prems(2) r] by blast
  define E where "E = Recovering (db_now env) t"
  have en: "enabled E r" using ex by (auto simp: expired_def E_def)
  have inv1: "queue_inv (apply_effect E r db)" by (rule apply_effect_inv [OF Cons.prems(2) r en])
  have loop: "recover_loop env delay (Suc k) rs (apply_effect E r db) = Inr db'"
    using Cons.prems(1) by (auto simp: t E_def split: option.splits)
  note mem = in_effect_jobs [OF Cons.prems(2) r, of _ E]
  have notin: "r \<notin> set rs" "effect_row E r \<notin> set rs"
    using Cons.prems(3) by (auto simp: image_iff)
  have sub: "set rs \<subseteq> set (jobs (apply_effect E r db))"
    using Cons.prems(4) notin by (auto simp: mem)
  have IH: "effect_step\<^sup>*\<^sup>* (apply_effect E r db) db'" "queue_inv db'"
    "\<forall>x\<in>set (jobs (apply_effect E r db)). x \<notin> set rs \<longrightarrow> x \<in> set (jobs db')"
    "\<forall>r\<in>set rs. \<exists>t. effect_row (Recovering (db_now env) t) r \<in> set (jobs db')"
    "\<forall>x\<in>set (jobs db'). x \<in> set (jobs (apply_effect E r db)) \<and> x \<notin> set rs \<or>
       (\<exists>r\<in>set rs. \<exists>t. x = effect_row (Recovering (db_now env) t) r)"
    using Cons.IH [OF loop inv1 _ sub] Cons.prems by auto
  have "effect_step db (apply_effect E r db)" 
    using r en unfolding effect_step_def performs_def E_def by (metis quiet.simps)
  then have "effect_step\<^sup>*\<^sup>* db db'" using IH(1) by (rule converse_rtranclp_into_rtranclp)
  moreover have "effect_row E r \<in> set (jobs db')" using IH(3) notin mem by blast
  moreover have "x \<in> set (jobs db')" if "x \<in> set (jobs db)" "x \<notin> set (r # rs)" for x
    using IH(3) that mem [of x] by auto
  moreover have "x \<in> set (jobs db) \<and> x \<notin> set (r # rs) \<or>
      (\<exists>r\<in>set (r # rs). \<exists>t. x = effect_row (Recovering (db_now env) t) r)" if x: "x \<in> set (jobs db')" for x
    using bspec [OF IH(5) x] mem [of x] unfolding E_def by (metis list.set_intros set_ConsD)
  ultimately show ?case using IH(2,4) unfolding E_def by (metis set_ConsD)
qed auto

lemma expired_batch_set:
  "set (expired_batch env q n db) \<subseteq> set (filter (\<lambda>r. expired (db_now env) q r \<and> \<not> db_locked env (j_id r)) (jobs db))"
  unfolding expired_batch_def using set_take_subset by fastforce

lemma expired_batch_distinct:
  assumes "queue_inv db"
  shows "distinct (map j_id (expired_batch env q n db))"
proof -
  let ?rs = "filter (\<lambda>r. expired (db_now env) q r \<and> \<not> db_locked env (j_id r)) (jobs db)"
  have "distinct (map j_id (jobs db))" using assms by (simp add: queue_inv_def)
  then have "distinct (map j_id ?rs)" by (rule distinct_map_filter)
  then have "distinct (map j_id (sort_key (recovery_key env q db) ?rs))" by (simp add: distinct_map)
  then show ?thesis unfolding expired_batch_def take_map [symmetric] by (rule distinct_take)
qed

lemma RecoverExpired_effect:
  assumes "RecoverExpired env q limit delay db = (db', res)" "queue_inv db"
  shows "db' = db \<and> (\<exists>e. res = Inl e) \<or>
    (0 < limit \<and> recover_loop env delay 0 (expired_batch env q (nat limit) db) db = Inr db' \<and>
     (\<forall>n. res = Inr n \<longrightarrow> n = length (expired_batch env q (nat limit) db)))"
  using assms(1)
  by (auto simp: RecoverExpired_def Let_def stmt_def commit_def
      split: if_splits option.splits sum.splits)

lemma RecoverExpired_loop:
  assumes "recover_loop env delay 0 (expired_batch env q n db) db = Inr db'" "queue_inv db"
  shows "effect_step\<^sup>*\<^sup>* db db'" "queue_inv db'"
    "\<And>x. x \<in> set (jobs db) \<Longrightarrow> x \<notin> set (expired_batch env q n db) \<Longrightarrow> x \<in> set (jobs db')"
    "\<And>r. r \<in> set (expired_batch env q n db) \<Longrightarrow>
       \<exists>t. effect_row (Recovering (db_now env) t) r \<in> set (jobs db')"
    "\<And>x. x \<in> set (jobs db') \<Longrightarrow> x \<in> set (jobs db) \<and> x \<notin> set (expired_batch env q n db) \<or>
       (\<exists>r\<in>set (expired_batch env q n db). \<exists>t. x = effect_row (Recovering (db_now env) t) r)"
proof -
  have "set (expired_batch env q n db) \<subseteq> set (jobs db)" "\<forall>r\<in>set (expired_batch env q n db). expired (db_now env) q r"
    using expired_batch_set [of env q n db] by auto
  from recover_loop_effect [OF assms expired_batch_distinct [OF assms(2)] this]
  show "effect_step\<^sup>*\<^sup>* db db'" "queue_inv db'"
    "\<And>x. x \<in> set (jobs db) \<Longrightarrow> x \<notin> set (expired_batch env q n db) \<Longrightarrow> x \<in> set (jobs db')"
    "\<And>r. r \<in> set (expired_batch env q n db) \<Longrightarrow>
       \<exists>t. effect_row (Recovering (db_now env) t) r \<in> set (jobs db')"
    "\<And>x. x \<in> set (jobs db') \<Longrightarrow> x \<in> set (jobs db) \<and> x \<notin> set (expired_batch env q n db) \<or>
       (\<exists>r\<in>set (expired_batch env q n db). \<exists>t. x = effect_row (Recovering (db_now env) t) r)"
    by blast+
qed

section \<open>Enqueue\<close>

lemma enqueue_effect:
  assumes "enqueue sha jsonb env rnd sp db = (db', res)"
  shows "db' = db \<or>
    (\<exists>i payload p fp. fingerprintSpec sha sp = Inr (payload, fp) \<and> jsonb payload = Some p \<and>
       insert_job (new_job_row env i sp p fp) db = Some (db', 1))"
proof (cases "fingerprintSpec sha sp")
  case (Inl e)
  with assms show ?thesis by (simp add: enqueue_def)
next
  case (Inr pf)
  obtain payload fp where pf: "pf = (payload, fp)" by (cases pf)
  show ?thesis
  proof (cases "randomID ''job_'' 20 rnd")
    case (Inl e)
    with assms Inr pf show ?thesis by (simp add: enqueue_def)
  next
    case i: (Inr i)
    show ?thesis
    proof (cases "Option.bind (jsonb payload) (\<lambda>p. insert_job (new_job_row env i sp p fp) db)")
      case None
      with assms Inr pf i show ?thesis by (simp add: enqueue_def)
    next
      case (Some dr)
      obtain db1 rows where dr: "dr = (db1, rows)" by (cases dr)
      with Some obtain p where p: "jsonb payload = Some p" "insert_job (new_job_row env i sp p fp) db = Some (db1, rows)"
        by (auto simp: bind_eq_Some_conv)
      from p(2) have rows: "rows = 1 \<or> db1 = db" by (auto simp: insert_job_def split: if_splits)
      have "db' = db \<or> db' = db1"
        using assms Inr pf i Some dr
        by (auto simp: enqueue_def split: option.splits sum.splits if_splits)
      with rows p Inr pf show ?thesis by blast
    qed
  qed
qed

lemma insert_job_new:
  assumes "insert_job r db = Some (db', 1)"
  shows "job_row_ok r" "idempotency_key r \<notin> set (map idempotency_key (jobs db))"
    "j_id r \<notin> set (map j_id (jobs db))" "j_workspace r \<in> set (workspaces db)"
    "db' = db\<lparr>jobs := jobs db @ [r]\<rparr>"
  using assms by (auto simp: insert_job_def split: if_splits)

lemma insert_job_inv:
  assumes "insert_job r db = Some (db', 1)" "queue_inv db" "j_attempts r = 0"
  shows "queue_inv db'"
proof -
  note n = insert_job_new [OF assms(1)]
  have "a_job a \<in> set (map j_id (jobs db))" if "a \<in> set (job_attempts db)" for a
    using assms(2) that by (simp add: queue_inv_def list_all_iff)
  with n(3) have "attempts_of (j_id r) db = []" unfolding attempts_of_def filter_empty_conv by metis
  moreover have "attempts_of i db' = attempts_of i db" for i by (simp add: n(5) attempts_of_def)
  moreover have "attempts_ok r []" using assms(3) by (simp add: attempts_ok_def)
  ultimately show ?thesis
    using n assms(2) unfolding queue_inv_def by (auto simp: n(5) list_all_iff)
qed

section \<open>The transition relation of the queue\<close>

text \<open>One call of one method, with any arguments and any behaviour of the environment.  The cap is
  the \<open>MaxInFlightPerWorkspace\<close> every worker is configured with.\<close>

inductive queue_step :: "(string \<Rightarrow> string) \<Rightarrow> int \<Rightarrow> queue_db \<Rightarrow> queue_db \<Rightarrow> bool"
  for sha :: "string \<Rightarrow> string" and cap :: int where
  enqueue: "enqueue sha jsonb env rnd sp db = (db', res) \<Longrightarrow> queue_step sha cap db db'"
| acquire: "Acquire sha env rnd q owner d cap db = (db', res) \<Longrightarrow> queue_step sha cap db db'"
| start: "Start sha env ws i token db = (db', res) \<Longrightarrow> queue_step sha cap db db'"
| heartbeat: "Heartbeat sha env ws i token d db = (db', res) \<Longrightarrow> queue_step sha cap db db'"
| succeed: "Succeed sha env ws i token db = (db', res) \<Longrightarrow> queue_step sha cap db db'"
| succeed_tx: "SucceedTx sha env ws i token db = Inr db' \<Longrightarrow> queue_step sha cap db db'"
| fail: "Fail sha env ws i token f t db = (db', res) \<Longrightarrow> queue_step sha cap db db'"
| request_cancel: "RequestCancellation env ws i db = (db', res) \<Longrightarrow> queue_step sha cap db db'"
| cancel: "CancelActive sha env ws i token db = (db', res) \<Longrightarrow> queue_step sha cap db db'"
| recover: "RecoverExpired env q limit delay db = (db', res) \<Longrightarrow> queue_step sha cap db db'"

inductive queue_reach :: "(string \<Rightarrow> string) \<Rightarrow> int \<Rightarrow> string list \<Rightarrow> queue_db \<Rightarrow> bool"
  for sha :: "string \<Rightarrow> string" and cap :: int and ws :: "string list" where
  init: "queue_reach sha cap ws (empty_queue ws)"
| step: "queue_reach sha cap ws db \<Longrightarrow> queue_step sha cap db db' \<Longrightarrow> queue_reach sha cap ws db'"

text \<open>The abstract machine: a queued job appears, or an enabled effect happens.\<close>

inductive machine_step :: "queue_db \<Rightarrow> queue_db \<Rightarrow> bool" where
  arrive: "insert_job r db = Some (db', 1) \<Longrightarrow> j_state r = StateQueued \<Longrightarrow> j_attempts r = 0 \<Longrightarrow>
    j_cancel_at r = None \<Longrightarrow> machine_step db db'"
| effect: "performs db e r db' \<Longrightarrow> machine_step db db'"

text \<open>The steps that grant no lease.\<close>

definition quiet_step :: "queue_db \<Rightarrow> queue_db \<Rightarrow> bool" where
  "quiet_step db db' \<longleftrightarrow>
     effect_step db db' \<or>
     (\<exists>r. insert_job r db = Some (db', 1) \<and> j_state r = StateQueued \<and> j_attempts r = 0 \<and> j_cancel_at r = None)"

lemma effect_steps_quiet: "effect_step\<^sup>*\<^sup>* db db' \<Longrightarrow> quiet_step\<^sup>*\<^sup>* db db'"
  by (erule rtranclp_mono [THEN predicate2D, rotated]) (auto simp: quiet_step_def)

lemma quiet_steps_machine: "quiet_step\<^sup>*\<^sup>* db db' \<Longrightarrow> machine_step\<^sup>*\<^sup>* db db'"
proof (erule rtranclp_mono [THEN predicate2D, rotated], intro predicate2I)
  fix x y
  assume "quiet_step x y"
  then show "machine_step x y" unfolding quiet_step_def effect_step_def by (blast intro: machine_step.intros)
qed

lemma performs_quiet: "performs db e r db' \<Longrightarrow> quiet e \<Longrightarrow> quiet_step\<^sup>*\<^sup>* db db'"
  by (rule r_into_rtranclp) (auto simp: quiet_step_def effect_step_def)

text \<open>A call grants at most one lease, and only \<open>Acquire\<close> does.\<close>

lemma queue_step_split:
  assumes "queue_step sha cap db db'" "queue_inv db" "digest32 sha"
  obtains (none) "quiet_step\<^sup>*\<^sup>* db db'"
  | (lease) env rnd q owner d res r token where "Acquire sha env rnd q owner d cap db = (db', res)"
      "candidate env q cap db = Some r" "randomID ''lease_'' 32 rnd = Inr token"
      "performs db (Leasing (db_now env) owner (sha token) d) r db'"
  using assms(1)
proof cases
  case (enqueue jsonb env rnd sp res)
  from enqueue_effect [OF this] show thesis
  proof (elim disjE exE conjE)
    fix i payload p fp
    assume "insert_job (new_job_row env i sp p fp) db = Some (db', 1)"
    moreover have "j_state (new_job_row env i sp p fp) = StateQueued" "j_attempts (new_job_row env i sp p fp) = 0"
      "j_cancel_at (new_job_row env i sp p fp) = None" by (simp_all add: new_job_row_def)
    ultimately have "quiet_step db db'" unfolding quiet_step_def by blast
    then show thesis by (intro none) (rule r_into_rtranclp)
  qed (intro none, simp)
next
  case (recover env q limit delay res)
  from RecoverExpired_effect [OF this assms(2)] RecoverExpired_loop(1) [OF _ assms(2)]
  show thesis by (intro none) (auto intro: effect_steps_quiet)
next
  case (acquire env rnd q owner d res)
  from Acquire_effect [OF this assms(3)] acquire show thesis by (auto intro: none lease)
next
  case (start env ws i token res)
  from Start_effect [OF this assms(2)] show thesis by (intro none) (auto dest: performs_quiet)
next
  case (heartbeat env ws i token d res)
  from Heartbeat_effect [OF this assms(2)] show thesis by (intro none) (auto dest: performs_quiet)
next
  case (succeed env ws i token res)
  from finish_effect [OF this [unfolded Succeed_def] assms(2)] show thesis
    by (intro none) (auto dest: performs_quiet)
next
  case (succeed_tx env ws i token)
  from finishTx_effect [OF this [unfolded SucceedTx_def] assms(2)] show thesis
    by (intro none) (auto dest: performs_quiet)
next
  case (fail env ws i token f t res)
  from Fail_effect [OF this assms(2)] show thesis by (intro none) (auto dest: performs_quiet)
next
  case (request_cancel env ws i res)
  from RequestCancellation_effect [OF this assms(2)] show thesis by (intro none) (auto dest: performs_quiet)
next
  case (cancel env ws i token res)
  from finish_effect [OF this [unfolded CancelActive_def] assms(2)] show thesis
    by (intro none) (auto dest: performs_quiet)
qed

text \<open>Refinement: every call is a sequence of abstract steps (empty when it changed nothing).\<close>

lemma queue_step_refines:
  assumes "queue_step sha cap db db'" "queue_inv db" "digest32 sha"
  shows "machine_step\<^sup>*\<^sup>* db db'"
  using assms
proof (cases rule: queue_step_split)
  case none
  then show ?thesis by (rule quiet_steps_machine)
next
  case (lease env rnd q owner d res r token)
  then show ?thesis by (intro r_into_rtranclp) (rule machine_step.effect)
qed

lemma machine_step_inv: "machine_step db db' \<Longrightarrow> queue_inv db \<Longrightarrow> queue_inv db'"
  by (erule machine_step.cases) (auto simp: performs_def intro: insert_job_inv apply_effect_inv)

lemma machine_steps_induct:
  assumes "machine_step\<^sup>*\<^sup>* db db'" "queue_inv db" "P db"
    and step: "\<And>a b. machine_step a b \<Longrightarrow> queue_inv a \<Longrightarrow> P a \<Longrightarrow> P b"
  shows "queue_inv db' \<and> P db'"
  using assms(1)
proof (induction rule: rtranclp_induct)
  case (step y z)
  then show ?case using machine_step_inv assms(4) by blast
qed (use assms in simp)

lemma queue_step_inv:
  assumes "queue_step sha cap db db'" "queue_inv db" "digest32 sha"
  shows "queue_inv db'"
  using machine_steps_induct [OF queue_step_refines [OF assms] assms(2), of "\<lambda>_. True"] by simp

lemma queue_reach_inv:
  assumes "queue_reach sha cap ws db" "digest32 sha"
  shows "queue_inv db"
  using assms by (induction) (auto intro: queue_inv_empty queue_step_inv)

section \<open>Following one job\<close>

definition job_at :: "queue_db \<Rightarrow> string \<Rightarrow> job_row option" where
  "job_at db i = sql_row (\<lambda>r. j_id r = i) (jobs db)"

lemma job_at_Some:
  assumes "queue_inv db"
  shows "job_at db i = Some r \<longleftrightarrow> r \<in> set (jobs db) \<and> j_id r = i"
proof
  assume "job_at db i = Some r"
  then show "r \<in> set (jobs db) \<and> j_id r = i" unfolding job_at_def by (rule sql_row_Some)
next
  assume r: "r \<in> set (jobs db) \<and> j_id r = i"
  then show "job_at db i = Some r"
    unfolding job_at_def using queue_inv_unique [OF assms] by (intro sql_row_unique) auto
qed

lemma performs_row:
  assumes "performs db e r db'" "queue_inv db"
  shows "queue_inv db'" "job_at db' (j_id r) = Some (effect_row e r)"
    "\<And>x. x \<in> set (jobs db) \<Longrightarrow> x \<noteq> r \<Longrightarrow> job_at db' (j_id x) = Some x"
    "\<And>i. i \<noteq> j_id r \<Longrightarrow> attempts_of i db' = attempts_of i db"
proof -
  have p: "r \<in> set (jobs db)" "enabled e r" "db' = apply_effect e r db" using assms(1) by (auto simp: performs_def)
  show inv: "queue_inv db'" using apply_effect_inv [OF assms(2) p(1,2)] p(3) by simp
  have mem: "x \<in> set (jobs db') \<longleftrightarrow> x = effect_row e r \<or> x \<in> set (jobs db) \<and> x \<noteq> r" for x
    using in_effect_jobs [OF assms(2) p(1)] p(3) by simp
  show "job_at db' (j_id r) = Some (effect_row e r)"
    by (simp add: job_at_Some [OF inv] mem)
  show "\<And>x. x \<in> set (jobs db) \<Longrightarrow> x \<noteq> r \<Longrightarrow> job_at db' (j_id x) = Some x"
    by (simp add: job_at_Some [OF inv] mem)
  show "\<And>i. i \<noteq> j_id r \<Longrightarrow> attempts_of i db' = attempts_of i db"
    using p by (simp add: attempts_of_effect)
qed

text \<open>A step of the machine leaves a job alone or performs an enabled effect on it; no job
  disappears.\<close>

lemma machine_step_job:
  assumes "machine_step db db'" "queue_inv db" "job_at db i = Some r"
  obtains (same) "job_at db' i = Some r" "attempts_of i db' = attempts_of i db"
  | (effect) e where "enabled e r" "performs db e r db'" "job_at db' i = Some (effect_row e r)"
  using assms(1)
proof cases
  case (arrive x)
  note n = insert_job_new [OF arrive(1)]
  have "queue_inv db'" using insert_job_inv [OF arrive(1) assms(2) arrive(3)] .
  with assms(3) n(5) have "job_at db' i = Some r" by (auto simp: job_at_Some assms(2))
  moreover have "attempts_of i db' = attempts_of i db" by (simp add: n(5) attempts_of_def)
  ultimately show thesis by (rule same)
next
  case (effect e x)
  have r: "r \<in> set (jobs db)" "j_id r = i" using assms(3) by (auto simp: job_at_Some assms(2))
  show thesis
  proof (cases "x = r")
    case True
    with effect r performs_row(2) [OF effect assms(2)] show thesis
      by (intro that(2) [of e]) (auto simp: performs_def)
  next
    case False
    have "j_id x \<noteq> i" using False r queue_inv_unique [OF assms(2)] effect by (auto simp: performs_def)
    with False r performs_row(3,4) [OF effect assms(2)] show thesis by (intro same) auto
  qed
qed

lemma machine_steps_job:
  assumes "machine_step\<^sup>*\<^sup>* db db'" "queue_inv db" "job_at db i = Some r" "P r"
    and "\<And>x e. P x \<Longrightarrow> enabled e x \<Longrightarrow> P (effect_row e x)"
  shows "\<exists>r'. job_at db' i = Some r' \<and> P r'"
proof -
  have "queue_inv db' \<and> (\<exists>r'. job_at db' i = Some r' \<and> P r')"
  proof (rule machine_steps_induct [OF assms(1,2)])
    fix a b
    assume ab: "machine_step a b" "queue_inv a" and ex: "\<exists>r'. job_at a i = Some r' \<and> P r'"
    from ex obtain x where x: "job_at a i = Some x" "P x" by blast
    from ab x(1) show "\<exists>r'. job_at b i = Some r' \<and> P r'"
      by (cases rule: machine_step_job) (use x assms(5) in blast)+
  qed (use assms in blast)
  then show ?thesis by blast
qed

text \<open>The part of a job fixed when it is enqueued.\<close>

definition same_request :: "job_row \<Rightarrow> job_row \<Rightarrow> bool" where
  "same_request r s \<longleftrightarrow>
     j_id s = j_id r \<and> idempotency_key s = idempotency_key r \<and> j_fingerprint s = j_fingerprint r \<and>
     j_payload s = j_payload r \<and> j_max_attempts s = j_max_attempts r \<and> j_created_at s = j_created_at r \<and>
     j_principal s = j_principal r \<and> j_capability s = j_capability r \<and> j_operation s = j_operation r"

lemma machine_steps_request:
  assumes "machine_step\<^sup>*\<^sup>* db db'" "queue_inv db" "job_at db i = Some r"
  shows "\<exists>r'. job_at db' i = Some r' \<and> same_request r r'"
  by (rule machine_steps_job [OF assms]) (auto simp: same_request_def)

lemma terminal_disabled: "terminal (j_state r) \<Longrightarrow> \<not> enabled e r"
  by (cases e) (auto simp: state_defs)

lemma machine_steps_terminal:
  assumes "machine_step\<^sup>*\<^sup>* db db'" "queue_inv db" "job_at db i = Some r" "terminal (j_state r)"
  shows "job_at db' i = Some r \<and> attempts_of i db' = attempts_of i db"
proof -
  have "queue_inv db' \<and> job_at db' i = Some r \<and> attempts_of i db' = attempts_of i db"
  proof (rule machine_steps_induct [OF assms(1,2)])
    fix a b
    assume ab: "machine_step a b" "queue_inv a" and x: "job_at a i = Some r \<and> attempts_of i a = attempts_of i db"
    from ab conjunct1 [OF x] show "job_at b i = Some r \<and> attempts_of i b = attempts_of i db"
      by (cases rule: machine_step_job) (use x terminal_disabled [OF assms(4)] in auto)
  qed (use assms in auto)
  then show ?thesis by blast
qed

section \<open>Cancellation requests\<close>

text \<open>A job with a recorded cancellation request is still in some worker's hands or is cancelled.\<close>

definition cancel_inv :: "job_row \<Rightarrow> bool" where
  "cancel_inv r \<longleftrightarrow> (j_cancel_at r \<noteq> None \<longrightarrow> active (j_state r) \<or> j_state r = StateCancelled)"

lemma effect_cancel_inv: "cancel_inv r \<Longrightarrow> enabled e r \<Longrightarrow> cancel_inv (effect_row e r)"
  by (cases e; cases "j_state r")
    (auto simp: cancel_inv_def row_effects state_defs fail_state_def recover_state_def)

lemma effect_cancel_persists: "enabled e r \<Longrightarrow> j_cancel_at r \<noteq> None \<Longrightarrow> j_cancel_at (effect_row e r) \<noteq> None"
  by (cases e) (auto simp: row_effects coalesce_def split: option.splits)

lemma insert_new_member:
  assumes "insert_job x a = Some (b, 1)" "y \<in> set (jobs b)"
  shows "y = x \<or> y \<in> set (jobs a)"
  using insert_job_new(5) [OF assms(1)] assms(2) by auto

lemma machine_step_rows:
  assumes "machine_step a b" "queue_inv a" "\<forall>x\<in>set (jobs a). P x"
    and "\<And>x e. P x \<Longrightarrow> enabled e x \<Longrightarrow> P (effect_row e x)"
    and "\<And>x. j_state x = StateQueued \<Longrightarrow> j_cancel_at x = None \<Longrightarrow> insert_job x a = Some (b, 1) \<Longrightarrow> P x"
  shows "\<forall>x\<in>set (jobs b). P x"
  using assms(1)
proof cases
  case (arrive x)
  have "P x" using arrive assms(5) by blast
  then show ?thesis using insert_new_member [OF arrive(1)] assms(3) by blast
next
  case (effect e r)
  then have p: "r \<in> set (jobs a)" "enabled e r" "b = apply_effect e r a" by (auto simp: performs_def)
  show ?thesis unfolding p(3) in_effect_jobs [OF assms(2) p(1)] Ball_def using assms(3,4) p by blast
qed

end
