(* ===== verification/Job_Queue_Props.thy ===== *)
theory Job_Queue_Props
  imports Job_Queue_Refine
begin

text \<open>
  The properties of the job queue: well-formedness of every reachable state, refinement of the
  lease machine, absorbing terminal states, fencing of stale workers, the in-flight cap, fair
  selection, cancellation, idempotent submission, lease recovery and failure outcomes.  The demo
  database is a concrete instance the witnesses evaluate.
\<close>

section \<open>A concrete database\<close>

definition toy_sha :: "string \<Rightarrow> string" where
  "toy_sha s = replicate (32 - length (take 32 s)) CHR ''0'' @ take 32 s"

lemma digest32_toy: "digest32 toy_sha"
  by (simp add: digest32_def toy_sha_def)

definition demo_token :: "string" where
  "demo_token = ''lease_'' @ replicate 52 CHR ''a''"

definition demo_row :: "State \<Rightarrow> job_row" where
  "demo_row s =
     \<lparr>j_id = ''job_1'', j_workspace = ''ws1'', j_operation = None, j_principal = ''usr1'',
      j_capability = ''import.process'', j_queue = ''imports'', j_kind = ''import.process'',
      j_schema_version = 1, j_payload = ''{}'', j_key = ''k1'', j_fingerprint = replicate 32 CHR ''f'',
      j_state = s, j_priority = 0, j_available_at = 0, j_attempts = (if s = StateQueued then 0 else 1), j_max_attempts = 3,
      j_owner = (if active s then Some ''worker-0'' else None),
      j_token_hash = (if active s then Some (toy_sha demo_token) else None),
      j_expires_at = (if active s then Some (100 * second) else None),
      j_heartbeat_at = (if active s then Some (40 * second) else None),
      j_cancel_at = None, j_error_class = None, j_error_code = None, j_created_at = 0,
      j_started_at = (if s = StateRunning then Some (41 * second) else None),
      j_completed_at = (if terminal s then Some (60 * second) else None)\<rparr>"

definition demo_attempt :: "attempt_row" where
  "demo_attempt =
     \<lparr>a_job = ''job_1'', a_workspace = ''ws1'', a_number = 1, a_owner = ''worker-0'', a_leased_at = 40 * second,
      a_started_at = Some (41 * second), a_heartbeat_at = 40 * second, a_finished_at = None,
      a_outcome = None, a_error_code = None\<rparr>"

definition demo_db :: "State \<Rightarrow> queue_db" where
  "demo_db s = \<lparr>workspaces = [''ws1''], jobs = [demo_row s],
     job_attempts = (if s = StateQueued then [] else [demo_attempt])\<rparr>"

lemma demo_running_inv: "queue_inv (demo_db StateRunning)"
  by code_simp

lemma demo_leased_inv: "queue_inv (demo_db StateLeased)"
  by code_simp

lemma demo_queued_inv: "queue_inv (demo_db StateQueued)"
  by code_simp

section \<open>Counting active jobs\<close>

lemma sql_count_update_le:
  "(\<And>x. x \<in> set rs \<Longrightarrow> Q x \<Longrightarrow> P (f x) \<Longrightarrow> P x) \<Longrightarrow> sql_count P (sql_update Q f rs) \<le> sql_count P rs"
  by (induction rs) (auto simp: sql_count_def sql_update_def le_SucI)

lemma sql_count_update_Suc:
  assumes "distinct (map k rs)"
  shows "sql_count P (sql_update (\<lambda>x. k x = c) f rs) \<le> Suc (sql_count P rs)"
  using assms
proof (induction rs)
  case (Cons r rs)
  show ?case
  proof (cases "k r = c")
    case True
    with Cons.prems have "sql_update (\<lambda>x. k x = c) f rs = rs"
      by (intro sql_update_none) (metis distinct.simps(2) image_eqI list.map(2) list.set_map)
    with True show ?thesis by (auto simp: sql_count_def sql_update_def)
  next
    case False
    with Cons show ?thesis by (auto simp: sql_count_def sql_update_def)
  qed
qed (simp add: sql_count_def sql_update_def)

lemma quiet_active: "quiet e \<Longrightarrow> enabled e r \<Longrightarrow> active (j_state (effect_row e r)) \<Longrightarrow> active (j_state r)"
  by (cases e; cases "j_state r")
    (auto simp: row_effects state_defs fail_state_def recover_state_def split: if_splits)

lemma quiet_step_count:
  assumes "quiet_step a b" "queue_inv a"
  shows "active_count ws q b \<le> active_count ws q a"
  using assms(1) unfolding quiet_step_def effect_step_def
proof (elim disjE exE conjE)
  fix e r
  assume e: "quiet e" and p: "performs a e r b"
  have "x = r" if "x \<in> set (jobs a)" "j_id x = j_id r" for x
    using that queue_inv_unique [OF assms(2)] p by (auto simp: performs_def)
  then have "sql_count (\<lambda>r. j_workspace r = ws \<and> j_queue r = q \<and> active (j_state r))
      (sql_update (\<lambda>x. j_id x = j_id r) (effect_row e) (jobs a))
    \<le> sql_count (\<lambda>r. j_workspace r = ws \<and> j_queue r = q \<and> active (j_state r)) (jobs a)"
    using e p by (intro sql_count_update_le) (auto simp: performs_def dest: quiet_active)
  then show ?thesis using p by (simp add: active_count_def performs_def apply_effect_jobs)
next
  fix r
  assume "insert_job r a = Some (b, 1)" "j_state r = StateQueued"
  then show ?thesis
    using insert_job_new(5) [of r a b] by (simp add: active_count_def sql_count_def active_def)
qed

lemma quiet_steps_count:
  assumes "quiet_step\<^sup>*\<^sup>* a b" "queue_inv a"
  shows "active_count ws q b \<le> active_count ws q a"
proof -
  have "queue_inv b \<and> active_count ws q b \<le> active_count ws q a"
    using assms(1)
  proof (induction rule: rtranclp_induct)
    case (step y z)
    then have "machine_step\<^sup>*\<^sup>* y z" by (intro quiet_steps_machine r_into_rtranclp)
    then have "queue_inv z" using machine_steps_induct [of y z "\<lambda>_. True"] step.IH by simp
    with step.IH quiet_step_count [OF step.hyps(2), of ws q] show ?case by simp
  qed (simp add: assms)
  then show ?thesis by simp
qed

lemma lease_count:
  assumes "performs db (Leasing now ow h d) r db'" "queue_inv db"
  shows "active_count ws q db' \<le> active_count ws q db + (if ws = j_workspace r \<and> q = j_queue r then 1 else 0)"
proof (cases "ws = j_workspace r \<and> q = j_queue r")
  case True
  have "distinct (map j_id (jobs db))" using assms(2) by (simp add: queue_inv_def)
  from sql_count_update_Suc [OF this] True assms(1) show ?thesis
    by (simp add: active_count_def performs_def apply_effect_jobs)
next
  case False
  have "x = r" if "x \<in> set (jobs db)" "j_id x = j_id r" for x
    using that queue_inv_unique [OF assms(2)] assms(1) by (auto simp: performs_def)
  then have "sql_count (\<lambda>r. j_workspace r = ws \<and> j_queue r = q \<and> active (j_state r))
      (sql_update (\<lambda>x. j_id x = j_id r) (effect_row (Leasing now ow h d)) (jobs db))
    \<le> sql_count (\<lambda>r. j_workspace r = ws \<and> j_queue r = q \<and> active (j_state r)) (jobs db)"
    using False by (intro sql_count_update_le) (auto simp: leased_row_def)
  then show ?thesis using assms(1) by (simp add: active_count_def performs_def apply_effect_jobs)
qed

lemma queue_step_cap:
  assumes "queue_step sha cap db db'" "queue_inv db" "digest32 sha"
    "\<forall>ws q. int (active_count ws q db) \<le> max 0 cap"
  shows "int (active_count ws q db') \<le> max 0 cap"
  using assms(1-3)
proof (cases rule: queue_step_split)
  case none
  from quiet_steps_count [OF none assms(2), of ws q] assms(4) show ?thesis
    by (meson of_nat_mono order_trans)
next
  case (lease env rnd q' owner d res r token)
  have "int (active_count (j_workspace r) (j_queue r) db) < cap"
    using candidate_Some(2) [OF lease(2)] unfolding eligible_def by blast
  with lease_count [OF lease(4) assms(2), of ws q] assms(4) show ?thesis
    by (cases "ws = j_workspace r \<and> q = j_queue r") (auto simp: max_def split: if_splits,
        (metis of_nat_mono order_trans)+)
qed

section \<open>Tokens\<close>

lemma effect_token_source:
  "enabled e r \<Longrightarrow> j_token_hash (effect_row e r) = Some h \<Longrightarrow>
     j_token_hash r = Some h \<or> (\<exists>now ow d. e = Leasing now ow h d)"
  by (cases e) (auto simp: row_effects)

lemma quiet_steps_token:
  assumes "quiet_step\<^sup>*\<^sup>* a b" "queue_inv a" "job_at a i = Some r" "j_token_hash r \<noteq> Some h"
  shows "\<exists>r'. job_at b i = Some r' \<and> j_token_hash r' \<noteq> Some h"
proof -
  have "queue_inv b \<and> (\<exists>r'. job_at b i = Some r' \<and> j_token_hash r' \<noteq> Some h)"
    using assms(1)
  proof (induction rule: rtranclp_induct)
    case (step y z)
    then obtain r' where r': "job_at y i = Some r'" "j_token_hash r' \<noteq> Some h" by blast
    have m: "machine_step\<^sup>*\<^sup>* y z" using step.hyps(2) by (intro quiet_steps_machine r_into_rtranclp)
    have inv: "queue_inv y" "queue_inv z"
      using step.IH machine_steps_induct [OF m, of "\<lambda>_. True"] by auto
    from step.hyps(2) have "\<exists>r'. job_at z i = Some r' \<and> j_token_hash r' \<noteq> Some h"
      unfolding quiet_step_def effect_step_def
    proof (elim disjE exE conjE)
      fix e x
      assume e: "quiet e" and p: "performs y e x z"
      have r: "r' \<in> set (jobs y)" "j_id r' = i" using r'(1) by (auto simp: job_at_Some inv(1))
      show ?thesis
      proof (cases "x = r'")
        case True
        with performs_row(2) [OF p inv(1)] effect_token_source [of e r' h] e p r r'(2) show ?thesis
          by (auto simp: performs_def)
      next
        case False
        with performs_row(3) [OF p inv(1), of r'] r r'(2) show ?thesis by auto
      qed
    next
      fix x
      assume "insert_job x y = Some (z, 1)"
      from insert_job_new(5) [OF this] r'(1) have "r' \<in> set (jobs z)" "j_id r' = i"
        by (auto simp: job_at_Some [OF inv(1)])
      then have "job_at z i = Some r'" by (simp add: job_at_Some [OF inv(2)])
      with r'(2) show ?thesis by blast
    qed
    with inv show ?case by blast
  qed (use assms in blast)
  then show ?thesis by blast
qed

section \<open>Properties\<close>

text \<open>C1: every state the queue reaches, from an empty queue by any sequence of calls with any
  arguments and any database faults, satisfies the schema's constraints and keys, and each job's
  attempts are numbered 1, 2, ... up to its attempt count with exactly the last one open while the
  job is leased or running.\<close>

theorem queue_reach_well_formed:
  assumes "digest32 sha" "queue_reach sha cap ws db"
  shows "queue_inv db"
  using queue_reach_inv [OF assms(2,1)] .

text \<open>C2: the queue refines the lease machine: on a well-formed database every call is a finite
  sequence of machine steps, each the arrival of a queued job or an enabled effect on one job.\<close>

theorem queue_refines_machine:
  assumes "digest32 sha" "queue_inv db" "queue_step sha cap db db'"
  shows "machine_step\<^sup>*\<^sup>* db db'"
  using queue_step_refines [OF assms(3,2,1)] .

lemma demo_start:
  "Start toy_sha (quiet_env (50 * second)) ''ws1'' ''job_1'' demo_token (demo_db StateLeased)
   = (apply_effect (Starting (50 * second)) (demo_row StateLeased) (demo_db StateLeased), Inr ())"
  by code_simp

theorem queue_refines_machine_witness:
  "machine_step\<^sup>*\<^sup>* (demo_db StateLeased)
     (apply_effect (Starting (50 * second)) (demo_row StateLeased) (demo_db StateLeased))"
  by (rule queue_refines_machine [OF digest32_toy demo_leased_inv, of 2])
    (rule queue_step.start [OF demo_start])

text \<open>C3: a terminal job is final: once succeeded, dead-lettered or cancelled, neither its row nor
  its attempts are changed by any call.\<close>

theorem terminal_jobs_final:
  assumes "digest32 sha" "queue_inv db" "queue_step sha cap db db'"
    "job_at db i = Some r" "terminal (j_state r)"
  shows "job_at db' i = Some r \<and> attempts_of i db' = attempts_of i db"
  using machine_steps_terminal [OF queue_step_refines [OF assms(3,2,1)] assms(2,4,5)] .

definition demo_done :: "queue_db" where
  "demo_done = apply_effect (Finishing (60 * second) StateSucceeded) (demo_row StateRunning) (demo_db StateRunning)"

lemma demo_done_inv: "queue_inv demo_done"
  by code_simp

lemma demo_done_cancel:
  "RequestCancellation (quiet_env (70 * second)) ''ws1'' ''job_1'' demo_done = (demo_done, Inl ErrNotCancellable)"
  by code_simp

lemma demo_done_row:
  "job_at demo_done ''job_1'' =
     Some (effect_row (Finishing (60 * second) StateSucceeded) (demo_row StateRunning))"
  by code_simp

theorem terminal_jobs_final_witness:
  "job_at demo_done ''job_1'' = Some (effect_row (Finishing (60 * second) StateSucceeded) (demo_row StateRunning))"
  using terminal_jobs_final [OF digest32_toy demo_done_inv, of 2 demo_done "''job_1''"]
    queue_step.request_cancel [OF demo_done_cancel] demo_done_row
  by (simp add: terminal_def)

text \<open>C4: stale workers are fenced: when no row carries the caller's token digest in an unexpired
  lease, every lease mutation reports an error and changes nothing.\<close>

theorem stale_lease_fenced:
  assumes "queue_inv db" "\<not> (\<exists>r\<in>set (jobs db). holds (db_now env) ws i (sha token) r)"
  shows "(\<exists>e. Start sha env ws i token db = (db, Inl e)) \<and>
    (\<exists>e. Heartbeat sha env ws i token d db = (db, Inl e)) \<and>
    (\<exists>e. Succeed sha env ws i token db = (db, Inl e)) \<and>
    (\<exists>e. CancelActive sha env ws i token db = (db, Inl e)) \<and>
    (\<exists>e. Fail sha env ws i token f t db = (db, Inl e)) \<and>
    (\<exists>e. SucceedTx sha env ws i token db = Inl e)"
proof (intro conjI)
  have no: "\<not> (\<exists>r. holds (db_now env) ws i (sha token) r \<and> performs db e r db')" for e db'
    using assms(2) by (auto simp: performs_def)
  obtain db1 r1 where 1: "Start sha env ws i token db = (db1, r1)" by fastforce
  show "\<exists>e. Start sha env ws i token db = (db, Inl e)" using Start_effect [OF 1 assms(1)] no 1 by auto
  obtain db2 r2 where 2: "Heartbeat sha env ws i token d db = (db2, r2)" by fastforce
  show "\<exists>e. Heartbeat sha env ws i token d db = (db, Inl e)"
    using Heartbeat_effect [OF 2 assms(1)] no 2 by auto
  have fin: "\<exists>e. finish sha env ws i token s db = (db, Inl e)" for s
  proof -
    obtain db3 r3 where 3: "finish sha env ws i token s db = (db3, r3)" by fastforce
    show ?thesis using finish_effect [OF 3 assms(1)] no 3 by auto
  qed
  show "\<exists>e. Succeed sha env ws i token db = (db, Inl e)" "\<exists>e. CancelActive sha env ws i token db = (db, Inl e)"
    using fin by (simp_all add: Succeed_def CancelActive_def)
  obtain db4 r4 where 4: "Fail sha env ws i token f t db = (db4, r4)" by fastforce
  show "\<exists>e. Fail sha env ws i token f t db = (db, Inl e)" using Fail_effect [OF 4 assms(1)] no 4 by blast
  show "\<exists>e. SucceedTx sha env ws i token db = Inl e"
  proof (cases "SucceedTx sha env ws i token db")
    case (Inr db5)
    with finishTx_effect [OF Inr [unfolded SucceedTx_def] assms(1)] no show ?thesis by blast
  qed blast
qed

theorem stale_lease_fenced_witness:
  "\<exists>e. Succeed toy_sha (quiet_env (100 * second)) ''ws1'' ''job_1'' demo_token (demo_db StateRunning)
     = (demo_db StateRunning, Inl e)"
proof -
  have "\<not> (\<exists>r\<in>set (jobs (demo_db StateRunning)).
      holds (db_now (quiet_env (100 * second))) ''ws1'' ''job_1'' (toy_sha demo_token) r)"
    by code_simp
  from stale_lease_fenced [where sha = toy_sha and token = demo_token and env = "quiet_env (100 * second)",
      OF demo_running_inv this] show ?thesis by blast
qed

text \<open>A lost lease stays lost: if a job's row does not carry a digest before a call and does
  after it, the call was an \<open>Acquire\<close> whose freshly drawn token has that digest.\<close>

theorem lost_lease_stays_lost:
  assumes "digest32 sha" "queue_inv db" "queue_step sha cap db db'"
    "job_at db i = Some r" "j_token_hash r \<noteq> Some h" "job_at db' i = Some r'" "j_token_hash r' = Some h"
  shows "\<exists>env rnd q owner d res token. Acquire sha env rnd q owner d cap db = (db', res) \<and>
    randomID ''lease_'' 32 rnd = Inr token \<and> sha token = h"
  using assms(3,2,1)
proof (cases rule: queue_step_split)
  case none
  from quiet_steps_token [OF none assms(2,4,5)] assms(6,7) show ?thesis by auto
next
  case (lease env rnd q owner d res x token)
  have r: "r \<in> set (jobs db)" "j_id r = i" using assms(4) by (auto simp: job_at_Some [OF assms(2)])
  show ?thesis
  proof (cases "x = r")
    case True
    with performs_row(2) [OF lease(4) assms(2)] r assms(6,7) have "sha token = h"
      by (simp add: leased_row_def)
    with lease show ?thesis by blast
  next
    case False
    with performs_row(3) [OF lease(4) assms(2), of r] r assms(5,6,7) show ?thesis by auto
  qed
qed

definition demo_leased :: "queue_db" where
  "demo_leased = apply_effect (Leasing (50 * second) ''worker-0'' (toy_sha demo_token) (60 * second))
     (demo_row StateQueued) (demo_db StateQueued)"

lemma demo_acquire:
  "Acquire toy_sha (quiet_env (50 * second)) (Some []) ''imports'' ''worker-0'' (60 * second) 2 (demo_db StateQueued)
   = (demo_leased, Inr (Some \<lparr>leaseJob = scanJob (leased_row (50 * second) ''worker-0'' (toy_sha demo_token)
        (60 * second) (demo_row StateQueued)), leaseToken = demo_token\<rparr>))"
  by code_simp

lemma demo_rows:
  "job_at (demo_db StateQueued) ''job_1'' = Some (demo_row StateQueued)"
  "job_at demo_leased ''job_1'' =
     Some (leased_row (50 * second) ''worker-0'' (toy_sha demo_token) (60 * second) (demo_row StateQueued))"
  by code_simp+

theorem lost_lease_stays_lost_witness:
  "\<exists>env rnd q owner d res token. Acquire toy_sha env rnd q owner d 2 (demo_db StateQueued) = (demo_leased, res) \<and>
    randomID ''lease_'' 32 rnd = Inr token \<and> toy_sha token = toy_sha demo_token"
  by (rule lost_lease_stays_lost [OF digest32_toy demo_queued_inv queue_step.acquire [OF demo_acquire]
        demo_rows(1) _ demo_rows(2)]) (simp_all add: demo_row_def active_def leased_row_def)

text \<open>C6: the per-workspace in-flight limit holds in every reachable state when every worker acquires
  with the same limit.\<close>

theorem in_flight_limit:
  assumes "digest32 sha" "queue_reach sha cap ws0 db"
  shows "int (active_count ws q db) \<le> max 0 cap"
proof -
  have "\<forall>ws q. int (active_count ws q db) \<le> max 0 cap"
    using assms(2)
  proof (induction rule: queue_reach.induct)
    case init
    then show ?case by (simp add: active_count_def empty_queue_def sql_count_def)
  next
    case (step db db')
    then show ?case using queue_step_cap queue_reach_inv assms(1) by blast
  qed
  then show ?thesis by blast
qed



text \<open>C8: cancellation intent wins: in every reachable state a job with a recorded cancellation
  request is either still leased or running, or cancelled; it never becomes succeeded, dead-lettered
  or runnable again.\<close>

theorem cancellation_intent_wins:
  assumes "digest32 sha" "queue_reach sha cap ws db" "r \<in> set (jobs db)" "j_cancel_at r \<noteq> None"
  shows "active (j_state r) \<or> j_state r = StateCancelled"
proof -
  have "\<forall>r\<in>set (jobs db). cancel_inv r"
    using assms(2)
  proof (induction rule: queue_reach.induct)
    case init
    then show ?case by (simp add: empty_queue_def)
  next
    case (step a b)
    have inv: "queue_inv a" using queue_reach_inv [OF step.hyps(1) assms(1)] .
    have "queue_inv b \<and> (\<forall>r\<in>set (jobs b). cancel_inv r)"
    proof (rule machine_steps_induct [OF queue_step_refines [OF step.hyps(2) inv assms(1)] inv])
      fix x y
      assume "machine_step x y" "queue_inv x" "\<forall>r\<in>set (jobs x). cancel_inv r"
      then show "\<forall>r\<in>set (jobs y). cancel_inv r"
        by (rule machine_step_rows) (erule (1) effect_cancel_inv, simp add: cancel_inv_def)
    qed (rule step.IH)
    then show ?case by blast
  qed
  with assms(3,4) show ?thesis by (auto simp: cancel_inv_def)
qed

definition demo_spec :: "Spec" where
  "demo_spec =
     \<lparr>specWorkspaceID = ''ws1'', specOperationID = [], specInitiatingPrincipalID = ''usr1'',
      specSystemCapability = ''import.process'', specQueue = ''imports'', specKind = ''import.process'',
      specSchemaVersion = 1, specPayload = ''{}'', specIdempotencyKey = ''k1'', specPriority = 0,
      specAvailableAt = 0, specMaxAttempts = 3\<rparr>"

lemma parse_empty_object: "json_parse ''{}'' = Some (JObj [])"
  using json_parse_marshal [of "JObj []"] by (simp add: marshal_obj wf_obj jdepth_obj max_nesting_def)

lemma demo_spec_valid: "validateSpec demo_spec"
proof -
  have "validateOpaqueID ''ws1''" "validateOpaqueID ''usr1''" "pat_ident capability_char 127 ''import.process''"
    "validName ''imports''" "validName ''import.process''" "pat_run key_char 1 128 ''k1''"
    by code_simp+
  moreover have "json_valid ''{}''"
    by (simp add: json_valid_def parse_empty_object)
  ultimately show ?thesis by (simp add: validateSpec_def demo_spec_def maxPayloadBytes_def)
qed

definition demo_fp :: "string" where
  "demo_fp = toy_sha (fingerprintInput demo_spec ''{}'')"

lemma demo_fingerprint: "fingerprintSpec toy_sha demo_spec = Inr (''{}'', demo_fp)"
proof -
  have "json_parse (specPayload demo_spec) = Some (JObj [])"
    by (simp add: demo_spec_def parse_empty_object)
  then show ?thesis
    by (simp add: fingerprintSpec_def demo_spec_valid map_of_members_def marshal_obj maxPayloadBytes_def demo_fp_def Let_def)
qed

definition demo_job :: "string \<Rightarrow> gotime \<Rightarrow> job_row" where
  "demo_job i t = new_job_row (quiet_env t) i demo_spec ''{}'' demo_fp"

lemma demo_job_ok: "job_row_ok (demo_job i t)"
proof -
  have "length demo_fp = 32" using digest32_toy by (simp add: demo_fp_def digest32_def)
  moreover have "in_length 3 128 ''usr1''" "pat_ident capability_char 127 ''import.process''"
    "pat_ident name_char 127 ''imports''" "pat_ident name_char 127 ''import.process''" "pat_run key_char 1 128 ''k1''"
    by code_simp+
  ultimately show ?thesis
    by (simp add: demo_job_def new_job_row_def demo_spec_def job_row_ok_def jobs_request_valid_def
        jobs_attempts_valid_def jobs_lease_fields_consistent_def jobs_error_fields_known_def state_defs)
qed

definition demo_id :: "string" where
  "demo_id = ''job_'' @ replicate 32 CHR ''a''"

lemma demo_random: "randomID ''job_'' 20 (Some []) = Inr demo_id" "randomID ''lease_'' 32 (Some []) = Inr demo_token"
  by code_simp+

definition demo_enqueued :: "gotime \<Rightarrow> queue_db" where
  "demo_enqueued t = \<lparr>workspaces = [''ws1''], jobs = [demo_job demo_id t], job_attempts = []\<rparr>"

lemma demo_enqueue:
  "enqueue toy_sha Some (quiet_env t) (Some []) demo_spec (empty_queue [''ws1''])
   = (demo_enqueued t, Inr (scanJob (demo_job demo_id t), True))"
proof -
  have key: "idempotency_key (demo_job demo_id t) = spec_key demo_spec"
    by (simp add: demo_job_def new_job_row_def idempotency_key_def spec_key_def)
  have ins: "insert_job (demo_job demo_id t) (empty_queue [''ws1'']) = Some (demo_enqueued t, 1)"
    using demo_job_ok by (simp add: insert_job_def empty_queue_def demo_enqueued_def demo_job_def new_job_row_def demo_spec_def)
  have texts: "list_all db_text [specWorkspaceID demo_spec, specOperationID demo_spec, specInitiatingPrincipalID demo_spec]"
    by code_simp
  have "byIdempotencyKey (quiet_env t) demo_spec (demo_enqueued t) = Inr (scanJob (demo_job demo_id t))"
    by (simp add: byIdempotencyKey_def demo_enqueued_def sql_row_def key)
  with ins texts show ?thesis
    by (simp add: enqueue_def demo_fingerprint demo_random stmt_fault_def del: list.pred_inject
        flip: demo_job_def)
qed

lemma demo_cancel_queued:
  "\<exists>db r. RequestCancellation (quiet_env (2 * second)) ''ws1'' demo_id (demo_enqueued second) = (db, Inr StateCancelled) \<and>
     r \<in> set (jobs db) \<and> j_cancel_at r \<noteq> None"
proof -
  have v: "validateResourceIdentity ''ws1'' demo_id" "db_text ''ws1''" "db_text demo_id"
    by code_simp+
  have c: "cancellable ''ws1'' demo_id (demo_job demo_id second)"
    by (simp add: cancellable_def demo_job_def new_job_row_def demo_spec_def terminal_def)
  from v c show ?thesis
    by (simp add: RequestCancellation_def demo_enqueued_def sql_row_def sql_update_def cancel_row_def
        coalesce_def demo_job_def new_job_row_def waiting_def)
qed

theorem cancellation_intent_wins_witness:
  "\<exists>db r. queue_reach toy_sha 2 [''ws1''] db \<and> r \<in> set (jobs db) \<and> j_cancel_at r \<noteq> None \<and>
     (active (j_state r) \<or> j_state r = StateCancelled)"
proof -
  obtain db r where db: "RequestCancellation (quiet_env (2 * second)) ''ws1'' demo_id (demo_enqueued second) = (db, Inr StateCancelled)"
    and r: "r \<in> set (jobs db)" "j_cancel_at r \<noteq> None"
    using demo_cancel_queued by blast
  have "queue_reach toy_sha 2 [''ws1''] (demo_enqueued second)"
    by (rule queue_reach.step [OF queue_reach.init queue_step.enqueue [OF demo_enqueue]])
  then have "queue_reach toy_sha 2 [''ws1''] db"
    by (rule queue_reach.step [OF _ queue_step.request_cancel [OF db]])
  with cancellation_intent_wins [OF digest32_toy this r] r show ?thesis by blast
qed

section \<open>Idempotent submission\<close>

lemma new_job_row_ok_env: "job_row_ok (new_job_row env i sp p fp) \<longleftrightarrow> job_row_ok (new_job_row env' i' sp p fp)"
  by (simp add: job_row_ok_def jobs_request_valid_def jobs_attempts_valid_def jobs_lease_fields_consistent_def
      jobs_error_fields_known_def new_job_row_def state_defs)

lemma new_job_row_key: "idempotency_key (new_job_row env i sp p fp) = spec_key sp"
  by (simp add: idempotency_key_def spec_key_def new_job_row_def)

lemma key_row:
  assumes "queue_inv db" "r \<in> set (jobs db)" "idempotency_key r = spec_key sp"
  shows "sql_row (\<lambda>r. idempotency_key r = spec_key sp) (jobs db) = Some r"
  using assms distinct_key_unique [of idempotency_key "jobs db"]
  by (intro sql_row_unique) (auto simp: queue_inv_def)

lemma enqueue_created:
  assumes "enqueue sha jsonb env rnd sp db = (db1, Inr (job, True))"
  obtains i payload p fp where "fingerprintSpec sha sp = Inr (payload, fp)" "jsonb payload = Some p"
    "insert_job (new_job_row env i sp p fp) db = Some (db1, 1)"
    "list_all db_text [specWorkspaceID sp, specOperationID sp, specInitiatingPrincipalID sp]"
    "byIdempotencyKey env sp db1 = Inr job"
  using assms
  by (auto simp: enqueue_def stmt_fault_def bind_eq_Some_conv
      split: sum.splits option.splits if_splits prod.splits)

lemma enqueue_existing:
  assumes "queue_inv db" "r \<in> set (jobs db)" "idempotency_key r = spec_key sp"
    "fingerprintSpec sha sp = Inr (payload, fp)" "jsonb payload = Some p"
    "job_row_ok (new_job_row env0 i0 sp p fp)" "calm env"
    "list_all db_text [specWorkspaceID sp, specOperationID sp, specInitiatingPrincipalID sp]"
  shows "enqueue sha jsonb env (Some bs) sp db =
    (db, if j_fingerprint r = fp then Inr (scanJob r, False) else Inl ErrConflict)"
proof -
  obtain i where i: "randomID ''job_'' 20 (Some bs) = Inr i" by (simp add: randomID_def)
  have "insert_job (new_job_row env i sp p fp) db = Some (db, 0)"
    using assms(2,3,6) new_job_row_ok_env [of env i sp p fp env0 i0]
    by (auto simp: insert_job_def new_job_row_key intro: rev_image_eqI)
  moreover have "byIdempotencyKey env sp db = Inr (scanJob r)"
    using key_row [OF assms(1-3)] assms(7) by (simp add: byIdempotencyKey_def calm_def)
  moreover have "db_fault env m = None" for m using assms(7) by (simp add: calm_def)
  ultimately show ?thesis
    using assms(4,5,8) i by (simp add: enqueue_def stmt_fault_def scanJob_def)
qed

text \<open>C9: submission is idempotent: after a job has been created, whatever the queue did in between,
  submitting the same specification again changes nothing and returns the same job as not newly
  created.\<close>

theorem enqueue_idempotent:
  assumes "digest32 sha" "queue_inv db" "enqueue sha jsonb env rnd sp db = (db1, Inr (job, True))"
    "(queue_step sha cap)\<^sup>*\<^sup>* db1 db2" "calm env2"
  shows "\<exists>job2. enqueue sha jsonb env2 (Some bs) sp db2 = (db2, Inr (job2, False)) \<and>
    jobID job2 = jobID job \<and> requestFingerprint job2 = requestFingerprint job"
proof -
  from assms(3) obtain i payload p fp where e: "fingerprintSpec sha sp = Inr (payload, fp)" "jsonb payload = Some p"
    "insert_job (new_job_row env i sp p fp) db = Some (db1, 1)"
    "list_all db_text [specWorkspaceID sp, specOperationID sp, specInitiatingPrincipalID sp]"
    "byIdempotencyKey env sp db1 = Inr job" by (rule enqueue_created)
  let ?r = "new_job_row env i sp p fp"
  have inv1: "queue_inv db1" by (rule insert_job_inv [OF e(3) assms(2)]) (simp add: new_job_row_def)
  have r1: "?r \<in> set (jobs db1)" using insert_job_new(5) [OF e(3)] by simp
  have job: "job = scanJob ?r"
    using e(5) key_row [OF inv1 r1 new_job_row_key] by (auto simp: byIdempotencyKey_def split: option.splits)
  have m: "machine_step\<^sup>*\<^sup>* db1 db2 \<and> queue_inv db2"
    using assms(4)
  proof (induction rule: rtranclp_induct)
    case (step y z)
    then have "machine_step\<^sup>*\<^sup>* y z" "queue_inv z"
      using queue_step_refines queue_step_inv assms(1) by blast+
    with step.IH show ?case by auto
  qed (simp add: inv1)
  have "job_at db1 i = Some ?r" using r1 by (simp add: job_at_Some [OF inv1] new_job_row_def)
  from machine_steps_request [OF conjunct1 [OF m] inv1 this] obtain r2
    where r2: "job_at db2 i = Some r2" "same_request ?r r2" by blast
  have mem: "r2 \<in> set (jobs db2)" "idempotency_key r2 = spec_key sp" "j_fingerprint r2 = fp"
    using r2 m new_job_row_key [of env i sp p fp] by (auto simp: job_at_Some same_request_def new_job_row_def)
  from enqueue_existing [where env = env2 and bs = bs and jsonb = jsonb,
      OF conjunct2 [OF m] mem(1,2) e(1,2) insert_job_new(1) [OF e(3)] assms(5) e(4)] mem(3)
  have "enqueue sha jsonb env2 (Some bs) sp db2 = (db2, Inr (scanJob r2, False))" by simp
  with r2 job show ?thesis by (auto simp: scanJob_def same_request_def new_job_row_def)
qed

theorem enqueue_idempotent_witness:
  "\<exists>job2. enqueue toy_sha Some (quiet_env (9 * second)) (Some ''x'') demo_spec (demo_enqueued second)
     = (demo_enqueued second, Inr (job2, False)) \<and> jobID job2 = demo_id"
  using enqueue_idempotent [OF digest32_toy queue_inv_empty demo_enqueue [of second], of 2 "demo_enqueued second"
      "quiet_env (9 * second)" "''x''"]
  by (auto simp: scanJob_def demo_job_def new_job_row_def)

text \<open>Reusing an idempotency key for a different request is refused: when a job with the key
  exists under another request fingerprint, submission reports \<open>ErrConflict\<close> and changes nothing.\<close>

theorem enqueue_conflict:
  assumes "queue_inv db" "r \<in> set (jobs db)" "idempotency_key r = spec_key sp"
    "fingerprintSpec sha sp = Inr (payload, fp)" "j_fingerprint r \<noteq> fp"
    "jsonb payload = Some p" "job_row_ok (new_job_row env i sp p fp)" "calm env"
    "list_all db_text [specWorkspaceID sp, specOperationID sp, specInitiatingPrincipalID sp]"
  shows "enqueue sha jsonb env (Some bs) sp db = (db, Inl ErrConflict)"
  using enqueue_existing [where jsonb = jsonb and env = env and bs = bs, OF assms(1-4,6-9)] assms(5) by simp

theorem enqueue_conflict_witness:
  "enqueue toy_sha Some (quiet_env second) (Some []) demo_spec (demo_db StateQueued)
     = (demo_db StateQueued, Inl ErrConflict)"
proof (rule enqueue_conflict [where jsonb = Some, OF demo_queued_inv _ _ demo_fingerprint _ _
      demo_job_ok [unfolded demo_job_def]])
  show "demo_row StateQueued \<in> set (jobs (demo_db StateQueued))" by (simp add: demo_db_def)
  show "idempotency_key (demo_row StateQueued) = spec_key demo_spec"
    by (simp add: idempotency_key_def spec_key_def demo_row_def demo_spec_def)
  have "CHR ''{'' \<in> set demo_fp" by (simp add: demo_fp_def toy_sha_def fingerprintInput_def)
  moreover have "CHR ''{'' \<notin> set (j_fingerprint (demo_row StateQueued))" by (simp add: demo_row_def)
  ultimately show "j_fingerprint (demo_row StateQueued) \<noteq> demo_fp" by metis
  show "list_all db_text [specWorkspaceID demo_spec, specOperationID demo_spec, specInitiatingPrincipalID demo_spec]"
    by code_simp
qed simp_all

section \<open>Recovery\<close>





section \<open>Failure\<close>

text \<open>C12: a reported failure of a running job whose lease the caller holds leads, without database
  faults, to exactly one of three outcomes: cancelled if cancellation was requested; otherwise a
  retry at the given time if the failure is retryable and attempts remain (a missing retry time is
  refused); otherwise dead-lettered.  The lease is released, the failure code is recorded, and the
  attempt is closed with the matching outcome.\<close>

theorem fail_outcome:
  assumes "queue_inv db" "calm env" "r \<in> set (jobs db)" "holds (db_now env) ws i (sha token) r"
    "j_state r = StateRunning" "validateLeaseIdentity ws i token" "db_text ws" "db_text i"
    "failureClass f = ErrorRetryable \<or> failureClass f = ErrorPermanent" "validCode (failureCode f)"
  shows "Fail sha env ws i token f t db =
    (if j_cancel_at r = None \<and> failureClass f = ErrorRetryable \<and> j_attempts r < j_max_attempts r \<and> is_zero t
     then (db, Inl ErrInvalid)
     else (apply_effect (Failing (db_now env) f t) r db,
       Inr (if j_cancel_at r \<noteq> None then StateCancelled
            else if failureClass f = ErrorRetryable \<and> j_attempts r < j_max_attempts r then StateRetryWait
            else StateDeadLetter)))"
proof -
  let ?h = "sha token" and ?now = "db_now env"
  obtain s out where fs: "fail_state f r = (s, out)" by (cases "fail_state f r")
  have row: "sql_row (\<lambda>r. holds ?now ws i ?h r \<and> j_state r = StateRunning) (jobs db) = Some r"
    using assms(3-5) queue_inv_unique [OF assms(1)] by (intro sql_row_unique) (auto simp: holds_def)
  have eq: "db\<lparr>jobs := sql_update (\<lambda>x. j_workspace x = ws \<and> j_id x = i \<and> j_token_hash x = Some ?h)
          (failed_row ?now s f t) (jobs db),
        job_attempts := sql_update (attempt_is ws i (j_attempts r)) (failed_attempt ?now out (failureCode f))
          (job_attempts db)\<rparr> = apply_effect (Failing ?now f t) r db"
    by (rule id_update_effect [OF assms(1,3)]) (use holdsD [OF assms(4)] fs in auto)
  have "Fail sha env ws i token f t db =
      (if s = StateRetryWait \<and> is_zero t then (db, Inl ErrInvalid)
       else (apply_effect (Failing ?now f t) r db, Inr s))"
    using assms(2,6-10) unfolding Fail_def Let_def hashLeaseToken_def row
    by (auto simp: fs eq)
  with fs show ?thesis by (auto simp: fail_state_def split: if_splits)
qed

definition demo_failure :: "Failure" where
  "demo_failure = \<lparr>failureClass = ErrorRetryable, failureCode = ''timeout''\<rparr>"

theorem fail_outcome_witness:
  "snd (Fail toy_sha (quiet_env (50 * second)) ''ws1'' ''job_1'' demo_token demo_failure (60 * second) (demo_db StateRunning))
     = Inr StateRetryWait"
proof -
  have "demo_row StateRunning \<in> set (jobs (demo_db StateRunning))"
    "holds (db_now (quiet_env (50 * second))) ''ws1'' ''job_1'' (toy_sha demo_token) (demo_row StateRunning)"
    "j_state (demo_row StateRunning) = StateRunning" "validateLeaseIdentity ''ws1'' ''job_1'' demo_token"
    "db_text ''ws1''" "db_text ''job_1''" "failureClass demo_failure = ErrorRetryable \<or> failureClass demo_failure = ErrorPermanent"
    "validCode (failureCode demo_failure)"
    by code_simp+
  from fail_outcome [where sha = toy_sha and token = demo_token and env = "quiet_env (50 * second)",
      OF demo_running_inv _ this, of "60 * second"] show ?thesis
    by (simp add: demo_row_def demo_failure_def is_zero_def second_def)
qed

section \<open>Fingerprints\<close>

text \<open>The canonical payload is a fixed point: submitting the payload the fingerprint was computed
  from, instead of the caller's spelling of it, gives the same canonical payload and fingerprint.\<close>

theorem fingerprint_canonical:
  assumes "fingerprintSpec sha sp = Inr (payload, fp)"
  shows "fingerprintSpec sha (sp\<lparr>specPayload := payload\<rparr>) = Inr (payload, fp)"
proof -
  from assms obtain ms where v: "validateSpec sp" and ms: "json_parse (specPayload sp) = Some (JObj ms)"
    and p: "payload = marshal (canon (JObj ms))" "length payload \<le> maxPayloadBytes"
      "fp = sha (fingerprintInput sp payload)"
    by (auto simp: fingerprintSpec_def Let_def split: if_splits option.splits json.splits)
  from json_parse_wf [OF ms] have "wf_json (canon (JObj ms))" "jdepth (canon (JObj ms)) \<le> max_nesting"
    by (simp_all only: wf_canon jdepth_canon)
  then have parse: "json_parse payload = Some (canon (JObj ms))" by (simp only: p(1) json_parse_marshal)
  then have v': "validateSpec (sp\<lparr>specPayload := payload\<rparr>)"
    using v p by (auto simp: validateSpec_def json_valid_def marshal_obj)
  have "canon (canon (JObj ms)) = canon (JObj ms)" by (rule canon_idem)
  moreover obtain ms' where ms': "canon (JObj ms) = JObj ms'" by simp
  moreover have "fingerprintInput (sp\<lparr>specPayload := payload\<rparr>) payload = fingerprintInput sp payload"
    by (simp add: fingerprintInput_def)
  ultimately show ?thesis
    using v' parse p by (simp add: fingerprintSpec_def Let_def)
qed

theorem fingerprint_canonical_witness:
  "fingerprintSpec toy_sha (demo_spec\<lparr>specPayload := ''{}''\<rparr>) = Inr (''{}'', demo_fp)"
  using fingerprint_canonical [OF demo_fingerprint] .

section \<open>A reachable state with a leased job\<close>

definition demo_grant :: "string \<Rightarrow> queue_db \<times> (queue_error + Lease option)" where
  "demo_grant fp = Acquire toy_sha (quiet_env (50 * second)) (Some []) ''imports'' ''worker-0'' (60 * second) 2
     \<lparr>workspaces = [''ws1''], jobs = [new_job_row (quiet_env second) demo_id demo_spec ''{}'' fp], job_attempts = []\<rparr>"

lemma demo_grant_active:
  "active_count ''ws1'' ''imports'' (fst (demo_grant fp)) = 1 \<and> length (job_attempts (fst (demo_grant fp))) = 1"
  by code_simp

lemma demo_grant_reach: "queue_reach toy_sha 2 [''ws1''] (fst (demo_grant demo_fp))"
proof -
  have r: "queue_reach toy_sha 2 [''ws1''] (demo_enqueued second)"
    by (rule queue_reach.step [OF queue_reach.init queue_step.enqueue [OF demo_enqueue]])
  have "queue_step toy_sha 2 (demo_enqueued second) (fst (demo_grant demo_fp))"
    unfolding demo_grant_def demo_enqueued_def demo_job_def by (rule queue_step.acquire) (rule prod.collapse [symmetric])
  with r show ?thesis by (rule queue_reach.step)
qed

theorem queue_reach_well_formed_witness:
  "queue_inv (fst (demo_grant demo_fp)) \<and> length (job_attempts (fst (demo_grant demo_fp))) = 1"
  using queue_reach_well_formed [OF digest32_toy demo_grant_reach] demo_grant_active [of demo_fp] by blast

theorem in_flight_limit_witness:
  "active_count ''ws1'' ''imports'' (fst (demo_grant demo_fp)) = 1 \<and> int (active_count ''ws1'' ''imports'' (fst (demo_grant demo_fp))) \<le> max 0 2"
  using in_flight_limit [OF digest32_toy demo_grant_reach] demo_grant_active [of demo_fp] by blast

end
