(* ===== verification/Job_Worker.thy ===== *)
theory Job_Worker
  imports Job_Queue_Props
begin

text \<open>
  The package \<open>internal/jobqueue\<close>, file \<open>worker.go\<close>: the worker that leases jobs, heartbeats them
  while a handler runs, and reports the handler's outcome.  The Go interface \<open>queueBackend\<close> is the
  record \<open>queueBackend\<close> of state transformers; the worker is a client of it.  Concurrency is
  explicit: the heartbeats sent while the handler runs are a list of ticks, what the handler returned
  (or that it panicked), the clock, the random jitter and the context's error are parameters, and a
  slot's polling loop takes the list of its iterations.  The locales \<open>reporting_backend\<close>, \<open>slot_backend\<close>
  and \<open>lease_backend\<close> state what the worker relies on; they are interpreted on the queue of \<open>Job_Queue\<close> with
  arbitrary interference by other workers between calls.
\<close>

datatype OutcomeKind = OutcomeSucceeded | OutcomeRetryable | OutcomePermanent | OutcomeCancelled | OtherOutcome string

record Outcome =
  outcomeKind :: OutcomeKind
  outcomeCode :: string
  outcomeRetryAfter :: duration

record 's queueBackend =
  beAcquire :: "string \<Rightarrow> string \<Rightarrow> duration \<Rightarrow> int \<Rightarrow> 's \<Rightarrow> 's \<times> (queue_error + Lease option)"
  beStart :: "string \<Rightarrow> string \<Rightarrow> string \<Rightarrow> 's \<Rightarrow> 's \<times> (queue_error + unit)"
  beHeartbeat :: "string \<Rightarrow> string \<Rightarrow> string \<Rightarrow> duration \<Rightarrow> 's \<Rightarrow> 's \<times> (queue_error + unit)"
  beSucceed :: "string \<Rightarrow> string \<Rightarrow> string \<Rightarrow> 's \<Rightarrow> 's \<times> (queue_error + unit)"
  beFail :: "string \<Rightarrow> string \<Rightarrow> string \<Rightarrow> Failure \<Rightarrow> gotime \<Rightarrow> 's \<Rightarrow> 's \<times> (queue_error + State)"
  beCancelActive :: "string \<Rightarrow> string \<Rightarrow> string \<Rightarrow> 's \<Rightarrow> 's \<times> (queue_error + unit)"

record WorkerConfig =
  cfgQueue :: string
  cfgOwner :: string
  cfgConcurrency :: int
  cfgMaxInFlightPerWorkspace :: int
  cfgLeaseDuration :: duration
  cfgHeartbeatInterval :: duration
  cfgPollInterval :: duration
  cfgRetryMinimum :: duration
  cfgRetryMaximum :: duration
  cfgRetryMaximumAge :: duration

text \<open>\<open>NewWorker\<close>: the configuration and the handler registry it accepts; a registered \<open>nil\<close> handler
  is \<open>None\<close>.\<close>

definition config_valid :: "WorkerConfig \<Rightarrow> bool" where
  "config_valid c \<longleftrightarrow>
     validName (cfgQueue c) \<and> trimmed (cfgOwner c) \<and> cfgOwner c \<noteq> [] \<and> \<not> has_nul (cfgOwner c) \<and>
     length (cfgOwner c) \<le> 120 \<and> 0 < cfgConcurrency c \<and> cfgConcurrency c \<le> 128 \<and>
     0 < cfgMaxInFlightPerWorkspace c \<and> cfgMaxInFlightPerWorkspace c \<le> 100 \<and>
     minLease \<le> cfgLeaseDuration c \<and> cfgLeaseDuration c \<le> maxLease \<and>
     0 < cfgHeartbeatInterval c \<and> cfgHeartbeatInterval c < cfgLeaseDuration c \<and>
     0 < cfgPollInterval c \<and> 0 < cfgRetryMinimum c \<and> cfgRetryMinimum c \<le> cfgRetryMaximum c \<and>
     cfgRetryMaximum c \<le> cfgRetryMaximumAge c"

definition NewWorker ::
  "bool \<Rightarrow> WorkerConfig \<Rightarrow> (string \<times> 'h option) list \<Rightarrow> queue_error + (WorkerConfig \<times> (string \<times> 'h) list)" where
  "NewWorker hasQueue c handlers =
     (if \<not> hasQueue \<or> \<not> config_valid c then Inl ErrInvalid
      else if list_ex (\<lambda>(kind, h). \<not> validName kind \<or> h = None) handlers then Inl ErrInvalid
      else Inr (c, map (\<lambda>(kind, h). (kind, the h)) handlers))"

definition slot_owner :: "WorkerConfig \<Rightarrow> int \<Rightarrow> string" where
  "slot_owner c slot = cfgOwner c @ ''-'' @ itoa slot"

section \<open>Retry delays\<close>

function retry_loop :: "int \<Rightarrow> int \<Rightarrow> duration \<Rightarrow> duration \<Rightarrow> duration" where
  "retry_loop current attempt delay maximum =
     (if current < attempt \<and> delay < maximum then
        if delay > maximum div 2 then maximum
        else retry_loop (current + 1) attempt (wrap64 (delay * 2)) maximum
      else if delay > maximum then maximum
      else delay)"
  by pat_completeness auto
termination
  by (relation "measure (\<lambda>(current, attempt, _, _). nat (attempt - current))") auto

declare retry_loop.simps [simp del]

definition retryDelay :: "int \<Rightarrow> duration \<Rightarrow> duration \<Rightarrow> duration" where
  "retryDelay attempt minimum maximum =
     (if minimum \<le> 0 \<or> maximum \<le> 0 then 0 else retry_loop 1 attempt minimum maximum)"

text \<open>\<open>rnd bound\<close> is what \<open>rand.Int(rand.Reader, bound)\<close> returned, \<open>None\<close> on failure.\<close>

definition jitteredRetryDelay :: "(int \<Rightarrow> int option) \<Rightarrow> int \<Rightarrow> duration \<Rightarrow> duration \<Rightarrow> duration" where
  "jitteredRetryDelay rnd attempt minimum maximum =
     (let upper = retryDelay attempt minimum maximum in
      if upper \<le> 1 then upper
      else
        (let lower = upper div 2; spread = upper - lower in
         case rnd (wrap64 (spread + 1)) of
           None \<Rightarrow> upper
         | Some r \<Rightarrow> wrap64 (lower + r)))"

section \<open>Completion\<close>

text \<open>The call that reports an outcome.\<close>

datatype completion = CompleteSucceed | CompleteCancel | CompleteFail Failure gotime

definition invalid_outcome :: "completion" where
  "invalid_outcome = CompleteFail \<lparr>failureClass = ErrorPermanent, failureCode = ''invalid_handler_outcome''\<rparr> 0"

definition completion_of :: "WorkerConfig \<Rightarrow> (int \<Rightarrow> int option) \<Rightarrow> gotime \<Rightarrow> Job \<Rightarrow> Outcome \<Rightarrow> completion" where
  "completion_of c rnd now job out =
     (case outcomeKind out of
        OutcomeSucceeded \<Rightarrow> CompleteSucceed
      | OutcomeCancelled \<Rightarrow> CompleteCancel
      | OutcomeRetryable \<Rightarrow>
          if \<not> validCode (outcomeCode out) then invalid_outcome
          else
            (let remainingAge = wrap64 (cfgRetryMaximumAge c - time_sub now (jobCreatedAt job)) in
             if remainingAge \<le> 0
             then CompleteFail \<lparr>failureClass = ErrorPermanent, failureCode = outcomeCode out\<rparr> 0
             else
               (let d0 = jitteredRetryDelay rnd (jobAttemptCount job) (cfgRetryMinimum c) (cfgRetryMaximum c);
                    d1 = (if outcomeRetryAfter out > d0 then outcomeRetryAfter out else d0);
                    d2 = (if d1 > cfgRetryMaximum c then cfgRetryMaximum c else d1);
                    d3 = (if d2 > remainingAge then remainingAge else d2)
                in CompleteFail \<lparr>failureClass = ErrorRetryable, failureCode = outcomeCode out\<rparr> (now + d3)))
      | OutcomePermanent \<Rightarrow>
          if \<not> validCode (outcomeCode out) then invalid_outcome
          else CompleteFail \<lparr>failureClass = ErrorPermanent, failureCode = outcomeCode out\<rparr> 0
      | OtherOutcome _ \<Rightarrow> invalid_outcome)"

text \<open>\<open>callHandler\<close>: a panic is a retryable outcome.\<close>

definition callHandler :: "Outcome option \<Rightarrow> Outcome" where
  "callHandler result =
     (case result of
        Some out \<Rightarrow> out
      | None \<Rightarrow> \<lparr>outcomeKind = OutcomeRetryable, outcomeCode = ''handler_panic'', outcomeRetryAfter = 0\<rparr>)"

text \<open>The worker's error: one of the queue, or the context's.\<close>

datatype worker_error = QueueErr queue_error | ContextErr cause

definition wrap_unit :: "'s \<times> (queue_error + 'a) \<Rightarrow> 's \<times> (worker_error + unit)" where
  "wrap_unit p = (fst p, case snd p of Inl e \<Rightarrow> Inl (QueueErr e) | Inr _ \<Rightarrow> Inr ())"

text \<open>The heartbeat goroutine.  A tick is \<open>True\<close> when the handler's context was already done when the
  call returned, in which case an error is dropped.\<close>

fun heartbeats ::
  "'s queueBackend \<Rightarrow> WorkerConfig \<Rightarrow> Job \<Rightarrow> string \<Rightarrow> bool list \<Rightarrow> 's \<Rightarrow> 's \<times> queue_error option" where
  "heartbeats be c job token [] s = (s, None)"
| "heartbeats be c job token (late # ticks) s =
     (case beHeartbeat be (jobWorkspaceID job) (jobID job) token (cfgLeaseDuration c) s of
        (s', Inr _) \<Rightarrow> heartbeats be c job token ticks s'
      | (s', Inl e) \<Rightarrow> (s', if late then None else Some e))"

definition complete ::
  "'s queueBackend \<Rightarrow> Job \<Rightarrow> string \<Rightarrow> completion \<Rightarrow> 's \<Rightarrow> 's \<times> (worker_error + unit)" where
  "complete be job token cmp s =
     (case cmp of
        CompleteSucceed \<Rightarrow>
          (case beSucceed be (jobWorkspaceID job) (jobID job) token s of
             (s', Inl ErrCancellationRequested) \<Rightarrow>
               wrap_unit (beCancelActive be (jobWorkspaceID job) (jobID job) token s')
           | r \<Rightarrow> wrap_unit r)
      | CompleteCancel \<Rightarrow> wrap_unit (beCancelActive be (jobWorkspaceID job) (jobID job) token s)
      | CompleteFail f t \<Rightarrow> wrap_unit (beFail be (jobWorkspaceID job) (jobID job) token f t s))"

text \<open>What happened around one job: the heartbeat ticks, the handler's result, the context's error
  after the handler, the clock and the jitter.\<close>

record run =
  runTicks :: "bool list"
  runResult :: "Outcome option"
  runContextErr :: "cause option"
  runNow :: gotime
  runRandom :: "int \<Rightarrow> int option"

definition process ::
  "'s queueBackend \<Rightarrow> WorkerConfig \<Rightarrow> string list \<Rightarrow> run \<Rightarrow> Lease \<Rightarrow> 's \<Rightarrow> 's \<times> (worker_error + unit)" where
  "process be c kinds x lease s =
     (let job = leaseJob lease; token = leaseToken lease; ws = jobWorkspaceID job; i = jobID job in
      case beStart be ws i token s of
        (s1, Inl e) \<Rightarrow>
          if e = ErrCancellationRequested then wrap_unit (beCancelActive be ws i token s1)
          else (s1, Inl (QueueErr e))
      | (s1, Inr _) \<Rightarrow>
          if jobKind job \<notin> set kinds then
            wrap_unit (beFail be ws i token
              \<lparr>failureClass = ErrorPermanent, failureCode = ''unsupported_job_kind''\<rparr> 0 s1)
          else
            (case heartbeats be c job token (runTicks x) s1 of
               (s2, Some e) \<Rightarrow>
                 if e = ErrCancellationRequested then wrap_unit (beCancelActive be ws i token s2)
                 else (s2, Inl (QueueErr e))
             | (s2, None) \<Rightarrow>
                 (case runContextErr x of
                    Some ce \<Rightarrow> (s2, Inl (ContextErr ce))
                  | None \<Rightarrow>
                      complete be job token
                        (completion_of c (runRandom x) (runNow x) job (callHandler (runResult x))) s2)))"

text \<open>One slot's loop.  An iteration carries the run of the job it may lease, and what waiting for
  the poll interval returned; the loop ends with its first error, and \<open>None\<close> says that it was still
  running after the given iterations.\<close>

fun runSlot ::
  "'s queueBackend \<Rightarrow> WorkerConfig \<Rightarrow> string list \<Rightarrow> string \<Rightarrow> (run \<times> cause option) list \<Rightarrow> 's \<Rightarrow> 's \<times> worker_error option" where
  "runSlot be c kinds owner [] s = (s, None)"
| "runSlot be c kinds owner ((x, waited) # rest) s =
     (case beAcquire be (cfgQueue c) owner (cfgLeaseDuration c) (cfgMaxInFlightPerWorkspace c) s of
        (s1, Inl e) \<Rightarrow> (s1, Some (QueueErr e))
      | (s1, Inr None) \<Rightarrow>
          (case waited of Some ce \<Rightarrow> (s1, Some (ContextErr ce)) | None \<Rightarrow> runSlot be c kinds owner rest s1)
      | (s1, Inr (Some lease)) \<Rightarrow>
          (case process be c kinds x lease s1 of
             (s2, Inr _) \<Rightarrow> runSlot be c kinds owner rest s2
           | (s2, Inl e) \<Rightarrow>
               if e = QueueErr ErrLeaseLost then runSlot be c kinds owner rest s2 else (s2, Some e)))"

text \<open>\<open>Run\<close>: the slots' errors in the order they arrived, and the context's error.\<close>

definition canceled :: "worker_error \<Rightarrow> bool" where
  "canceled e \<longleftrightarrow> (case e of ContextErr ce \<Rightarrow> ce = Canceled | QueueErr (QueueDB _ ce) \<Rightarrow> ce = Canceled | _ \<Rightarrow> False)"

definition Run :: "worker_error option list \<Rightarrow> cause option \<Rightarrow> worker_error option" where
  "Run slots ctxErr =
     (case filter (\<lambda>e. \<not> canceled e) (List.map_filter id slots) of
        e # _ \<Rightarrow> Some e
      | [] \<Rightarrow> (if ctxErr = Some Canceled then None else map_option ContextErr ctxErr))"

section \<open>The retry delay is a capped power of two\<close>

lemma retry_loop_closed:
  "0 < delay \<Longrightarrow> delay \<le> 2 ^ 63 - 1 \<Longrightarrow> 0 < maximum \<Longrightarrow> maximum \<le> 2 ^ 63 - 1 \<Longrightarrow>
     retry_loop current attempt delay maximum = min maximum (delay * 2 ^ nat (attempt - current))"
proof (induction current attempt delay maximum rule: retry_loop.induct)
  case (1 current attempt delay maximum)
  show ?case
  proof (cases "current < attempt \<and> delay < maximum")
    case False
    define k where "k = delay * 2 ^ nat (attempt - current)"
    have "delay * 1 \<le> k" unfolding k_def using 1(2) by (intro mult_left_mono) auto
    then have "retry_loop current attempt delay maximum = min maximum k" if "delay \<ge> maximum \<or> k = delay"
      using False that by (subst retry_loop.simps) (auto simp: min_def)
    with False show ?thesis unfolding k_def by (cases "current < attempt") auto
  next
    case True
    then have e: "nat (attempt - current) = Suc (nat (attempt - (current + 1)))" by linarith
    show ?thesis
    proof (cases "delay > maximum div 2")
      case True': True
      have "2 * delay * 1 \<le> 2 * delay * 2 ^ nat (attempt - (current + 1))" using 1(2) by (intro mult_left_mono) auto
      with True' True show ?thesis by (subst retry_loop.simps) (auto simp: e min_def)
    next
      case False
      then have "wrap64 (delay * 2) = delay * 2" using 1(2,5) by (intro wrap64_id) (auto simp: in_int64_def)
      with 1(1) [OF True False] False True 1(2-5) show ?thesis by (subst retry_loop.simps) (auto simp: e ac_simps)
    qed
  qed
qed

lemma retryDelay_closed:
  "0 < mn \<Longrightarrow> mn \<le> mx \<Longrightarrow> in_int64 mx \<Longrightarrow> retryDelay attempt mn mx = min mx (mn * 2 ^ nat (attempt - 1))"
  by (simp add: retryDelay_def retry_loop_closed in_int64_def)

lemma retryDelay_range: "0 < mn \<Longrightarrow> mn \<le> mx \<Longrightarrow> in_int64 mx \<Longrightarrow> mn \<le> retryDelay attempt mn mx \<and> retryDelay attempt mn mx \<le> mx"
proof -
  assume a: "0 < mn" "mn \<le> mx" "in_int64 mx"
  have "mn * 1 \<le> mn * 2 ^ nat (attempt - 1)" using a(1) by (intro mult_left_mono) auto
  with a show ?thesis by (simp add: retryDelay_closed)
qed

text \<open>The contract of \<open>crypto/rand.Int\<close>: a value below the bound, or an error.\<close>

definition rand_below :: "(int \<Rightarrow> int option) \<Rightarrow> bool" where
  "rand_below rnd \<longleftrightarrow> (\<forall>b r. rnd b = Some r \<longrightarrow> 0 \<le> r \<and> r < b)"

lemma jittered_range:
  assumes "0 < mn" "mn \<le> mx" "in_int64 mx" "rand_below rnd"
  shows "retryDelay attempt mn mx div 2 \<le> jitteredRetryDelay rnd attempt mn mx"
    "jitteredRetryDelay rnd attempt mn mx \<le> retryDelay attempt mn mx"
proof -
  let ?u = "retryDelay attempt mn mx"
  have u: "0 < ?u" "?u \<le> 2 ^ 63 - 1"
    using retryDelay_range [OF assms(1-3), of attempt] assms(1,3) by (auto simp: in_int64_def)
  have w: "?u > 1 \<Longrightarrow> wrap64 (?u - ?u div 2 + 1) = ?u - ?u div 2 + 1"
    using u by (intro wrap64_id) (auto simp: in_int64_def)
  have a: "wrap64 (?u div 2 + r) = ?u div 2 + r" if "0 \<le> r" "r < ?u - ?u div 2 + 1" for r
    using u that by (intro wrap64_id) (auto simp: in_int64_def)
  have r: "0 \<le> r \<and> r < ?u - ?u div 2 + 1" if "rnd (?u - ?u div 2 + 1) = Some r" for r
    using assms(4) that unfolding rand_below_def by blast
  show "?u div 2 \<le> jitteredRetryDelay rnd attempt mn mx"
    "jitteredRetryDelay rnd attempt mn mx \<le> ?u"
    using u w a r by (auto simp: jitteredRetryDelay_def Let_def split: option.splits)
qed

section \<open>What the worker relies on\<close>

text \<open>A relation that every reporting call but \<open>Succeed\<close> respects.\<close>

locale reporting_backend =
  fixes be :: "'s queueBackend" and rel :: "'s \<Rightarrow> 's \<Rightarrow> bool"
  assumes rel_refl: "rel s s"
    and rel_trans: "rel s s1 \<Longrightarrow> rel s1 s2 \<Longrightarrow> rel s s2"
    and rel_start: "rel s (fst (beStart be ws i token s))"
    and rel_heartbeat: "rel s (fst (beHeartbeat be ws i token d s))"
    and rel_fail: "rel s (fst (beFail be ws i token f t s))"
    and rel_cancel: "rel s (fst (beCancelActive be ws i token s))"
begin

lemma rel_wrap [simp]: "fst (wrap_unit p) = fst p"
  by (simp add: wrap_unit_def)

lemma rel_heartbeats: "rel s (fst (heartbeats be c job token ticks s))"
proof (induction ticks arbitrary: s)
  case Nil
  show ?case by (simp add: rel_refl)
next
  case (Cons late ticks)
  obtain s' r where h: "beHeartbeat be (jobWorkspaceID job) (jobID job) token (cfgLeaseDuration c) s = (s', r)" by force
  then have "rel s s'" using rel_heartbeat [of s "jobWorkspaceID job" "jobID job" token "cfgLeaseDuration c"] by simp
  with h Cons [of s'] show ?case by (auto split: sum.splits intro: rel_trans)
qed

lemma rel_complete:
  assumes "cmp \<noteq> CompleteSucceed \<or> (\<forall>s ws i. rel s (fst (beSucceed be ws i token s)))"
  shows "rel s (fst (complete be job token cmp s))"
proof (cases cmp)
  case CompleteSucceed
  obtain s' r where h: "beSucceed be (jobWorkspaceID job) (jobID job) token s = (s', r)" by force
  with assms CompleteSucceed have "rel s s'" by (metis fst_conv)
  with h CompleteSucceed show ?thesis
    by (auto simp: complete_def split: sum.splits queue_error.splits intro: rel_trans rel_cancel)
qed (auto simp: complete_def rel_cancel rel_fail)

lemma rel_process:
  assumes "runContextErr x \<noteq> None \<or>
    completion_of c (runRandom x) (runNow x) (leaseJob lease) (callHandler (runResult x)) \<noteq> CompleteSucceed \<or>
    (\<forall>s ws i token. rel s (fst (beSucceed be ws i token s)))"
  shows "rel s (fst (process be c kinds x lease s))"
proof -
  let ?j = "leaseJob lease" and ?t = "leaseToken lease"
  obtain s1 r1 where st: "beStart be (jobWorkspaceID ?j) (jobID ?j) ?t s = (s1, r1)" by force
  then have 1: "rel s s1" using rel_start [of s "jobWorkspaceID ?j" "jobID ?j" ?t] by simp
  obtain s2 r2 where hb: "heartbeats be c ?j ?t (runTicks x) s1 = (s2, r2)" by force
  then have 2: "rel s1 s2" using rel_heartbeats [of s1 c ?j ?t "runTicks x"] by simp
  have 3: "rel s2 (fst (complete be ?j ?t (completion_of c (runRandom x) (runNow x) ?j (callHandler (runResult x))) s2))"
    if "runContextErr x = None"
    using assms that by (intro rel_complete) blast
  from 1 2 3 st hb show ?thesis
    by (auto simp: process_def Let_def split: sum.splits option.splits
        intro: rel_trans rel_cancel rel_fail rel_refl)
qed

end

text \<open>A handler's success that reaches the queue: the handler reports it and its context has not ended.\<close>

definition reports_success :: "run \<Rightarrow> bool" where
  "reports_success x \<longleftrightarrow> outcomeKind (callHandler (runResult x)) = OutcomeSucceeded \<and> runContextErr x = None"

lemma completion_succeeds: "completion_of c rnd now job out = CompleteSucceed \<longleftrightarrow> outcomeKind out = OutcomeSucceeded"
  by (auto simp: completion_of_def invalid_outcome_def Let_def split: OutcomeKind.splits)

text \<open>A relation that acquiring under the slot's own in-flight cap respects as well.\<close>

locale slot_backend = reporting_backend be rel
  for be :: "'s queueBackend" and rel :: "'s \<Rightarrow> 's \<Rightarrow> bool" +
  fixes cap :: int
  assumes rel_acquire: "rel s (fst (beAcquire be q owner d cap s))"
begin

lemma rel_runSlot:
  assumes "cfgMaxInFlightPerWorkspace c = cap"
    and "(\<forall>p\<in>set xs. \<not> reports_success (fst p)) \<or> (\<forall>s ws i token. rel s (fst (beSucceed be ws i token s)))"
  shows "rel s (fst (runSlot be c kinds owner xs s))"
  using assms(2)
proof (induction xs arbitrary: s)
  case Nil
  show ?case by (simp add: rel_refl)
next
  case (Cons p xs)
  obtain x waited where p: "p = (x, waited)" by force
  obtain s1 r1 where aq: "beAcquire be (cfgQueue c) owner (cfgLeaseDuration c) cap s = (s1, r1)" by force
  then have 1: "rel s s1" using rel_acquire [of s "cfgQueue c" owner "cfgLeaseDuration c"] by simp
  have 2: "rel s1 (fst (process be c kinds x lease s1))" for lease
    using Cons.prems by (intro rel_process) (auto simp: p reports_success_def completion_succeeds)
  have 3: "rel s2 (fst (runSlot be c kinds owner xs s2))" for s2 using Cons.prems by (intro Cons.IH) auto
  have 4: "rel s (fst (runSlot be c kinds owner xs s2))" if "process be c kinds x lease s1 = (s2, r)" for lease s2 r
    using rel_trans [OF rel_trans [OF 1 2] 3] that by (metis fst_conv)
  have 5: "rel s s2" if "process be c kinds x lease s1 = (s2, r)" for lease s2 r
    using rel_trans [OF 1 2] that by (metis fst_conv)
  from 1 aq assms(1) rel_trans [OF 1 3] 4 5 show ?case
    by (auto simp: p split: sum.splits option.splits prod.splits)
qed

end

text \<open>A relation that every call respects.\<close>

locale lease_backend = slot_backend be rel cap
  for be :: "'s queueBackend" and rel :: "'s \<Rightarrow> 's \<Rightarrow> bool" and cap :: int +
  assumes rel_succeed: "rel s (fst (beSucceed be ws i token s))"
begin

lemma every_runSlot: "cfgMaxInFlightPerWorkspace c = cap \<Longrightarrow> rel s (fst (runSlot be c kinds owner xs s))"
  by (rule rel_runSlot) (simp_all add: rel_succeed)

end

section \<open>The queue as the worker's backend\<close>

text \<open>The database as this process's calls see it: before its \<open>n\<close>-th call the other processes
  have turned the database into \<open>others n\<close> of it, and the call runs in the environment \<open>envs n\<close>.\<close>

record world =
  w_db :: queue_db
  w_calls :: nat

definition world_call :: "(nat \<Rightarrow> queue_db \<Rightarrow> queue_db) \<Rightarrow> (nat \<Rightarrow> queue_db \<Rightarrow> queue_db \<times> 'r) \<Rightarrow> world \<Rightarrow> world \<times> 'r" where
  "world_call others f w =
     (let n = w_calls w; (db', r) = f n (others n (w_db w)) in (\<lparr>w_db = db', w_calls = Suc n\<rparr>, r))"

definition queue_backend ::
  "(string \<Rightarrow> string) \<Rightarrow> (nat \<Rightarrow> db_env) \<Rightarrow> (nat \<Rightarrow> string option) \<Rightarrow> (nat \<Rightarrow> queue_db \<Rightarrow> queue_db) \<Rightarrow> world queueBackend" where
  "queue_backend sha envs rnds others =
     \<lparr>beAcquire = (\<lambda>q owner d cap. world_call others (\<lambda>n. Acquire sha (envs n) (rnds n) q owner d cap)),
      beStart = (\<lambda>ws i token. world_call others (\<lambda>n. Start sha (envs n) ws i token)),
      beHeartbeat = (\<lambda>ws i token d. world_call others (\<lambda>n. Heartbeat sha (envs n) ws i token d)),
      beSucceed = (\<lambda>ws i token. world_call others (\<lambda>n. Succeed sha (envs n) ws i token)),
      beFail = (\<lambda>ws i token f t. world_call others (\<lambda>n. Fail sha (envs n) ws i token f t)),
      beCancelActive = (\<lambda>ws i token. world_call others (\<lambda>n. CancelActive sha (envs n) ws i token))\<rparr>"

lemma queue_backend_sel [simp]:
  "beAcquire (queue_backend sha envs rnds others) q owner d cap =
     world_call others (\<lambda>n. Acquire sha (envs n) (rnds n) q owner d cap)"
  "beStart (queue_backend sha envs rnds others) ws i token = world_call others (\<lambda>n. Start sha (envs n) ws i token)"
  "beHeartbeat (queue_backend sha envs rnds others) ws i token d =
     world_call others (\<lambda>n. Heartbeat sha (envs n) ws i token d)"
  "beSucceed (queue_backend sha envs rnds others) ws i token = world_call others (\<lambda>n. Succeed sha (envs n) ws i token)"
  "beFail (queue_backend sha envs rnds others) ws i token f t =
     world_call others (\<lambda>n. Fail sha (envs n) ws i token f t)"
  "beCancelActive (queue_backend sha envs rnds others) ws i token =
     world_call others (\<lambda>n. CancelActive sha (envs n) ws i token)"
  by (simp_all add: queue_backend_def)

text \<open>Provided that the other processes only do \<open>P\<close>-related changes, so did this one.\<close>

definition world_rel :: "(queue_db \<Rightarrow> queue_db \<Rightarrow> bool) \<Rightarrow> (nat \<Rightarrow> queue_db \<Rightarrow> queue_db) \<Rightarrow> world \<Rightarrow> world \<Rightarrow> bool" where
  "world_rel P others w w' \<longleftrightarrow> (\<forall>n db. P db (others n db)) \<longrightarrow> P (w_db w) (w_db w')"

lemma world_relI:
  assumes "\<And>n db. P db (fst (f n db))" "\<And>x y z. P x y \<Longrightarrow> P y z \<Longrightarrow> P x z"
  shows "world_rel P others w (fst (world_call others f w))"
  unfolding world_rel_def world_call_def Let_def
  by (auto split: prod.splits) (metis assms fst_conv)

lemma world_rel_refl: "(\<And>x. P x x) \<Longrightarrow> world_rel P others w w"
  by (simp add: world_rel_def)

lemma world_rel_trans:
  "(\<And>x y z. P x y \<Longrightarrow> P y z \<Longrightarrow> P x z) \<Longrightarrow> world_rel P others u v \<Longrightarrow> world_rel P others v w \<Longrightarrow> world_rel P others u w"
  unfolding world_rel_def by blast

lemma queue_call_steps:
  "(queue_step sha cap)\<^sup>*\<^sup>* db (fst (Acquire sha env rnd q owner d cap db))"
  "(queue_step sha cap)\<^sup>*\<^sup>* db (fst (Start sha env ws i token db))"
  "(queue_step sha cap)\<^sup>*\<^sup>* db (fst (Heartbeat sha env ws i token d db))"
  "(queue_step sha cap)\<^sup>*\<^sup>* db (fst (Succeed sha env ws i token db))"
  "(queue_step sha cap)\<^sup>*\<^sup>* db (fst (Fail sha env ws i token f t db))"
  "(queue_step sha cap)\<^sup>*\<^sup>* db (fst (CancelActive sha env ws i token db))"
  by (metis prod.collapse queue_step.intros r_into_rtranclp)+

interpretation worker_queue: lease_backend
  "queue_backend sha envs rnds others" "world_rel (queue_step sha cap)\<^sup>*\<^sup>* others" cap
  for sha envs rnds others cap
proof
  fix s s1 s2
  show "world_rel (queue_step sha cap)\<^sup>*\<^sup>* others s s" by (rule world_rel_refl) simp
  assume "world_rel (queue_step sha cap)\<^sup>*\<^sup>* others s s1" "world_rel (queue_step sha cap)\<^sup>*\<^sup>* others s1 s2"
  then show "world_rel (queue_step sha cap)\<^sup>*\<^sup>* others s s2" by (rule world_rel_trans [rotated]) (rule rtranclp_trans)
qed (simp, rule world_relI, rule queue_call_steps, erule (1) rtranclp_trans)+

text \<open>The jobs that have succeeded, and that a change makes no further one succeed outside \<open>S\<close>.\<close>

definition succeeded_ids :: "queue_db \<Rightarrow> string set" where
  "succeeded_ids db = j_id ` set (filter (\<lambda>r. j_state r = StateSucceeded) (jobs db))"

definition succeeds_only :: "string set \<Rightarrow> queue_db \<Rightarrow> queue_db \<Rightarrow> bool" where
  "succeeds_only S db db' \<longleftrightarrow> queue_inv db \<longrightarrow> queue_inv db' \<and> succeeded_ids db' \<subseteq> succeeded_ids db \<union> S"

lemma succeeds_only_trans: "succeeds_only S x y \<Longrightarrow> succeeds_only S y z \<Longrightarrow> succeeds_only S x z"
  unfolding succeeds_only_def by blast

lemma succeeds_only_refl [simp]: "succeeds_only S x x"
  by (simp add: succeeds_only_def)

lemma performs_no_success:
  assumes "performs db e r db'" "queue_inv db" "j_state (effect_row e r) \<noteq> StateSucceeded"
  shows "succeeds_only S db db'"
proof -
  have p: "r \<in> set (jobs db)" "enabled e r" "db' = apply_effect e r db" using assms(1) by (auto simp: performs_def)
  then have "queue_inv db'" using apply_effect_inv assms(2) by blast
  moreover have "succeeded_ids db' \<subseteq> succeeded_ids db"
    using queue_inv_unique [OF assms(2) _ p(1)] assms(3)
    by (fastforce simp: succeeded_ids_def p(3) apply_effect_def in_sql_update split: if_splits)
  ultimately show ?thesis by (auto simp: succeeds_only_def)
qed

lemma unsuccessful_rows:
  "enabled (Starting now) r \<Longrightarrow> j_state (effect_row (Starting now) r) \<noteq> StateSucceeded"
  "enabled (Beating now d) r \<Longrightarrow> j_state (effect_row (Beating now d) r) \<noteq> StateSucceeded"
  "j_state (effect_row (Failing now f t) r) \<noteq> StateSucceeded"
  "j_state (effect_row (Finishing now StateCancelled) r) \<noteq> StateSucceeded"
  "j_state (effect_row (Leasing now owner h d) r) \<noteq> StateSucceeded"
  by (auto simp: active_def failed_row_def fail_state_def clear_lease_def leased_row_def split: if_splits)

lemma succeeds_onlyI:
  assumes "queue_inv db \<Longrightarrow> db' = db \<or> (\<exists>e r. performs db e r db' \<and> j_state (effect_row e r) \<noteq> StateSucceeded)"
  shows "succeeds_only S db db'"
proof (cases "queue_inv db")
  case True
  with assms show ?thesis using performs_no_success [of db _ _ db' S] by auto
qed (simp add: succeeds_only_def)

lemma succeeds_only_effect:
  assumes "queue_inv db \<Longrightarrow> db' = db \<or> (\<exists>r. performs db e r db' \<and> (enabled e r \<longrightarrow> j_state (effect_row e r) \<noteq> StateSucceeded))"
  shows "succeeds_only S db db'"
  using assms by (intro succeeds_onlyI) (auto simp: performs_def)

lemma unsuccessful_calls:
  "succeeds_only S db (fst (Start sha env ws i token db))"
  "succeeds_only S db (fst (Heartbeat sha env ws i token d db))"
  "succeeds_only S db (fst (Fail sha env ws i token f t db))"
  "succeeds_only S db (fst (CancelActive sha env ws i token db))"
  "digest32 sha \<Longrightarrow> succeeds_only S db (fst (Acquire sha env rnd q owner d cap db))"
proof -
  show "succeeds_only S db (fst (Start sha env ws i token db))"
    using Start_effect [OF prod.collapse [symmetric]] unsuccessful_rows(1) by (intro succeeds_only_effect [where e = "Starting (db_now env)"]) blast
  show "succeeds_only S db (fst (Heartbeat sha env ws i token d db))"
    using Heartbeat_effect [OF prod.collapse [symmetric]] unsuccessful_rows(2) by (intro succeeds_only_effect [where e = "Beating (db_now env) d"]) blast
  show "succeeds_only S db (fst (Fail sha env ws i token f t db))"
    using Fail_effect [OF prod.collapse [symmetric]] unsuccessful_rows(3) by (intro succeeds_only_effect [where e = "Failing (db_now env) f t"]) blast
  show "succeeds_only S db (fst (CancelActive sha env ws i token db))"
    unfolding CancelActive_def
    using finish_effect [OF prod.collapse [symmetric]] unsuccessful_rows(4)
    by (intro succeeds_only_effect [where e = "Finishing (db_now env) StateCancelled"]) blast
  assume d: "digest32 sha"
  obtain db' res where a: "Acquire sha env rnd q owner d cap db = (db', res)" by force
  show "succeeds_only S db (fst (Acquire sha env rnd q owner d cap db))"
    unfolding a fst_conv using Acquire_effect [OF a d] unsuccessful_rows(5) by (intro succeeds_onlyI) blast
qed

definition slot_rel :: "(string \<Rightarrow> string) \<Rightarrow> string set \<Rightarrow> queue_db \<Rightarrow> queue_db \<Rightarrow> bool" where
  "slot_rel sha S db db' \<longleftrightarrow> digest32 sha \<longrightarrow> succeeds_only S db db'"

lemma slot_rel_trans: "slot_rel sha S x y \<Longrightarrow> slot_rel sha S y z \<Longrightarrow> slot_rel sha S x z"
  unfolding slot_rel_def using succeeds_only_trans by blast

lemma slot_rel_calls:
  "slot_rel sha S db (fst (Start sha env ws i token db))"
  "slot_rel sha S db (fst (Heartbeat sha env ws i token d db))"
  "slot_rel sha S db (fst (Fail sha env ws i token f t db))"
  "slot_rel sha S db (fst (CancelActive sha env ws i token db))"
  "slot_rel sha S db (fst (Acquire sha env rnd q owner d cap db))"
  by (simp_all add: slot_rel_def unsuccessful_calls)

interpretation worker_reports: slot_backend
  "queue_backend sha envs rnds others" "world_rel (slot_rel sha S) others" cap for sha envs rnds others S cap
proof
  fix s s1 s2
  show "world_rel (slot_rel sha S) others s s" by (rule world_rel_refl) (simp add: slot_rel_def)
  assume "world_rel (slot_rel sha S) others s s1" "world_rel (slot_rel sha S) others s1 s2"
  then show "world_rel (slot_rel sha S) others s s2" by (rule world_rel_trans [rotated]) (rule slot_rel_trans)
qed (simp, rule world_relI, rule slot_rel_calls, erule (1) slot_rel_trans)+

lemma queue_steps_inv: "digest32 sha \<Longrightarrow> (queue_step sha cap)\<^sup>*\<^sup>* db db' \<Longrightarrow> queue_inv db \<Longrightarrow> queue_inv db'"
  by (rotate_tac 1, induction rule: rtranclp_induct) (auto intro: queue_step_inv)

lemma queue_steps_reach: "(queue_step sha cap)\<^sup>*\<^sup>* db db' \<Longrightarrow> queue_reach sha cap wss db \<Longrightarrow> queue_reach sha cap wss db'"
  by (induction rule: rtranclp_induct) (auto intro: queue_reach.step)

section \<open>Properties\<close>

definition demo_config :: WorkerConfig where
  "demo_config = \<lparr>cfgQueue = ''imports'', cfgOwner = ''worker'', cfgConcurrency = 2, cfgMaxInFlightPerWorkspace = 4,
     cfgLeaseDuration = 60 * second, cfgHeartbeatInterval = 20 * second, cfgPollInterval = second,
     cfgRetryMinimum = 5 * second, cfgRetryMaximum = 300 * second, cfgRetryMaximumAge = 3600 * second\<rparr>"

definition demo_run :: "OutcomeKind \<Rightarrow> run" where
  "demo_run k = \<lparr>runTicks = [False], runResult = Some \<lparr>outcomeKind = k, outcomeCode = ''busy'', outcomeRetryAfter = 0\<rparr>,
     runContextErr = None, runNow = 100 * second, runRandom = (\<lambda>_. None)\<rparr>"

definition demo_worker_job :: Job where
  "demo_worker_job = (scanJob (demo_row StateLeased))\<lparr>jobAttemptCount := 3, jobCreatedAt := 90 * second\<rparr>"

text \<open>C14.  The exponential backoff never overflows and is the closed form: the minimum doubled once
  per earlier attempt, capped at the maximum.\<close>

theorem retry_delay_closed_form:
  assumes "0 < minimum" "minimum \<le> maximum" "in_int64 maximum"
  shows "retryDelay attempt minimum maximum = min maximum (minimum * 2 ^ nat (attempt - 1))"
  using assms by (rule retryDelay_closed)

theorem retry_delay_closed_form_witness: "retryDelay 4 (5 * second) (300 * second) = 40 * second"
  by (subst retry_delay_closed_form) (simp_all add: second_def in_int64_def)

text \<open>C15.  A retryable outcome is rescheduled within its bounds: never later than the configured
  maximum from now nor past the job's maximum age, and never sooner than half of the attempt's
  backoff unless the age runs out first.\<close>

theorem retry_within_bounds:
  assumes "config_valid c" "in_int64 (cfgRetryMaximumAge c)" "rand_below rnd" "jobCreatedAt job \<le> now"
    and "completion_of c rnd now job out = CompleteFail f t" "failureClass f = ErrorRetryable"
  shows "t \<le> now + cfgRetryMaximum c \<and> t \<le> jobCreatedAt job + cfgRetryMaximumAge c \<and>
    min (jobCreatedAt job + cfgRetryMaximumAge c)
        (now + retryDelay (jobAttemptCount job) (cfgRetryMinimum c) (cfgRetryMaximum c) div 2) \<le> t \<and>
    outcomeKind out = OutcomeRetryable \<and> failureCode f = outcomeCode out"
proof -
  let ?age = "cfgRetryMaximumAge c" and ?mn = "cfgRetryMinimum c" and ?mx = "cfgRetryMaximum c"
  let ?d = "jitteredRetryDelay rnd (jobAttemptCount job) ?mn ?mx"
  have c: "0 < ?mn" "?mn \<le> ?mx" "?mx \<le> ?age" "in_int64 ?mx"
    using assms(1,2) by (auto simp: config_valid_def in_int64_def)
  have sub: "0 \<le> time_sub now (jobCreatedAt job)" "time_sub now (jobCreatedAt job) \<le> 2 ^ 63 - 1"
    "time_sub now (jobCreatedAt job) = now - jobCreatedAt job \<or> time_sub now (jobCreatedAt job) = 2 ^ 63 - 1"
    using assms(4) by (auto simp: time_sub_def)
  have w: "wrap64 (?age - time_sub now (jobCreatedAt job)) = ?age - time_sub now (jobCreatedAt job)"
    using sub(1,2) assms(2) c by (intro wrap64_id) (auto simp: in_int64_def)
  have age: "?age \<le> 2 ^ 63 - 1" using assms(2) by (simp add: in_int64_def)
  note j = jittered_range [OF c(1,2,4) assms(3), of "jobAttemptCount job"]
  note u = retryDelay_range [OF c(1,2,4), of "jobAttemptCount job"]
  have k: "outcomeKind out = OutcomeRetryable" "failureCode f = outcomeCode out"
    using assms(5,6) by (auto simp: completion_of_def invalid_outcome_def Let_def split: OutcomeKind.splits if_splits)
  with assms(5,6) have r: "0 < ?age - time_sub now (jobCreatedAt job)"
    and t: "t = now + min (?age - time_sub now (jobCreatedAt job)) (min ?mx (max (outcomeRetryAfter out) ?d))"
    by (auto simp: completion_of_def invalid_outcome_def Let_def w min_def max_def split: if_splits)
  have s: "time_sub now (jobCreatedAt job) = now - jobCreatedAt job" using sub(3) r age by auto
  show ?thesis unfolding t s using k j u r [unfolded s] c by (auto simp: min_def max_def)
qed

theorem retry_within_bounds_witness:
  "completion_of demo_config (\<lambda>_. None) (100 * second) demo_worker_job
     \<lparr>outcomeKind = OutcomeRetryable, outcomeCode = ''busy'', outcomeRetryAfter = 0\<rparr>
     = CompleteFail \<lparr>failureClass = ErrorRetryable, failureCode = ''busy''\<rparr> (120 * second) \<and>
   120 * second \<le> 100 * second + cfgRetryMaximum demo_config"
proof -
  let ?o = "\<lparr>outcomeKind = OutcomeRetryable, outcomeCode = ''busy'', outcomeRetryAfter = 0\<rparr>"
  have d: "retryDelay 3 (5 * second) (300 * second) = 20 * second"
    by (subst retryDelay_closed) (simp_all add: second_def in_int64_def)
  have v: "validCode ''busy''" "validName ''imports''" by code_simp+
  have c: "config_valid demo_config"
    unfolding config_valid_def demo_config_def using v(2)
    by (simp add: second_def minLease_def maxLease_def hour_def) code_simp
  have e: "completion_of demo_config (\<lambda>_. None) (100 * second) demo_worker_job ?o
     = CompleteFail \<lparr>failureClass = ErrorRetryable, failureCode = ''busy''\<rparr> (120 * second)"
    by (simp add: completion_of_def demo_config_def demo_worker_job_def v jitteredRetryDelay_def d Let_def)
      (simp add: second_def time_sub_def wrap64_def)
  from retry_within_bounds [OF c _ _ _ e] e show ?thesis
    by (simp add: demo_config_def demo_worker_job_def in_int64_def second_def rand_below_def)
qed

text \<open>C16.  A worker slot acknowledges only what its handlers achieved: however long it runs and whatever
  queue calls other processes make in between (which may make the jobs \<open>S\<close> succeed), the database stays
  reachable, and a job that has become succeeded and is not one of \<open>S\<close> needs an iteration of the slot
  whose handler reported success and whose context had not ended.  So panics, retryable, permanent and
  unknown outcomes, cancellations, missing handlers, lost leases and failing calls never make a job succeed.\<close>

theorem slot_acknowledges_only_success:
  assumes "digest32 sha" "queue_reach sha (cfgMaxInFlightPerWorkspace c) wss (w_db w)"
    and "\<forall>n db. (queue_step sha (cfgMaxInFlightPerWorkspace c))\<^sup>*\<^sup>* db (others n db) \<and>
      succeeded_ids (others n db) \<subseteq> succeeded_ids db \<union> S"
    and "runSlot (queue_backend sha envs rnds others) c kinds owner xs w = (w', res)"
  shows "queue_reach sha (cfgMaxInFlightPerWorkspace c) wss (w_db w') \<and>
    (\<forall>i\<in>succeeded_ids (w_db w'). i \<in> succeeded_ids (w_db w) \<or> i \<in> S \<or>
      (\<exists>(x, waited)\<in>set xs. outcomeKind (callHandler (runResult x)) = OutcomeSucceeded \<and> runContextErr x = None))"
proof -
  let ?be = "queue_backend sha envs rnds others"
  have "(queue_step sha (cfgMaxInFlightPerWorkspace c))\<^sup>*\<^sup>* (w_db w) (w_db w')"
    using worker_queue.every_runSlot [OF refl, of sha c others w envs rnds kinds owner xs] assms(3,4)
    by (simp add: world_rel_def)
  then have reach: "queue_reach sha (cfgMaxInFlightPerWorkspace c) wss (w_db w')"
    using assms(2) by (rule queue_steps_reach)
  have "slot_rel sha S db (others n db)" for n db
    using assms(3) queue_steps_inv unfolding slot_rel_def succeeds_only_def by blast
  moreover have "queue_inv (w_db w)" using assms(1,2) by (metis queue_reach_inv)
  ultimately have "succeeded_ids (w_db w') \<subseteq> succeeded_ids (w_db w) \<union> S" if "\<forall>p\<in>set xs. \<not> reports_success (fst p)"
    using worker_reports.rel_runSlot [OF refl disjI1, of xs sha S others w envs rnds c kinds owner] that assms(1,4)
    unfolding world_rel_def slot_rel_def succeeds_only_def by simp
  with reach show ?thesis unfolding reports_success_def by fastforce
qed

definition demo_slot :: "OutcomeKind \<Rightarrow> string \<Rightarrow> world \<times> worker_error option" where
  "demo_slot k fp = runSlot (queue_backend toy_sha (\<lambda>n. quiet_env (50 * second)) (\<lambda>n. Some []) (\<lambda>n db. db))
     demo_config [''import.process''] ''worker-0'' [(demo_run k, None), (demo_run k, Some Canceled)]
     \<lparr>w_db = \<lparr>workspaces = [''ws1''], jobs = [new_job_row (quiet_env second) demo_id demo_spec ''{}'' fp], job_attempts = []\<rparr>, w_calls = 0\<rparr>"

lemma demo_slots:
  "map j_state (jobs (w_db (fst (demo_slot OutcomeSucceeded fp)))) = [StateSucceeded]"
  "map j_state (jobs (w_db (fst (demo_slot OutcomePermanent fp)))) = [StateDeadLetter]"
  by code_simp+

theorem slot_acknowledges_only_success_witness:
  "map j_state (jobs (w_db (fst (demo_slot OutcomeSucceeded demo_fp)))) = [StateSucceeded] \<and>
   map j_state (jobs (w_db (fst (demo_slot OutcomePermanent demo_fp)))) = [StateDeadLetter] \<and>
   queue_reach toy_sha 4 [''ws1''] (w_db (fst (demo_slot OutcomePermanent demo_fp))) \<and>
   succeeded_ids (w_db (fst (demo_slot OutcomePermanent demo_fp))) = {}"
proof -
  have cap: "cfgMaxInFlightPerWorkspace demo_config = 4" by (simp add: demo_config_def)
  have r: "queue_reach toy_sha 4 [''ws1''] (demo_enqueued second)"
    by (rule queue_reach.step [OF queue_reach.init queue_step.enqueue [OF demo_enqueue]])
  have e: "succeeded_ids (demo_enqueued second) = {}"
    by (simp add: succeeded_ids_def demo_enqueued_def demo_job_def new_job_row_def)
  obtain w' res where run: "demo_slot OutcomePermanent demo_fp = (w', res)" by (rule prod.exhaust)
  have "queue_reach toy_sha 4 [''ws1''] (w_db w') \<and> succeeded_ids (w_db w') = {}"
    using slot_acknowledges_only_success [OF digest32_toy _ _ run [unfolded demo_slot_def, folded demo_job_def, folded demo_enqueued_def],
        of "[''ws1'']" "{}"]
    by (simp add: cap r e demo_run_def callHandler_def)
  with demo_slots [of demo_fp] run show ?thesis by (simp only: fst_conv simp_thms)
qed

end
