(* ===== verification/Blob_Stream.thy ===== *)
theory Blob_Stream
  imports Go_Encoding
begin

text \<open>
  The package \<open>internal/blobstore\<close>: object keys and write options (\<open>blobstore.go\<close>) and the two
  stream wrappers (\<open>stream.go\<close>), the size-bounded reader of uploads and the verifying reader of
  stored blobs.  The wrapped stream is a parameter: a function from its state and the length of the
  buffer to the bytes it delivers and its error.  The context's error before and after a read, and
  the hash function, are parameters too.  The locale \<open>io_reader\<close> is the contract of \<open>io.Reader\<close> the
  wrappers rely on; it is interpreted on \<open>chunk_read\<close>, a stream that hands out given chunks.
\<close>

datatype blob_error =
    ErrAlreadyExists | ErrBackend string | ErrDeadline | ErrIntegrity | ErrInvalidKey | ErrInvalidOptions
  | ErrNotFound | ErrTooLarge | ErrVersion | CtxCanceled | EOF | SourceErr string | NotConsumed

datatype ctx_err = CtxDeadline | CtxCancel

section \<open>Keys and options\<close>

definition Key_Valid :: "string \<Rightarrow> bool" where
  "Key_Valid k \<longleftrightarrow> pat_prefixed ''blb_'' base32_char 52 k"

definition NewKey :: "string option \<Rightarrow> blob_error + string" where
  "NewKey rnd =
     (case rnd of
        None \<Rightarrow> Inl (ErrBackend ''generate blob key'')
      | Some bs \<Rightarrow> Inr (''blb_'' @ base32_lower (take 32 (bs @ replicate 32 nul_byte))))"

definition ParseKey :: "string \<Rightarrow> blob_error + string" where
  "ParseKey v = (if \<not> Key_Valid v then Inl ErrInvalidKey else Inr v)"

record PutOptions =
  poMaxBytes :: int
  poTimeout :: duration
  poExpectedSize :: "int option"
  poExpectedSHA256 :: string

definition validSHA256 :: "string \<Rightarrow> bool" where
  "validSHA256 v \<longleftrightarrow> length v = 64 \<and> list_all hex_char v"

definition ValidatePutOptions :: "string \<Rightarrow> bool \<Rightarrow> PutOptions \<Rightarrow> blob_error option" where
  "ValidatePutOptions key hasSource o' =
     (if \<not> Key_Valid key then Some ErrInvalidKey
      else if \<not> hasSource \<or> poMaxBytes o' \<le> 0 \<or> poTimeout o' \<le> 0 then Some ErrInvalidOptions
      else if (case poExpectedSize o' of None \<Rightarrow> False | Some n \<Rightarrow> n < 0 \<or> n > poMaxBytes o') then Some ErrInvalidOptions
      else if poExpectedSHA256 o' \<noteq> [] \<and> \<not> validSHA256 (poExpectedSHA256 o') then Some ErrInvalidOptions
      else None)"

definition ContextError :: "ctx_err option \<Rightarrow> blob_error option" where
  "ContextError c = map_option (\<lambda>e. case e of CtxDeadline \<Rightarrow> ErrDeadline | CtxCancel \<Rightarrow> CtxCanceled) c"

section \<open>The bounded reader\<close>

record BoundedReader =
  brHashed :: string
  brMaxBytes :: int
  brSize :: int
  brFinished :: bool
  brErr :: "blob_error option"

definition NewBoundedReader :: "int \<Rightarrow> BoundedReader" where
  "NewBoundedReader m = \<lparr>brHashed = [], brMaxBytes = m, brSize = 0, brFinished = False, brErr = None\<rparr>"

type_synonym 's source = "nat \<Rightarrow> 's \<Rightarrow> 's \<times> string \<times> blob_error option"

text \<open>One \<open>Read\<close> with a buffer of \<open>n\<close> bytes, between the context errors \<open>c1\<close> and \<open>c2\<close>; \<open>None\<close> is the
  panic of \<open>readBuffer[:remaining+1]\<close> with a negative bound.  A source that returns more bytes than it was asked
  for breaks the contract of \<open>io.Reader\<close>; the slice panic that follows in Go is not modelled.\<close>

definition bounded_read ::
  "'s source \<Rightarrow> nat \<Rightarrow> ctx_err option \<Rightarrow> ctx_err option \<Rightarrow> BoundedReader \<times> 's
     \<Rightarrow> ((BoundedReader \<times> 's) \<times> string \<times> blob_error option) option" where
  "bounded_read source n c1 c2 st =
     (case st of (r, s) \<Rightarrow>
      if brErr r \<noteq> None then Some ((r, s), [], brErr r)
      else if brFinished r then Some ((r, s), [], Some EOF)
      else
        (case ContextError c1 of
           Some e \<Rightarrow> Some ((r\<lparr>brErr := Some e\<rparr>, s), [], Some e)
         | None \<Rightarrow>
             (let remaining = wrap64 (brMaxBytes r - brSize r);
                  bound = wrap64 (remaining + 1) in
              if int n > bound \<and> bound < 0 then None
              else
                (let len = (if int n > bound then nat bound else n);
                     (s', bs, err) = source len s in
                 case ContextError c2 of
                   Some e \<Rightarrow> Some ((r\<lparr>brErr := Some e\<rparr>, s'), [], Some e)
                 | None \<Rightarrow>
                     if int (length bs) > remaining
                     then Some ((r\<lparr>brErr := Some ErrTooLarge\<rparr>, s'), [], Some ErrTooLarge)
                     else
                       (let r1 = (if bs \<noteq> [] then r\<lparr>brHashed := brHashed r @ bs,
                                    brSize := wrap64 (brSize r + int (length bs))\<rparr> else r);
                            r2 = (if err = Some EOF then r1\<lparr>brFinished := True\<rparr> else r1);
                            r3 = (if err \<noteq> None \<and> err \<noteq> Some EOF then r2\<lparr>brErr := err\<rparr> else r2)
                        in Some ((r3, s'), bs, err))))))"

definition Result :: "(string \<Rightarrow> string) \<Rightarrow> BoundedReader \<Rightarrow> blob_error + int \<times> string" where
  "Result sha r =
     (case brErr r of
        Some e \<Rightarrow> Inl e
      | None \<Rightarrow> if \<not> brFinished r then Inl NotConsumed else Inr (brSize r, hex_of (sha (brHashed r))))"

definition Err :: "BoundedReader \<Rightarrow> blob_error option" where
  "Err r = brErr r"

definition VerifyExpected :: "int \<Rightarrow> string \<Rightarrow> PutOptions \<Rightarrow> blob_error option" where
  "VerifyExpected n digest o' =
     (if (case poExpectedSize o' of None \<Rightarrow> False | Some e \<Rightarrow> n \<noteq> e) then Some ErrIntegrity
      else if poExpectedSHA256 o' \<noteq> [] \<and> digest \<noteq> poExpectedSHA256 o' then Some ErrIntegrity
      else None)"

text \<open>A client that reads repeatedly, with the buffer lengths and context errors of its calls: the
  state it ends in, the bytes it received and the error of its last read.\<close>

fun bounded_reads ::
  "'s source \<Rightarrow> (nat \<times> ctx_err option \<times> ctx_err option) list \<Rightarrow> BoundedReader \<times> 's
     \<Rightarrow> ((BoundedReader \<times> 's) \<times> string) option" where
  "bounded_reads source [] st = Some (st, [])"
| "bounded_reads source ((n, c1, c2) # calls) st =
     (case bounded_read source n c1 c2 st of
        None \<Rightarrow> None
      | Some (st', bs, _) \<Rightarrow>
          (case bounded_reads source calls st' of
             None \<Rightarrow> None
           | Some (st'', bs') \<Rightarrow> Some (st'', bs @ bs')))"

section \<open>The verified reader\<close>

record verifiedReader =
  vrHashed :: string
  vrSize :: int
  vrExpectedSize :: int
  vrExpectedSHA256 :: string
  vrFinished :: bool

definition NewVerifiedReader :: "int \<Rightarrow> string \<Rightarrow> verifiedReader" where
  "NewVerifiedReader n digest =
     \<lparr>vrHashed = [], vrSize = 0, vrExpectedSize = n, vrExpectedSHA256 = digest, vrFinished = False\<rparr>"

definition verified_read ::
  "(string \<Rightarrow> string) \<Rightarrow> 's source \<Rightarrow> nat \<Rightarrow> ctx_err option \<Rightarrow> verifiedReader \<times> 's
     \<Rightarrow> (verifiedReader \<times> 's) \<times> string \<times> blob_error option" where
  "verified_read sha source n c st =
     (case st of (r, s) \<Rightarrow>
      if vrFinished r then ((r, s), [], Some EOF)
      else
        (case ContextError c of
           Some e \<Rightarrow> ((r, s), [], Some e)
         | None \<Rightarrow>
             (let (s', bs, err) = source n s;
                  r1 = (if bs \<noteq> [] then r\<lparr>vrHashed := vrHashed r @ bs,
                          vrSize := wrap64 (vrSize r + int (length bs))\<rparr> else r) in
              if bs \<noteq> [] \<and> vrSize r1 > vrExpectedSize r1
              then ((r1\<lparr>vrFinished := True\<rparr>, s'), bs, Some ErrIntegrity)
              else if err = Some EOF then
                ((r1\<lparr>vrFinished := True\<rparr>, s'), bs,
                 if vrSize r1 \<noteq> vrExpectedSize r1 \<or> hex_of (sha (vrHashed r1)) \<noteq> vrExpectedSHA256 r1
                 then Some ErrIntegrity else err)
              else ((r1, s'), bs, err))))"

text \<open>\<open>io.ReadAll\<close>: read until an error; an end of file is a normal return, and \<open>None\<close> says that the
  stream had not ended after the given reads.\<close>

fun read_all ::
  "(string \<Rightarrow> string) \<Rightarrow> 's source \<Rightarrow> (nat \<times> ctx_err option) list \<Rightarrow> verifiedReader \<times> 's
     \<Rightarrow> (string \<times> blob_error option) option" where
  "read_all sha source [] st = None"
| "read_all sha source ((n, c) # calls) st =
     (case verified_read sha source n c st of
        (st', bs, None) \<Rightarrow> map_option (\<lambda>(bs', e). (bs @ bs', e)) (read_all sha source calls st')
      | (st', bs, Some e) \<Rightarrow> Some (bs, if e = EOF then None else Some e))"

section \<open>The bound\<close>

definition bounded_inv :: "int \<Rightarrow> string \<Rightarrow> BoundedReader \<Rightarrow> bool" where
  "bounded_inv m out r \<longleftrightarrow> brMaxBytes r = m \<and> brHashed r = out \<and> brSize r = int (length out) \<and> int (length out) \<le> m"

lemma bounded_step:
  assumes "bounded_inv m out r" "0 \<le> m" "m < 2 ^ 63 - 1"
  shows "\<exists>r' s' bs err. bounded_read source n c1 c2 (r, s) = Some ((r', s'), bs, err) \<and> bounded_inv m (out @ bs) r'"
proof -
  have w: "wrap64 (m - int (length out)) = m - int (length out)"
    "wrap64 (m - int (length out) + 1) = m - int (length out) + 1"
    using assms by (auto simp: bounded_inv_def in_int64_def)
  have a: "int (length bs) \<le> m - int (length out) \<Longrightarrow>
      wrap64 (int (length out) + int (length bs)) = int (length out) + int (length bs)" for bs :: string
    using assms by (auto simp: bounded_inv_def in_int64_def)
  obtain s' bs err where s: "source (if int n > m - int (length out) + 1 then nat (m - int (length out) + 1) else n) s = (s', bs, err)"
    by (metis prod.exhaust)
  show ?thesis
    using assms s a [of bs]
    by (auto simp: bounded_read_def bounded_inv_def w Let_def split: option.splits)
qed

lemma bounded_reads_inv:
  assumes "0 \<le> m" "m < 2 ^ 63 - 1"
  shows "bounded_inv m out r \<Longrightarrow>
    \<exists>r' s' bs. bounded_reads source calls (r, s) = Some ((r', s'), bs) \<and> bounded_inv m (out @ bs) r'"
proof (induction calls arbitrary: out r s)
  case Nil
  then show ?case by simp
next
  case (Cons call calls)
  obtain n c1 c2 where c: "call = (n, c1, c2)" by (metis prod.exhaust)
  obtain r1 s1 bs1 err where 1: "bounded_read source n c1 c2 (r, s) = Some ((r1, s1), bs1, err)" "bounded_inv m (out @ bs1) r1"
    using bounded_step [OF Cons.prems assms, of source n c1 c2 s] by blast
  from Cons.IH [OF 1(2), of s1] obtain r2 s2 bs2
    where "bounded_reads source calls (r1, s1) = Some ((r2, s2), bs2)" "bounded_inv m ((out @ bs1) @ bs2) r2" by blast
  with 1 show ?case by (simp add: c)
qed

section \<open>The contract of io.Reader\<close>

locale io_reader =
  fixes source :: "'s source"
  assumes source_bounded: "source n s = (s', bs, err) \<Longrightarrow> length bs \<le> n"
begin

definition verified_inv :: "string \<Rightarrow> verifiedReader \<Rightarrow> bool" where
  "verified_inv out r \<longleftrightarrow> vrHashed r = out \<and> vrSize r = int (length out) \<and>
     int (length out) \<le> vrExpectedSize r \<and> \<not> vrFinished r"

lemma verified_step:
  assumes "verified_inv out r" "vrExpectedSize r + int n \<le> 2 ^ 63 - 1"
    and "verified_read sha source n c (r, s) = ((r', s'), bs, err)"
  shows "err = None \<Longrightarrow> verified_inv (out @ bs) r' \<and> vrExpectedSize r' = vrExpectedSize r \<and> vrExpectedSHA256 r' = vrExpectedSHA256 r"
    and "err = Some EOF \<Longrightarrow> int (length (out @ bs)) = vrExpectedSize r \<and> hex_of (sha (out @ bs)) = vrExpectedSHA256 r"
proof -
  obtain s1 bs1 e1 where s: "source n s = (s1, bs1, e1)" by (metis prod.exhaust)
  have b: "length bs1 \<le> n" by (rule source_bounded [OF s])
  have w: "wrap64 (int (length out) + int (length bs1)) = int (length out) + int (length bs1)"
    using assms(1,2) b by (intro wrap64_id) (auto simp: verified_inv_def in_int64_def)
  show "err = None \<Longrightarrow> verified_inv (out @ bs) r' \<and> vrExpectedSize r' = vrExpectedSize r \<and> vrExpectedSHA256 r' = vrExpectedSHA256 r"
    using assms(1,3) by (auto simp: verified_read_def verified_inv_def s w Let_def split: option.splits if_splits)
  show "err = Some EOF \<Longrightarrow> int (length (out @ bs)) = vrExpectedSize r \<and> hex_of (sha (out @ bs)) = vrExpectedSHA256 r"
    using assms(1,3) by (auto simp: verified_read_def verified_inv_def ContextError_def s w Let_def
        split: option.splits if_splits ctx_err.splits)
qed

lemma read_all_verified:
  assumes "read_all sha source calls (r, s) = Some (bs, None)" "verified_inv out r"
    and "list_all (\<lambda>(n, c). vrExpectedSize r + int n \<le> 2 ^ 63 - 1) calls"
  shows "int (length (out @ bs)) = vrExpectedSize r \<and> hex_of (sha (out @ bs)) = vrExpectedSHA256 r"
  using assms
proof (induction calls arbitrary: out r s bs)
  case Nil
  then show ?case by simp
next
  case (Cons call calls)
  obtain n c where c: "call = (n, c)" by force
  obtain r1 s1 bs1 err where 1: "verified_read sha source n c (r, s) = ((r1, s1), bs1, err)" by (metis prod.exhaust)
  note st = verified_step [OF Cons.prems(2) _ 1]
  show ?case
  proof (cases err)
    case None
    with Cons.prems(1) 1 obtain bs2 where 2: "read_all sha source calls (r1, s1) = Some (bs2, None)" "bs = bs1 @ bs2"
      by (auto simp: c)
    from st(1) None Cons.prems(3) have i: "verified_inv (out @ bs1) r1" "vrExpectedSize r1 = vrExpectedSize r"
      "vrExpectedSHA256 r1 = vrExpectedSHA256 r" by (auto simp: c)
    from Cons.IH [OF 2(1) i(1)] Cons.prems(3) show ?thesis by (simp add: i 2(2))
  next
    case (Some e)
    with Cons.prems(1) 1 have "e = EOF" "bs = bs1" by (auto simp: c split: if_splits)
    with st(2) Some Cons.prems(3) show ?thesis by (simp add: c)
  qed
qed

end

text \<open>A stream that delivers the given chunks, each in as many reads as the buffer needs, and then an
  end of file.\<close>

fun chunk_read :: "string list source" where
  "chunk_read n [] = ([], [], Some EOF)"
| "chunk_read n (c # cs) = (if length c \<le> n then (cs, c, None) else (drop n c # cs, take n c, None))"

interpretation chunks: io_reader chunk_read
proof
  fix n s s' bs err
  assume "chunk_read n s = (s', bs, err)"
  then show "length bs \<le> n" by (cases "(n, s)" rule: chunk_read.cases) (auto split: if_splits)
qed

lemma chunk_reads_delivered: "chunk_read n s = (s', bs, err) \<Longrightarrow> concat s = bs @ concat s'"
  by (cases "(n, s)" rule: chunk_read.cases) (auto split: if_splits simp flip: append_assoc)

section \<open>Properties\<close>

text \<open>C18.  The bounded reader never hands out more than its limit, whatever the stream delivers and
  however it is read: with a limit below the largest int64 no read panics, the bytes delivered stay
  within the limit, and a result, if there is one, is their exact length and digest.\<close>

theorem bounded_reader_bounded:
  assumes "0 \<le> m" "m < 2 ^ 63 - 1"
  shows "\<exists>r s' bs. bounded_reads source calls (NewBoundedReader m, s) = Some ((r, s'), bs) \<and> int (length bs) \<le> m \<and>
    (\<forall>n digest. Result sha r = Inr (n, digest) \<longrightarrow> n = int (length bs) \<and> digest = hex_of (sha bs))"
proof -
  have "bounded_inv m [] (NewBoundedReader m)" using assms by (simp add: bounded_inv_def NewBoundedReader_def)
  from bounded_reads_inv [OF assms this, of source calls s] show ?thesis
    by (fastforce simp: bounded_inv_def Result_def split: option.splits if_splits)
qed

theorem bounded_reader_bounded_witness:
  "\<exists>r s' bs. bounded_reads chunk_read [(4, None, None), (4, None, None)] (NewBoundedReader 5, [''abcdefgh''])
     = Some ((r, s'), bs) \<and> int (length bs) \<le> 5"
  using bounded_reader_bounded [of 5 chunk_read "[(4, None, None), (4, None, None)]" "[''abcdefgh'']" id] by auto

text \<open>C19.  With the largest int64 as limit, which \<open>ValidatePutOptions\<close> accepts, the reader's first
  read panics: \<open>remaining+1\<close> wraps to the smallest int64 and the buffer is sliced to it.\<close>

theorem bounded_reader_max_panics:
  "ValidatePutOptions (''blb_'' @ replicate 52 CHR ''a'') True
     \<lparr>poMaxBytes = 2 ^ 63 - 1, poTimeout = 1, poExpectedSize = None, poExpectedSHA256 = []\<rparr> = None \<and>
   bounded_read source n None None (NewBoundedReader (2 ^ 63 - 1), s) = None"
proof -
  have "Key_Valid (''blb_'' @ replicate 52 CHR ''a'')"
    by (simp add: Key_Valid_def pat_prefixed_append list_all_iff class_defs) (code_simp)
  then show ?thesis
    by (simp add: ValidatePutOptions_def bounded_read_def NewBoundedReader_def ContextError_def Let_def wrap64_def)
qed

text \<open>C20.  Reading a verified stream to its end without an error yields exactly as many bytes as the
  committed metadata say, with the committed digest, for any stream that keeps the contract of
  \<open>io.Reader\<close>.\<close>

theorem verified_reader_sound:
  assumes "io_reader source" "0 \<le> n"
    and "read_all sha source calls (NewVerifiedReader n digest, s) = Some (bs, None)"
    and "list_all (\<lambda>(k, c). n + int k \<le> 2 ^ 63 - 1) calls"
  shows "int (length bs) = n \<and> hex_of (sha bs) = digest"
  using io_reader.read_all_verified [OF assms(1,3), of "[]"] assms(2,4)
  by (simp add: io_reader.verified_inv_def [OF assms(1)] NewVerifiedReader_def)

theorem verified_reader_sound_witness:
  "read_all id chunk_read [(2, None), (2, None), (2, None)] (NewVerifiedReader 3 (hex_of ''abc''), [''abc'']) = Some (''abc'', None) \<and>
   int (length ''abc'') = 3 \<and> hex_of (id ''abc'') = hex_of ''abc''"
proof -
  have r: "read_all id chunk_read [(2, None), (2, None), (2, None)] (NewVerifiedReader 3 (hex_of ''abc''), [''abc'']) = Some (''abc'', None)"
    by code_simp
  from verified_reader_sound [OF chunks.io_reader_axioms _ r] r show ?thesis by simp
qed

text \<open>Generated keys are accepted by the parser that restores them, and the parser accepts
  nothing that has a path separator.\<close>

theorem new_key_parses:
  "(\<forall>k. NewKey rnd = Inr k \<longrightarrow> ParseKey k = Inr k) \<and> (\<forall>v. ParseKey v = Inr v \<longrightarrow> CHR ''/'' \<notin> set v \<and> CHR ''.'' \<notin> set v)"
proof -
  have b: "pat_prefixed ''blb_'' base32_char 52 (''blb_'' @ base32_lower x)" if "length x = 32" for x
    unfolding pat_prefixed_append using that base32_lower_chars by (simp add: base32_lower_length)
  have k: "ParseKey k = Inr k" if "NewKey rnd = Inr k" for k
    using that b [of "take 32 (the rnd @ replicate 32 nul_byte)"]
    by (auto simp: NewKey_def ParseKey_def Key_Valid_def split: option.splits)
  have "CHR ''/'' \<notin> set v \<and> CHR ''.'' \<notin> set v" if "ParseKey v = Inr v" for v
  proof -
    from that obtain r where "strip_prefix ''blb_'' v = Some r" "list_all base32_char r"
      by (auto simp: ParseKey_def Key_Valid_def pat_prefixed_def split: if_splits option.splits)
    then have "v = ''blb_'' @ r" "list_all base32_char r" by (simp_all only: strip_prefix_Some)
    moreover have "\<not> base32_char CHR ''/''" "\<not> base32_char CHR ''.''" by code_simp+
    ultimately show ?thesis by (auto simp: list_all_iff)
  qed
  with k show ?thesis by blast
qed

theorem new_key_parses_witness:
  "ParseKey (''blb_'' @ base32_lower (replicate 32 nul_byte)) = Inr (''blb_'' @ base32_lower (replicate 32 nul_byte))"
  using new_key_parses [of "Some []"] by (simp add: NewKey_def)

end
