(* ===== verification/Identity.thy ===== *)
theory Identity
  imports Sql_Store Go_Encoding
begin

text \<open>
  Bearer-token authentication (\<open>internal/authentication\<close>) and capability authorization
  (\<open>internal/authorization\<close>) over the identity tables of migration 00012.  Rows are records with their
  \<open>CHECK\<close> constraints; \<open>FindByPrefix\<close>, \<open>RecordUse\<close> and \<open>IsAllowed\<close> are the packages' queries.  The
  clock, the random source, HMAC-SHA-256 and database faults are parameters.
\<close>

section \<open>The identity tables\<close>

record principal_row =
  p_id :: string
  p_kind :: string
  p_state :: string
  p_created_at :: gotime
  p_updated_at :: gotime

definition in_chars :: "nat \<Rightarrow> nat \<Rightarrow> string \<Rightarrow> bool" where
  "in_chars lo hi s \<longleftrightarrow> lo \<le> rune_count s \<and> rune_count s \<le> hi"

definition principal_row_ok :: "principal_row \<Rightarrow> bool" where
  "principal_row_ok r \<longleftrightarrow> in_chars 3 128 (p_id r) \<and> p_kind r \<in> {''user'', ''service_account'', ''agent'', ''system''} \<and>
     p_state r \<in> {''active'', ''suspended''} \<and> p_created_at r \<le> p_updated_at r"

record membership_row =
  m_workspace :: string
  m_principal :: string
  m_state :: string
  m_valid_from :: gotime
  m_valid_until :: "gotime option"

definition interval_ok :: "gotime \<Rightarrow> gotime option \<Rightarrow> bool" where
  "interval_ok from until \<longleftrightarrow> (case until of None \<Rightarrow> True | Some u \<Rightarrow> from < u)"

definition membership_row_ok :: "membership_row \<Rightarrow> bool" where
  "membership_row_ok r \<longleftrightarrow> m_state r \<in> {''invited'', ''active'', ''suspended'', ''removed''} \<and>
     interval_ok (m_valid_from r) (m_valid_until r) \<and> (m_state r \<noteq> ''removed'' \<or> m_valid_until r \<noteq> None)"

record service_account_row =
  sa_workspace :: string
  sa_principal :: string
  sa_display_name :: string
  sa_owner :: "string option"
  sa_expires_at :: "gotime option"
  sa_created_at :: gotime

definition service_account_row_ok :: "service_account_row \<Rightarrow> bool" where
  "service_account_row_ok r \<longleftrightarrow> in_chars 1 255 (sa_display_name r) \<and> interval_ok (sa_created_at r) (sa_expires_at r)"

record role_row =
  ro_workspace :: string
  ro_id :: string
  ro_name :: string
  ro_created_at :: gotime

definition role_row_ok :: "role_row \<Rightarrow> bool" where
  "role_row_ok r \<longleftrightarrow> in_chars 3 128 (ro_id r) \<and> in_chars 1 128 (ro_name r)"

definition validCapability :: "string \<Rightarrow> bool" where
  "validCapability c \<longleftrightarrow> pat_ident capability_char 127 c"

record role_capability_row =
  rc_workspace :: string
  rc_role :: string
  rc_capability :: string

definition role_capability_row_ok :: "role_capability_row \<Rightarrow> bool" where
  "role_capability_row_ok r \<longleftrightarrow> validCapability (rc_capability r)"

record role_binding_row =
  rb_workspace :: string
  rb_id :: string
  rb_principal :: string
  rb_role :: string
  rb_scope_type :: string
  rb_application :: "string option"
  rb_valid_from :: gotime
  rb_valid_until :: "gotime option"

definition role_binding_row_ok :: "role_binding_row \<Rightarrow> bool" where
  "role_binding_row_ok r \<longleftrightarrow> in_chars 3 128 (rb_id r) \<and>
     (rb_scope_type r = ''workspace'' \<and> rb_application r = None \<or>
      rb_scope_type r = ''application'' \<and> rb_application r \<noteq> None) \<and>
     interval_ok (rb_valid_from r) (rb_valid_until r)"

record api_token_row =
  t_workspace :: string
  t_id :: string
  t_principal :: string
  t_prefix :: string
  t_verifier :: string
  t_verifier_key :: string
  t_scope_mode :: string
  t_created_at :: gotime
  t_expires_at :: gotime
  t_last_used_at :: "gotime option"
  t_revoked_at :: "gotime option"

definition key_id_ok :: "string \<Rightarrow> bool" where
  "key_id_ok k \<longleftrightarrow> pat_run key_char 1 64 k"

definition prefix_ok :: "string \<Rightarrow> bool" where
  "prefix_ok p \<longleftrightarrow> pat_prefixed ''oaspm_'' base32_char 20 p"

definition not_before :: "gotime \<Rightarrow> gotime option \<Rightarrow> bool" where
  "not_before t u \<longleftrightarrow> (case u of None \<Rightarrow> True | Some v \<Rightarrow> t \<le> v)"

definition api_token_row_ok :: "api_token_row \<Rightarrow> bool" where
  "api_token_row_ok r \<longleftrightarrow> in_chars 3 128 (t_id r) \<and> prefix_ok (t_prefix r) \<and> length (t_verifier r) = 32 \<and>
     key_id_ok (t_verifier_key r) \<and> t_scope_mode r \<in> {''workspace'', ''explicit''} \<and> t_created_at r < t_expires_at r \<and>
     not_before (t_created_at r) (t_last_used_at r) \<and> not_before (t_created_at r) (t_revoked_at r)"

record token_capability_row =
  tc_workspace :: string
  tc_token :: string
  tc_capability :: string

definition token_capability_row_ok :: "token_capability_row \<Rightarrow> bool" where
  "token_capability_row_ok r \<longleftrightarrow> validCapability (tc_capability r)"

record token_scope_row =
  ts_workspace :: string
  ts_token :: string
  ts_application :: string

record identity_db =
  applications :: "(string \<times> string) list"
  principals :: "principal_row list"
  memberships :: "membership_row list"
  service_accounts :: "service_account_row list"
  roles :: "role_row list"
  role_capabilities :: "role_capability_row list"
  role_bindings :: "role_binding_row list"
  api_tokens :: "api_token_row list"
  token_capabilities :: "token_capability_row list"
  token_scopes :: "token_scope_row list"

text \<open>The constraints of the tables authentication writes to or relies on.\<close>

definition identity_ok :: "identity_db \<Rightarrow> bool" where
  "identity_ok db \<longleftrightarrow>
     list_all principal_row_ok (principals db) \<and> distinct (map p_id (principals db)) \<and>
     list_all membership_row_ok (memberships db) \<and> distinct (map (\<lambda>r. (m_workspace r, m_principal r)) (memberships db)) \<and>
     list_all service_account_row_ok (service_accounts db) \<and> distinct (map sa_principal (service_accounts db)) \<and>
     list_all role_row_ok (roles db) \<and> distinct (map (\<lambda>r. (ro_workspace r, ro_id r)) (roles db)) \<and>
     distinct (map (\<lambda>r. (ro_workspace r, ro_name r)) (roles db)) \<and>
     list_all role_capability_row_ok (role_capabilities db) \<and> list_all role_binding_row_ok (role_bindings db) \<and>
     distinct (map (\<lambda>r. (rb_workspace r, rb_id r)) (role_bindings db)) \<and>
     list_all api_token_row_ok (api_tokens db) \<and> distinct (map t_prefix (api_tokens db)) \<and>
     distinct (map (\<lambda>r. (t_workspace r, t_id r)) (api_tokens db)) \<and> list_all token_capability_row_ok (token_capabilities db)"

section \<open>base64, raw URL alphabet\<close>

definition base64_char :: "nat \<Rightarrow> char" where
  "base64_char d =
     char_of (if d < 26 then 65 + d else if d < 52 then 71 + d else if d < 62 then d - 4 else if d = 62 then 45 else (95::nat))"

definition base64_value :: "char \<Rightarrow> nat option" where
  "base64_value c =
     (let b = byte c in
      if 65 \<le> b \<and> b \<le> 90 then Some (b - 65) else if 97 \<le> b \<and> b \<le> 122 then Some (b - 71)
      else if 48 \<le> b \<and> b \<le> 57 then Some (b + 4) else if b = 45 then Some 62 else if b = 95 then Some 63 else None)"

fun group3 :: "nat list \<Rightarrow> nat list" where
  "group3 (a # b # c # r) = a div 4 # ((a mod 4) * 16 + b div 16) # ((b mod 16) * 4 + c div 64) # c mod 64 # group3 r"
| "group3 [a, b] = [a div 4, (a mod 4) * 16 + b div 16, (b mod 16) * 4]"
| "group3 [a] = [a div 4, (a mod 4) * 16]"
| "group3 [] = []"

definition base64url :: "string \<Rightarrow> string" where
  "base64url s = map base64_char (group3 (map byte s))"

text \<open>The decoder skips carriage returns and line feeds and ignores the spare bits of a last group; a
  last group of one character is an error.\<close>

fun group4 :: "nat list \<Rightarrow> nat list option" where
  "group4 (a # b # c # d # r) =
     map_option (\<lambda>t. (a * 4 + b div 16) # ((b mod 16) * 16 + c div 4) # ((c mod 4) * 64 + d) # t) (group4 r)"
| "group4 [a, b, c] = Some [a * 4 + b div 16, (b mod 16) * 16 + c div 4]"
| "group4 [a, b] = Some [a * 4 + b div 16]"
| "group4 [a] = None"
| "group4 [] = Some []"

definition base64url_decode :: "string \<Rightarrow> string option" where
  "base64url_decode s =
     (let cs = filter (\<lambda>c. byte c \<noteq> 10 \<and> byte c \<noteq> 13) s in
      if list_all (\<lambda>c. base64_value c \<noteq> None) cs
      then map_option (map (char_of :: nat \<Rightarrow> char)) (group4 (map (the \<circ> base64_value) cs)) else None)"

section \<open>Authentication\<close>

datatype auth_error =
    AuthInvalid | ErrUnauthenticated | KeyUnavailable | VerifierLength | AuthRandom string | AuthDB string cause

record Config =
  confActiveKeyID :: string
  confKeys :: "(string \<times> string) list"

definition minimumKeyBytes :: nat where "minimumKeyBytes = 32"

definition validateConfig :: "Config \<Rightarrow> bool" where
  "validateConfig c \<longleftrightarrow> key_id_ok (confActiveKeyID c) \<and> confKeys c \<noteq> [] \<and>
     list_all (\<lambda>(i, k). key_id_ok i \<and> minimumKeyBytes \<le> length k) (confKeys c) \<and>
     map_of (confKeys c) (confActiveKeyID c) \<noteq> None"

record Subject =
  subTokenID :: string
  subPrincipalID :: string
  subWorkspaceID :: string

record GeneratedToken =
  genPlaintext :: string
  genPrefix :: string
  genVerifier :: string
  genVerifierKeyID :: string

record tokenRecord =
  trID :: string
  trPrincipalID :: string
  trWorkspaceID :: string
  trPrefix :: string
  trVerifier :: string
  trVerifierKeyID :: string
  trExpiresAt :: gotime
  trRevokedAt :: "gotime option"

definition verifier :: "(string \<Rightarrow> string \<Rightarrow> string) \<Rightarrow> string \<Rightarrow> string \<Rightarrow> string" where
  "verifier hmac key plaintext = hmac key plaintext"

text \<open>A service is its active key and key table; \<open>service.keys[id]\<close> of a missing key is the empty key.\<close>

definition Generate :: "(string \<Rightarrow> string \<Rightarrow> string) \<Rightarrow> Config \<Rightarrow> string option \<Rightarrow> string option \<Rightarrow> auth_error + GeneratedToken" where
  "Generate hmac c prefixRnd secretRnd =
     (case prefixRnd of
        None \<Rightarrow> Inl (AuthRandom ''generate token prefix'')
      | Some pb \<Rightarrow>
          (case secretRnd of
             None \<Rightarrow> Inl (AuthRandom ''generate token secret'')
           | Some sb \<Rightarrow>
               (let prefix = ''oaspm_'' @ base32_lower (take 12 (pb @ replicate 12 nul_byte));
                    plaintext = prefix @ ''.'' @ base64url (take 32 (sb @ replicate 32 nul_byte));
                    key = (case map_of (confKeys c) (confActiveKeyID c) of None \<Rightarrow> [] | Some k \<Rightarrow> k)
                in Inr \<lparr>genPlaintext = plaintext, genPrefix = prefix,
                        genVerifier = verifier hmac key plaintext, genVerifierKeyID = confActiveKeyID c\<rparr>)))"

fun cut_dot :: "string \<Rightarrow> (string \<times> string) option" where
  "cut_dot [] = None"
| "cut_dot (c # cs) = (if c = CHR ''.'' then Some ([], cs) else map_option (\<lambda>(a, b). (c # a, b)) (cut_dot cs))"

definition parseToken :: "string \<Rightarrow> string option" where
  "parseToken plaintext =
     (if length plaintext \<noteq> 6 + 20 + 1 + 43 \<or> \<not> trimmed plaintext then None
      else
        (case cut_dot plaintext of
           None \<Rightarrow> None
         | Some (prefix, enc) \<Rightarrow>
             if \<not> prefix_ok prefix then None
             else
               (case base64url_decode enc of
                  None \<Rightarrow> None
                | Some secret \<Rightarrow> if length secret \<noteq> 32 then None else Some prefix)))"

definition token_record :: "api_token_row \<Rightarrow> tokenRecord" where
  "token_record r =
     \<lparr>trID = t_id r, trPrincipalID = t_principal r, trWorkspaceID = t_workspace r, trPrefix = t_prefix r,
      trVerifier = t_verifier r, trVerifierKeyID = t_verifier_key r, trExpiresAt = t_expires_at r,
      trRevokedAt = t_revoked_at r\<rparr>"

definition FindByPrefix :: "db_env \<Rightarrow> string \<Rightarrow> identity_db \<Rightarrow> auth_error + tokenRecord" where
  "FindByPrefix env prefix db =
     (if \<not> prefix_ok prefix then Inl ErrUnauthenticated
      else
        (case stmt_fault env ''query API token'' [prefix] of
           Some c \<Rightarrow> Inl (AuthDB ''query API token'' c)
         | None \<Rightarrow>
             (case sql_row (\<lambda>r. t_prefix r = prefix) (api_tokens db) of
                None \<Rightarrow> Inl ErrUnauthenticated
              | Some r \<Rightarrow> if length (t_verifier r) \<noteq> 32 then Inl VerifierLength else Inr (token_record r))))"

definition usable :: "tokenRecord \<Rightarrow> gotime \<Rightarrow> api_token_row \<Rightarrow> bool" where
  "usable rec usedAt r \<longleftrightarrow>
     t_workspace r = trWorkspaceID rec \<and> t_id r = trID rec \<and> t_principal r = trPrincipalID rec \<and>
     t_prefix r = trPrefix rec \<and> t_created_at r \<le> usedAt \<and> usedAt < t_expires_at r \<and> t_revoked_at r = None"

definition used_row :: "gotime \<Rightarrow> api_token_row \<Rightarrow> api_token_row" where
  "used_row usedAt r = r\<lparr>t_last_used_at := Some (case t_last_used_at r of None \<Rightarrow> usedAt | Some l \<Rightarrow> max l usedAt)\<rparr>"

definition RecordUse :: "db_env \<Rightarrow> tokenRecord \<Rightarrow> gotime \<Rightarrow> identity_db \<Rightarrow> identity_db \<times> (auth_error + bool)" where
  "RecordUse env rec usedAt db =
     (if \<not> prefix_ok (trPrefix rec) \<or> trID rec = [] \<or> trPrincipalID rec = [] \<or> trWorkspaceID rec = [] \<or> usedAt = 0
      then (db, Inl AuthInvalid)
      else
        (case commit env AuthDB ''update API token use'' [trWorkspaceID rec, trID rec, trPrincipalID rec, trPrefix rec] db
            (db\<lparr>api_tokens := sql_update (usable rec usedAt) (used_row usedAt) (api_tokens db)\<rparr>)
            (sql_count (usable rec usedAt) (api_tokens db)) of
           (db', Inl e) \<Rightarrow> (db', Inl e)
         | (db', Inr rows) \<Rightarrow>
             (case stmt_fault env ''read API token use result'' [] of
                Some c \<Rightarrow> (db', Inl (AuthDB ''read API token use result'' c))
              | None \<Rightarrow> (db', Inr (rows = 1)))))"

text \<open>The lookup and the recording of the use are two statements; here both see the same tables.  The update repeats
  the checks of expiry and revocation.\<close>

definition Authenticate ::
  "(string \<Rightarrow> string \<Rightarrow> string) \<Rightarrow> db_env \<Rightarrow> Config \<Rightarrow> gotime \<Rightarrow> string \<Rightarrow> identity_db \<Rightarrow> identity_db \<times> (auth_error + Subject)" where
  "Authenticate hmac env c now plaintext db =
     (case parseToken plaintext of
        None \<Rightarrow> (db, Inl ErrUnauthenticated)
      | Some prefix \<Rightarrow>
          (case FindByPrefix env prefix db of
             Inl e \<Rightarrow> (db, Inl e)
           | Inr rec \<Rightarrow>
               (case map_of (confKeys c) (trVerifierKeyID rec) of
                  None \<Rightarrow> (db, Inl KeyUnavailable)
                | Some key \<Rightarrow>
                    if verifier hmac key plaintext \<noteq> trVerifier rec then (db, Inl ErrUnauthenticated)
                    else
                      (case RecordUse env rec (truncate_us now) db of
                         (db', Inl e) \<Rightarrow> (db', Inl e)
                       | (db', Inr active) \<Rightarrow>
                           if \<not> active then (db', Inl ErrUnauthenticated)
                           else (db', Inr \<lparr>subTokenID = trID rec, subPrincipalID = trPrincipalID rec,
                                           subWorkspaceID = trWorkspaceID rec\<rparr>)))))"

section \<open>Authorization\<close>

datatype authz_error = ErrDenied | AuthzInvalid | AuthzDB cause

record Request =
  reqPrincipalID :: string
  reqWorkspaceID :: string
  reqCapability :: string
  reqApplicationID :: string
  reqTokenID :: string

definition validateRequest :: "Request \<Rightarrow> bool" where
  "validateRequest r \<longleftrightarrow> validOpaqueID (reqPrincipalID r) \<and> validOpaqueID (reqWorkspaceID r) \<and>
     validCapability (reqCapability r) \<and> (reqApplicationID r = [] \<or> validOpaqueID (reqApplicationID r)) \<and>
     (reqTokenID r = [] \<or> validOpaqueID (reqTokenID r))"

definition open_interval :: "gotime \<Rightarrow> gotime \<Rightarrow> gotime option \<Rightarrow> bool" where
  "open_interval now from until \<longleftrightarrow> from \<le> now \<and> (case until of None \<Rightarrow> True | Some u \<Rightarrow> now < u)"

definition member_active :: "Request \<Rightarrow> gotime \<Rightarrow> membership_row \<Rightarrow> bool" where
  "member_active q now m \<longleftrightarrow> m_principal m = reqPrincipalID q \<and> m_workspace m = reqWorkspaceID q \<and>
     m_state m = ''active'' \<and> open_interval now (m_valid_from m) (m_valid_until m)"

definition application_known :: "Request \<Rightarrow> identity_db \<Rightarrow> bool" where
  "application_known q db \<longleftrightarrow> reqApplicationID q = [] \<or>
     list_ex (\<lambda>a. a = (reqWorkspaceID q, reqApplicationID q)) (applications db)"

definition account_live :: "Request \<Rightarrow> gotime \<Rightarrow> identity_db \<Rightarrow> bool" where
  "account_live q now db \<longleftrightarrow>
     list_ex (\<lambda>a. sa_workspace a = reqWorkspaceID q \<and> sa_principal a = reqPrincipalID q \<and>
       (case sa_expires_at a of None \<Rightarrow> True | Some e \<Rightarrow> now < e)) (service_accounts db)"

definition binding_grants :: "Request \<Rightarrow> gotime \<Rightarrow> identity_db \<Rightarrow> role_binding_row \<Rightarrow> bool" where
  "binding_grants q now db b \<longleftrightarrow>
     rb_workspace b = reqWorkspaceID q \<and> rb_principal b = reqPrincipalID q \<and>
     list_ex (\<lambda>c. rc_workspace c = rb_workspace b \<and> rc_role c = rb_role b \<and> rc_capability c = reqCapability q)
       (role_capabilities db) \<and>
     open_interval now (rb_valid_from b) (rb_valid_until b) \<and>
     (reqApplicationID q = [] \<and> rb_scope_type b = ''workspace'' \<or>
      reqApplicationID q \<noteq> [] \<and>
        (rb_scope_type b = ''workspace'' \<or>
         rb_scope_type b = ''application'' \<and> rb_application b = Some (reqApplicationID q)))"

definition token_grants :: "Request \<Rightarrow> gotime \<Rightarrow> identity_db \<Rightarrow> api_token_row \<Rightarrow> bool" where
  "token_grants q now db t \<longleftrightarrow>
     t_workspace t = reqWorkspaceID q \<and> t_principal t = reqPrincipalID q \<and> t_id t = reqTokenID q \<and>
     list_ex (\<lambda>c. tc_workspace c = t_workspace t \<and> tc_token c = t_id t \<and> tc_capability c = reqCapability q)
       (token_capabilities db) \<and>
     t_created_at t \<le> now \<and> now < t_expires_at t \<and> t_revoked_at t = None \<and>
     (t_scope_mode t = ''workspace'' \<or>
      t_scope_mode t = ''explicit'' \<and> reqApplicationID q \<noteq> [] \<and>
        list_ex (\<lambda>s. ts_workspace s = t_workspace t \<and> ts_token s = t_id t \<and> ts_application s = reqApplicationID q)
          (token_scopes db))"

definition allowed :: "Request \<Rightarrow> gotime \<Rightarrow> identity_db \<Rightarrow> bool" where
  "allowed q now db \<longleftrightarrow>
     list_ex (\<lambda>p. p_id p = reqPrincipalID q \<and> p_state p = ''active'' \<and>
         (p_kind p \<noteq> ''service_account'' \<or> account_live q now db)) (principals db) \<and>
     list_ex (member_active q now) (memberships db) \<and>
     application_known q db \<and> list_ex (binding_grants q now db) (role_bindings db) \<and>
     (reqTokenID q = [] \<or> list_ex (token_grants q now db) (api_tokens db))"

definition IsAllowed :: "db_env \<Rightarrow> Request \<Rightarrow> gotime \<Rightarrow> identity_db \<Rightarrow> authz_error + bool" where
  "IsAllowed env q evaluatedAt db =
     (if \<not> validateRequest q \<or> evaluatedAt = 0 then Inl AuthzInvalid
      else
        (case stmt_fault env ''query authorization decision''
            [reqPrincipalID q, reqWorkspaceID q, reqCapability q, reqApplicationID q, reqTokenID q] of
           Some c \<Rightarrow> Inl (AuthzDB c)
         | None \<Rightarrow> Inr (allowed q evaluatedAt db)))"

definition Authorize :: "db_env \<Rightarrow> gotime \<Rightarrow> Request \<Rightarrow> identity_db \<Rightarrow> authz_error option" where
  "Authorize env now q db =
     (if \<not> validateRequest q then Some AuthzInvalid
      else
        (case IsAllowed env q (truncate_us now) db of
           Inl e \<Rightarrow> Some e
         | Inr ok \<Rightarrow> if \<not> ok then Some ErrDenied else None))"

section \<open>Encoding facts\<close>

lemma base64_char_value: "d < 64 \<Longrightarrow> base64_value (base64_char d) = Some d"
  by (auto simp: base64_value_def base64_char_def byte_def Let_def)

lemma base64_char_plain: "d < 64 \<Longrightarrow> byte (base64_char d) > 32 \<and> byte (base64_char d) < 128"
  by (auto simp: base64_char_def byte_def)

lemma group3_less: "list_all (\<lambda>b. b < 256) bs \<Longrightarrow> list_all (\<lambda>d. d < 64) (group3 bs)"
  by (induction bs rule: group3.induct) auto

lemma group3_length: "length (group3 bs) = (4 * length bs + 2) div 3"
  by (induction bs rule: group3.induct) auto

lemma group4_group3: "list_all (\<lambda>b. b < 256) bs \<Longrightarrow> group4 (group3 bs) = Some bs"
proof (induction bs rule: group3.induct)
  case (1 a b c r)
  have "a div 4 * 4 + ((a mod 4) * 16 + b div 16) div 16 = a" using 1 by (simp flip: div_mult2_eq)
  moreover have d: "b div 16 mod 16 = b div 16" using 1 by (simp add: less_mult_imp_div_less)
  moreover have "(((a mod 4) * 16 + b div 16) mod 16) * 16 + ((b mod 16) * 4 + c div 64) div 4 = b"
    using 1 by (simp add: d flip: div_mult2_eq)
  moreover have e: "c div 64 mod 4 = c div 64" using 1 by (simp add: less_mult_imp_div_less)
  moreover have "(((b mod 16) * 4 + c div 64) mod 4) * 64 + c mod 64 = c" using 1 by (simp add: e flip: div_mult2_eq)
  ultimately show ?case using 1 by simp
next
  case (2 a b)
  have "a div 4 * 4 + ((a mod 4) * 16 + b div 16) div 16 = a" using 2 by (simp flip: div_mult2_eq)
  moreover have d: "b div 16 mod 16 = b div 16" using 2 by (simp add: less_mult_imp_div_less)
  moreover have "(((a mod 4) * 16 + b div 16) mod 16) * 16 + ((b mod 16) * 4) div 4 = b" using 2 by (simp add: d)
  ultimately show ?case by simp
qed auto

lemma base64url_round_trip: "base64url_decode (base64url s) = Some s"
proof -
  let ?ds = "group3 (map byte s)"
  have b: "list_all (\<lambda>b. b < 256) (map byte s)" by (auto simp: list_all_iff byte_less)
  have d: "d < 64" if "d \<in> set ?ds" for d using group3_less [OF b] that by (auto simp: list_all_iff)
  have f: "filter (\<lambda>c. byte c \<noteq> 10 \<and> byte c \<noteq> 13) (base64url s) = base64url s"
    using d base64_char_plain by (fastforce simp: base64url_def filter_id_conv)
  have v: "map (the \<circ> base64_value) (base64url s) = ?ds"
    using d by (auto simp: base64url_def base64_char_value intro: map_idI)
  have l: "list_all (\<lambda>c. base64_value c \<noteq> None) (base64url s)"
    using d by (auto simp: base64url_def list_all_iff base64_char_value)
  have "map (char_of \<circ> byte) s = s" by (rule map_idI) (simp add: byte_def)
  then show ?thesis by (simp add: base64url_decode_def f l [simplified] v Let_def group4_group3 [OF b])
qed

lemma cut_dot_append: "CHR ''.'' \<notin> set p \<Longrightarrow> cut_dot (p @ CHR ''.'' # r) = Some (p, r)"
  by (induction p) auto

section \<open>Token generation and use\<close>

lemma base32_no_dot: "list_all base32_char r \<Longrightarrow> CHR ''.'' \<notin> set r"
proof -
  have "\<not> base32_char CHR ''.''" by code_simp
  then show "list_all base32_char r \<Longrightarrow> CHR ''.'' \<notin> set r" by (auto simp: list_all_iff)
qed

lemma trimmed_visible:
  assumes "s \<noteq> []" "32 < byte (hd s)" "byte (hd s) < 128" "32 < byte (last s)" "byte (last s) < 128"
  shows "trimmed s"
proof -
  have r: "list_all (\<lambda>p. case p of [] \<Rightarrow> False | x # _ \<Rightarrow> byte x \<le> 32 \<or> 128 \<le> byte x) space_runes"
    "list_all (\<lambda>p. case p of [] \<Rightarrow> False | x # _ \<Rightarrow> byte x \<le> 32 \<or> 128 \<le> byte x) (map rev space_runes)"
    by code_simp+
  have n: "list_all (\<lambda>p. case p of [] \<Rightarrow> False | x # _ \<Rightarrow> x \<noteq> c) ps"
    if "list_all (\<lambda>p. case p of [] \<Rightarrow> False | x # _ \<Rightarrow> byte x \<le> 32 \<or> 128 \<le> byte x) ps" "32 < byte c" "byte c < 128"
    for c ps using that by (fastforce simp: list_all_iff split: list.splits)
  have "s = hd s # tl s" "rev s = last s # tl (rev s)" using assms(1) by (simp_all add: hd_rev [symmetric])
  then show ?thesis
    unfolding trimmed_iff using strip_any_first [OF n [OF r(1)]] strip_any_first [OF n [OF r(2)]] assms(2-5) by metis
qed

lemma parseToken_generated:
  assumes "length pb = 12" "length sb = 32"
  shows "parseToken ((''oaspm_'' @ base32_lower pb) @ ''.'' @ base64url sb) = Some (''oaspm_'' @ base32_lower pb)"
proof -
  let ?p = "''oaspm_'' @ base32_lower pb" and ?e = "base64url sb"
  have p: "prefix_ok ?p" "length ?p = 26"
    unfolding prefix_ok_def pat_prefixed_append using assms(1) base32_lower_chars by (simp_all add: base32_lower_length)
  have e: "length ?e = 43" using assms(2) by (simp add: base64url_def group3_length)
  have "list_all (\<lambda>b. b < 256) (map byte sb)" by (auto simp: list_all_iff byte_less)
  from group3_less [OF this] have "32 < byte c \<and> byte c < 128" if "c \<in> set ?e" for c
    using that base64_char_plain by (auto simp: base64url_def list_all_iff)
  moreover have "last ?e \<in> set ?e" using e by (intro last_in_set) auto
  ultimately have l: "32 < byte (last ?e)" "byte (last ?e) < 128" by blast+
  have t: "trimmed (?p @ ''.'' @ ?e)"
    using e l by (intro trimmed_visible) (auto simp: byte_def)
  have c: "cut_dot (?p @ ''.'' @ ?e) = Some (?p, ?e)"
    using cut_dot_append [of ?p ?e] base32_no_dot [OF base32_lower_chars, of pb] by simp
  show ?thesis
    unfolding parseToken_def c using t p e assms(2) by (simp add: base64url_round_trip)
qed

lemma Authenticate_cases:
  assumes "Authenticate hmac env c now plaintext db = (db', res)"
  obtains (rejected) e where "db' = db" "res = Inl e"
  | (found) r key where "r \<in> set (api_tokens db)" "parseToken plaintext = Some (t_prefix r)"
      "map_of (confKeys c) (t_verifier_key r) = Some key" "hmac key plaintext = t_verifier r"
      "RecordUse env (token_record r) (truncate_us now) db = (db', case res of Inl e \<Rightarrow> (if e = ErrUnauthenticated then Inr False else Inl e) | Inr s \<Rightarrow> Inr True)"
      "\<And>s. res = Inr s \<Longrightarrow> s = \<lparr>subTokenID = t_id r, subPrincipalID = t_principal r, subWorkspaceID = t_workspace r\<rparr>"
proof (cases "\<exists>e. db' = db \<and> res = Inl e")
  case True
  with rejected show thesis by blast
next
  case False
  with assms obtain prefix rec key where p: "parseToken plaintext = Some prefix" "FindByPrefix env prefix db = Inr rec"
    "map_of (confKeys c) (trVerifierKeyID rec) = Some key" "hmac key plaintext = trVerifier rec"
    by (auto simp: Authenticate_def verifier_def split: option.splits sum.splits if_splits)
  then obtain r where r: "r \<in> set (api_tokens db)" "t_prefix r = prefix" "rec = token_record r"
    by (auto simp: FindByPrefix_def dest: sql_row_Some split: if_splits option.splits)
  obtain db1 u where u: "RecordUse env rec (truncate_us now) db = (db1, u)" by force
  have ne: "u \<noteq> Inl ErrUnauthenticated"
    using u by (auto simp: RecordUse_def commit_def split: if_splits option.splits sum.splits prod.splits)
  show thesis
  proof (rule found [OF r(1)])
    show "parseToken plaintext = Some (t_prefix r)" using p(1) r(2) by simp
    show "map_of (confKeys c) (t_verifier_key r) = Some key" "hmac key plaintext = t_verifier r"
      using p(3,4) r(3) by (simp_all add: token_record_def)
    show "RecordUse env (token_record r) (truncate_us now) db = (db', case res of Inl e \<Rightarrow> (if e = ErrUnauthenticated then Inr False else Inl e) | Inr s \<Rightarrow> Inr True)"
      using assms p u ne r(3) by (auto simp: Authenticate_def verifier_def split: sum.splits if_splits)
    show "\<And>s. res = Inr s \<Longrightarrow> s = \<lparr>subTokenID = t_id r, subPrincipalID = t_principal r, subWorkspaceID = t_workspace r\<rparr>"
      using assms p u r(3) by (auto simp: Authenticate_def verifier_def token_record_def split: sum.splits if_splits)
  qed
qed

lemma RecordUse_db:
  assumes "RecordUse env rec now db = (db', res)"
  shows "db' = db \<or> db' = db\<lparr>api_tokens := sql_update (usable rec now) (used_row now) (api_tokens db)\<rparr>"
  using assms by (auto simp: RecordUse_def commit_def split: if_splits option.splits sum.splits prod.splits)

lemma RecordUse_True:
  assumes "RecordUse env rec now db = (db', Inr True)"
  shows "\<exists>r\<in>set (api_tokens db). usable rec now r"
proof -
  from assms have "sql_count (usable rec now) (api_tokens db) = 1"
    by (auto simp: RecordUse_def commit_def split: if_splits option.splits sum.splits prod.splits)
  then have "filter (usable rec now) (api_tokens db) \<noteq> []" by (auto simp: sql_count_def)
  then show ?thesis by (auto simp: filter_empty_conv)
qed

lemma used_row_ok: "api_token_row_ok r \<Longrightarrow> usable rec now r \<Longrightarrow> api_token_row_ok (used_row now r)"
  by (auto simp: api_token_row_ok_def used_row_def usable_def not_before_def split: option.splits)

lemma used_row_frame [simp]:
  "t_prefix (used_row n r) = t_prefix r" "t_workspace (used_row n r) = t_workspace r" "t_id (used_row n r) = t_id r"
  by (simp_all add: used_row_def)

lemma RecordUse_ok:
  assumes "RecordUse env rec now db = (db', res)" "identity_ok db"
  shows "identity_ok db'"
proof -
  let ?db = "db\<lparr>api_tokens := sql_update (usable rec now) (used_row now) (api_tokens db)\<rparr>"
  have "identity_ok ?db"
    using assms(2) used_row_ok unfolding identity_ok_def
    by (auto simp: map_sql_update intro: list_all_sql_update)
  with RecordUse_db [OF assms(1)] assms(2) show ?thesis by auto
qed

section \<open>Restriction to a workspace\<close>

definition only_workspace :: "string \<Rightarrow> identity_db \<Rightarrow> identity_db" where
  "only_workspace w db = db\<lparr>
     applications := filter (\<lambda>a. fst a = w) (applications db),
     memberships := filter (\<lambda>r. m_workspace r = w) (memberships db),
     service_accounts := filter (\<lambda>r. sa_workspace r = w) (service_accounts db),
     roles := filter (\<lambda>r. ro_workspace r = w) (roles db),
     role_capabilities := filter (\<lambda>r. rc_workspace r = w) (role_capabilities db),
     role_bindings := filter (\<lambda>r. rb_workspace r = w) (role_bindings db),
     api_tokens := filter (\<lambda>r. t_workspace r = w) (api_tokens db),
     token_capabilities := filter (\<lambda>r. tc_workspace r = w) (token_capabilities db),
     token_scopes := filter (\<lambda>r. ts_workspace r = w) (token_scopes db)\<rparr>"

lemma list_ex_filter: "list_ex P (filter Q xs) \<longleftrightarrow> list_ex (\<lambda>x. Q x \<and> P x) xs"
  by (auto simp: list_ex_iff)

lemma only_workspace_sel [simp]:
  "principals (only_workspace w db) = principals db"
  "applications (only_workspace w db) = filter (\<lambda>a. fst a = w) (applications db)"
  "memberships (only_workspace w db) = filter (\<lambda>r. m_workspace r = w) (memberships db)"
  "service_accounts (only_workspace w db) = filter (\<lambda>r. sa_workspace r = w) (service_accounts db)"
  "role_capabilities (only_workspace w db) = filter (\<lambda>r. rc_workspace r = w) (role_capabilities db)"
  "role_bindings (only_workspace w db) = filter (\<lambda>r. rb_workspace r = w) (role_bindings db)"
  "api_tokens (only_workspace w db) = filter (\<lambda>r. t_workspace r = w) (api_tokens db)"
  "token_capabilities (only_workspace w db) = filter (\<lambda>r. tc_workspace r = w) (token_capabilities db)"
  "token_scopes (only_workspace w db) = filter (\<lambda>r. ts_workspace r = w) (token_scopes db)"
  by (simp_all add: only_workspace_def)

lemma grants_workspace:
  "binding_grants q now db b \<Longrightarrow> rb_workspace b = reqWorkspaceID q"
  "token_grants q now db t \<Longrightarrow> t_workspace t = reqWorkspaceID q"
  "member_active q now m \<Longrightarrow> m_workspace m = reqWorkspaceID q"
  by (simp_all add: binding_grants_def token_grants_def member_active_def)

lemma grants_only_workspace:
  "binding_grants q now (only_workspace (reqWorkspaceID q) db) b = binding_grants q now db b"
  "token_grants q now (only_workspace (reqWorkspaceID q) db) t = token_grants q now db t"
proof -
  show "binding_grants q now (only_workspace (reqWorkspaceID q) db) b = binding_grants q now db b"
    unfolding binding_grants_def only_workspace_sel list_ex_filter by (intro conj_cong refl) (auto simp: list_ex_iff)
  show "token_grants q now (only_workspace (reqWorkspaceID q) db) t = token_grants q now db t"
    unfolding token_grants_def only_workspace_sel list_ex_filter by (intro conj_cong refl) (auto simp: list_ex_iff)
qed

lemma only_workspace_parts:
  "account_live q now (only_workspace (reqWorkspaceID q) db) = account_live q now db"
  "application_known q (only_workspace (reqWorkspaceID q) db) = application_known q db"
  "list_ex (member_active q now) (memberships (only_workspace (reqWorkspaceID q) db)) = list_ex (member_active q now) (memberships db)"
  "list_ex (binding_grants q now (only_workspace (reqWorkspaceID q) db)) (role_bindings (only_workspace (reqWorkspaceID q) db)) =
     list_ex (binding_grants q now db) (role_bindings db)"
  "list_ex (token_grants q now (only_workspace (reqWorkspaceID q) db)) (api_tokens (only_workspace (reqWorkspaceID q) db)) =
     list_ex (token_grants q now db) (api_tokens db)"
proof -
  show "account_live q now (only_workspace (reqWorkspaceID q) db) = account_live q now db"
    unfolding account_live_def only_workspace_sel list_ex_filter by (auto simp: list_ex_iff)
  show "application_known q (only_workspace (reqWorkspaceID q) db) = application_known q db"
    unfolding application_known_def only_workspace_sel list_ex_filter by (auto simp: list_ex_iff)
qed (auto simp: list_ex_iff grants_only_workspace dest: grants_workspace)

section \<open>Properties\<close>

definition demo_keys :: Config where
  "demo_keys = \<lparr>confActiveKeyID = ''k1'', confKeys = [(''k1'', replicate 32 CHR ''k'')]\<rparr>"

definition demo_hmac :: "string \<Rightarrow> string \<Rightarrow> string" where
  "demo_hmac k t = take 32 (k @ t @ replicate 32 nul_byte)"

definition demo_plain :: string where
  "demo_plain = (''oaspm_'' @ base32_lower (replicate 12 nul_byte)) @ ''.'' @ base64url (replicate 32 nul_byte)"

definition demo_identity :: identity_db where
  "demo_identity =
     \<lparr>applications = [(''ws1'', ''app1'')],
      principals = [\<lparr>p_id = ''prn1'', p_kind = ''user'', p_state = ''active'', p_created_at = 1, p_updated_at = 1\<rparr>],
      memberships = [\<lparr>m_workspace = ''ws1'', m_principal = ''prn1'', m_state = ''active'', m_valid_from = 1, m_valid_until = None\<rparr>],
      service_accounts = [], roles = [\<lparr>ro_workspace = ''ws1'', ro_id = ''rol1'', ro_name = ''r'', ro_created_at = 1\<rparr>],
      role_capabilities = [\<lparr>rc_workspace = ''ws1'', rc_role = ''rol1'', rc_capability = ''imports.create''\<rparr>],
      role_bindings = [\<lparr>rb_workspace = ''ws1'', rb_id = ''rb1'', rb_principal = ''prn1'', rb_role = ''rol1'',
        rb_scope_type = ''workspace'', rb_application = None, rb_valid_from = 1, rb_valid_until = None\<rparr>],
      api_tokens = [\<lparr>t_workspace = ''ws1'', t_id = ''tok1'', t_principal = ''prn1'', t_prefix = ''oaspm_'' @ replicate 20 CHR ''a'',
        t_verifier = replicate 32 CHR ''k'', t_verifier_key = ''k1'', t_scope_mode = ''workspace'', t_created_at = 1,
        t_expires_at = 9000, t_last_used_at = None, t_revoked_at = None\<rparr>],
      token_capabilities = [\<lparr>tc_workspace = ''ws1'', tc_token = ''tok1'', tc_capability = ''imports.create''\<rparr>],
      token_scopes = []\<rparr>"

definition demo_request :: Request where
  "demo_request = \<lparr>reqPrincipalID = ''prn1'', reqWorkspaceID = ''ws1'', reqCapability = ''imports.create'',
     reqApplicationID = ''app1'', reqTokenID = ''tok1''\<rparr>"

lemma demo_identity_ok: "identity_ok demo_identity"
  by code_simp

lemma demo_identity_allowed: "Authorize (quiet_env 0) 2000 demo_request demo_identity = None"
  by code_simp

lemma generated_authenticates:
  assumes "Generate hmac c (Some pb) (Some sb) = Inr g" "validateConfig c" "\<forall>k t. length (hmac k t) = 32"
    and "identity_ok db" "r \<in> set (api_tokens db)" "t_prefix r = genPrefix g" "t_verifier r = genVerifier g"
      "t_verifier_key r = genVerifierKeyID g"
    and "t_created_at r \<le> truncate_us now" "truncate_us now < t_expires_at r" "t_revoked_at r = None" "truncate_us now \<noteq> 0"
    and "t_id r \<noteq> []" "t_principal r \<noteq> []" "t_workspace r \<noteq> []" "calm env"
      "list_all db_text [t_workspace r, t_id r, t_principal r, t_prefix r]"
  shows "snd (Authenticate hmac env c now (genPlaintext g) db) =
    Inr \<lparr>subTokenID = t_id r, subPrincipalID = t_principal r, subWorkspaceID = t_workspace r\<rparr>"
proof -
  let ?pb = "take 12 (pb @ replicate 12 nul_byte)" and ?sb = "take 32 (sb @ replicate 32 nul_byte)"
  from assms(2) obtain key where key: "map_of (confKeys c) (confActiveKeyID c) = Some key" by (auto simp: validateConfig_def)
  have g: "genPrefix g = ''oaspm_'' @ base32_lower ?pb" "genPlaintext g = (''oaspm_'' @ base32_lower ?pb) @ ''.'' @ base64url ?sb"
    "genVerifier g = hmac key (genPlaintext g)" "genVerifierKeyID g = confActiveKeyID c"
    using assms(1) key by (auto simp: Generate_def Let_def verifier_def)
  have p: "parseToken (genPlaintext g) = Some (t_prefix r)"
    unfolding g(2) using parseToken_generated [of ?pb ?sb] assms(6) g(1) by simp
  have u: "\<And>x. x \<in> set (api_tokens db) \<Longrightarrow> t_prefix x = t_prefix r \<Longrightarrow> x = r"
    using assms(4,5) distinct_key_unique [of t_prefix "api_tokens db"] by (auto simp: identity_ok_def)
  have po: "prefix_ok (t_prefix r)" "length (t_verifier r) = 32"
    using assms(4,5) by (auto simp: identity_ok_def api_token_row_ok_def list_all_iff)
  have f: "FindByPrefix env (t_prefix r) db = Inr (token_record r)"
    using po u assms(5,16,17) sql_row_unique [of r "api_tokens db" "\<lambda>x. t_prefix x = t_prefix r"]
    by (simp add: FindByPrefix_def stmt_fault_def calm_def)
  have d: "distinct (api_tokens db)" using assms(4) by (auto simp: identity_ok_def distinct_map)
  have us: "filter (usable (token_record r) (truncate_us now)) (api_tokens db) = [r]"
    using d assms(5,9-11) u by (intro filter_singleton) (auto simp: usable_def token_record_def)
  have "snd (RecordUse env (token_record r) (truncate_us now) db) = Inr True"
    using us assms(12-17) po by (simp add: RecordUse_def sql_count_def token_record_def stmt_fault_def calm_def)
  then obtain db1 where "RecordUse env (token_record r) (truncate_us now) db = (db1, Inr True)" by (metis prod.collapse)
  with p f key g(3,4) assms(7,8) show ?thesis
    by (simp add: Authenticate_def verifier_def token_record_def)
qed

definition demo_generated :: GeneratedToken where
  "demo_generated = \<lparr>genPlaintext = demo_plain, genPrefix = ''oaspm_'' @ base32_lower (replicate 12 nul_byte),
     genVerifier = replicate 32 CHR ''k'', genVerifierKeyID = ''k1''\<rparr>"

lemma demo_generate: "Generate demo_hmac demo_keys (Some []) (Some []) = Inr demo_generated"
  by (simp add: Generate_def demo_generated_def demo_plain_def demo_keys_def verifier_def demo_hmac_def Let_def)

lemma demo_tok_facts:
  "hd (api_tokens demo_identity) \<in> set (api_tokens demo_identity)" "t_prefix (hd (api_tokens demo_identity)) = genPrefix demo_generated"
  "t_verifier (hd (api_tokens demo_identity)) = genVerifier demo_generated" "validateConfig demo_keys"
  "t_verifier_key (hd (api_tokens demo_identity)) = genVerifierKeyID demo_generated"
proof -
  have "base32_lower (replicate 12 nul_byte) = replicate 20 CHR ''a''" by code_simp
  then show "t_prefix (hd (api_tokens demo_identity)) = genPrefix demo_generated"
    by (simp add: demo_identity_def demo_generated_def)
qed (simp_all add: demo_identity_def demo_generated_def validateConfig_def demo_keys_def minimumKeyBytes_def key_id_ok_def
      pat_run_def key_char_def capability_char_def name_char_def is_lower_def is_digit_def in_range_def byte_def)

lemma demo_hmac_length: "length (demo_hmac k t) = 32"
  by (simp add: demo_hmac_def)

lemma demo_token_row:
  "t_created_at (hd (api_tokens demo_identity)) = 1" "t_expires_at (hd (api_tokens demo_identity)) = 9000"
  "t_revoked_at (hd (api_tokens demo_identity)) = None" "t_id (hd (api_tokens demo_identity)) = ''tok1''"
  "t_principal (hd (api_tokens demo_identity)) = ''prn1''" "t_workspace (hd (api_tokens demo_identity)) = ''ws1''"
  "list_all db_text [''ws1'', ''tok1'', ''prn1'', t_prefix (hd (api_tokens demo_identity))]"
  by code_simp+

lemma demo_authenticates:
  "snd (Authenticate demo_hmac (quiet_env 0) demo_keys 2000 demo_plain demo_identity) =
     Inr \<lparr>subTokenID = ''tok1'', subPrincipalID = ''prn1'', subWorkspaceID = ''ws1''\<rparr>"
  using generated_authenticates [OF demo_generate demo_tok_facts(4) _ demo_identity_ok demo_tok_facts(1-3,5), of 2000 "quiet_env 0"]
  by (simp add: demo_hmac_length demo_token_row demo_token_row(7) [simplified] demo_generated_def truncate_us_def)

text \<open>C22.  A bearer token authenticates only as the stored token that it verifies against under a
  configured key, and only between that token's creation and expiry while it is not revoked; recording
  the use keeps the identity tables well formed.\<close>

theorem authenticate_sound:
  assumes "Authenticate hmac env c now plaintext db = (db', Inr subj)" "identity_ok db"
  shows "identity_ok db' \<and> (\<exists>r\<in>set (api_tokens db). \<exists>key.
    subj = \<lparr>subTokenID = t_id r, subPrincipalID = t_principal r, subWorkspaceID = t_workspace r\<rparr> \<and>
    map_of (confKeys c) (t_verifier_key r) = Some key \<and> hmac key plaintext = t_verifier r \<and>
    t_created_at r \<le> truncate_us now \<and> truncate_us now < t_expires_at r \<and> t_revoked_at r = None)"
  using assms(1)
proof (cases rule: Authenticate_cases)
  case (found r key)
  from found(5) have u: "RecordUse env (token_record r) (truncate_us now) db = (db', Inr True)" by simp
  from RecordUse_True [OF u] obtain r' where r': "r' \<in> set (api_tokens db)" "usable (token_record r) (truncate_us now) r'" by blast
  then have "t_prefix r' = t_prefix r" by (simp add: usable_def token_record_def)
  with found(1) r' assms(2) have "r' = r" using distinct_key_unique [of t_prefix "api_tokens db" r' r] by (simp add: identity_ok_def)
  with r' found RecordUse_ok [OF u assms(2)] show ?thesis by (auto simp: usable_def token_record_def)
qed auto

theorem authenticate_sound_witness:
  "\<exists>r\<in>set (api_tokens demo_identity). t_id r = ''tok1'' \<and> t_revoked_at r = None"
proof -
  obtain db' res where a: "Authenticate demo_hmac (quiet_env 0) demo_keys 2000 demo_plain demo_identity = (db', res)" by force
  with demo_authenticates have "res = Inr \<lparr>subTokenID = ''tok1'', subPrincipalID = ''prn1'', subWorkspaceID = ''ws1''\<rparr>" by simp
  with authenticate_sound [of demo_hmac "quiet_env 0" demo_keys 2000 demo_plain demo_identity] a demo_identity_ok
  show ?thesis by fastforce
qed

text \<open>C23.  A generated credential authenticates: once its prefix, verifier and key id are stored in a
  live token, presenting the plaintext yields that token's subject.\<close>

theorem generated_token_authenticates:
  assumes "Generate hmac c (Some pb) (Some sb) = Inr g" "validateConfig c" "\<forall>k t. length (hmac k t) = 32"
    and "identity_ok db" "r \<in> set (api_tokens db)" "t_prefix r = genPrefix g" "t_verifier r = genVerifier g"
      "t_verifier_key r = genVerifierKeyID g"
    and "t_created_at r \<le> truncate_us now" "truncate_us now < t_expires_at r" "t_revoked_at r = None" "truncate_us now \<noteq> 0"
    and "t_id r \<noteq> []" "t_principal r \<noteq> []" "t_workspace r \<noteq> []" "calm env"
      "list_all db_text [t_workspace r, t_id r, t_principal r, t_prefix r]"
  shows "snd (Authenticate hmac env c now (genPlaintext g) db) =
    Inr \<lparr>subTokenID = t_id r, subPrincipalID = t_principal r, subWorkspaceID = t_workspace r\<rparr>"
  by (rule generated_authenticates [OF assms])

theorem generated_token_authenticates_witness:
  "snd (Authenticate demo_hmac (quiet_env 0) demo_keys 2000 (genPlaintext demo_generated) demo_identity) =
     Inr \<lparr>subTokenID = ''tok1'', subPrincipalID = ''prn1'', subWorkspaceID = ''ws1''\<rparr>"
  using generated_token_authenticates [OF demo_generate demo_tok_facts(4) _ demo_identity_ok demo_tok_facts(1-3,5), of 2000 "quiet_env 0"]
  by (simp add: demo_hmac_length demo_token_row demo_token_row(7) [simplified] truncate_us_def)

lemma drop_token:
  "account_live (q\<lparr>reqTokenID := []\<rparr>) now db = account_live q now db"
  "application_known (q\<lparr>reqTokenID := []\<rparr>) db = application_known q db"
  "member_active (q\<lparr>reqTokenID := []\<rparr>) now = member_active q now"
  "binding_grants (q\<lparr>reqTokenID := []\<rparr>) now db = binding_grants q now db"
  by (auto simp: account_live_def application_known_def member_active_def binding_grants_def intro!: ext)

lemma db_text_Nil: "db_text []"
  by code_simp

text \<open>C24.  An authorization decision depends only on the rows of the workspace it is asked for (and on
  the global principals): rows of other tenants never change it.\<close>

theorem authorization_isolated:
  "Authorize env now q db = Authorize env now q (only_workspace (reqWorkspaceID q) db)"
  by (simp only: Authorize_def IsAllowed_def allowed_def only_workspace_parts only_workspace_sel(1))

text \<open>C25.  A token never widens its principal's rights: what is allowed with a token is allowed to the
  principal itself.\<close>

theorem token_never_widens:
  assumes "Authorize env now q db = None"
  shows "Authorize env now (q\<lparr>reqTokenID := []\<rparr>) db = None"
proof -
  have "validateRequest q" "allowed q (truncate_us now) db" "truncate_us now \<noteq> 0"
    and f: "stmt_fault env ''query authorization decision'' [reqPrincipalID q, reqWorkspaceID q, reqCapability q, reqApplicationID q, reqTokenID q] = None"
    using assms by (auto simp: Authorize_def IsAllowed_def split: if_splits option.splits)
  then have "validateRequest (q\<lparr>reqTokenID := []\<rparr>)" "allowed (q\<lparr>reqTokenID := []\<rparr>) (truncate_us now) db"
    by (simp_all add: validateRequest_def allowed_def drop_token)
  moreover have "stmt_fault env ''query authorization decision'' [reqPrincipalID q, reqWorkspaceID q, reqCapability q, reqApplicationID q, []] = None"
    using f by (auto simp: stmt_fault_def db_text_Nil split: if_splits option.splits)
  ultimately show ?thesis using \<open>truncate_us now \<noteq> 0\<close> by (simp add: Authorize_def IsAllowed_def)
qed

theorem token_never_widens_witness:
  "Authorize (quiet_env 0) 2000 (demo_request\<lparr>reqTokenID := []\<rparr>) demo_identity = None"
  by (rule token_never_widens [OF demo_identity_allowed])

text \<open>Authorization fails closed: a fault of the query or a principal without an active row denies, and
  suspending the principal, removing its membership or revoking the token turns an allowed request into a denied one.\<close>

theorem authorization_fails_closed:
  assumes "Authorize env now q db = None"
  shows "db_fault env ''query authorization decision'' = None \<and>
    (\<exists>p\<in>set (principals db). p_id p = reqPrincipalID q \<and> p_state p = ''active'') \<and>
    Authorize env now q (db\<lparr>principals := map (\<lambda>p. if p_id p = reqPrincipalID q then p\<lparr>p_state := ''suspended''\<rparr> else p) (principals db)\<rparr>)
      = Some ErrDenied \<and>
    Authorize env now q (db\<lparr>memberships := map (\<lambda>m. if m_principal m = reqPrincipalID q then m\<lparr>m_state := ''removed''\<rparr> else m) (memberships db)\<rparr>)
      = Some ErrDenied \<and>
    (reqTokenID q \<noteq> [] \<longrightarrow>
      Authorize env now q (db\<lparr>api_tokens := map (\<lambda>t. if t_id t = reqTokenID q then t\<lparr>t_revoked_at := Some now\<rparr> else t) (api_tokens db)\<rparr>)
        = Some ErrDenied)"
proof -
  have v: "validateRequest q" "truncate_us now \<noteq> 0" "allowed q (truncate_us now) db"
    "stmt_fault env ''query authorization decision'' [reqPrincipalID q, reqWorkspaceID q, reqCapability q, reqApplicationID q, reqTokenID q] = None"
    using assms by (auto simp: Authorize_def IsAllowed_def split: if_splits option.splits)
  have d: "\<not> allowed q (truncate_us now) db' \<Longrightarrow> Authorize env now q db' = Some ErrDenied" for db'
    using v by (simp add: Authorize_def IsAllowed_def)
  have p: "\<not> list_ex (\<lambda>p. p_id p = i \<and> p_state p = ''active'' \<and> X p)
      (map (\<lambda>p. if p_id p = i then p\<lparr>p_state := ''suspended''\<rparr> else p) ps)" for i X and ps :: "principal_row list"
    by (induction ps) simp_all
  have m: "\<not> list_ex (member_active q t) (map (\<lambda>m. if m_principal m = reqPrincipalID q then m\<lparr>m_state := ''removed''\<rparr> else m) ms)" for t ms
    by (auto simp: list_ex_iff member_active_def)
  have k: "\<not> list_ex (token_grants q t db') (map (\<lambda>t. if t_id t = reqTokenID q then t\<lparr>t_revoked_at := Some now\<rparr> else t) ts)" for t ts db'
    by (auto simp: list_ex_iff token_grants_def)
  show ?thesis
  proof (intro conjI impI d)
    show "db_fault env ''query authorization decision'' = None" using v(4) by (auto simp: stmt_fault_def split: if_splits option.splits)
    show "\<exists>p\<in>set (principals db). p_id p = reqPrincipalID q \<and> p_state p = ''active''"
      using v(3) unfolding allowed_def list_ex_iff by blast
  qed (simp_all add: allowed_def p m k)
qed

theorem authorization_fails_closed_witness:
  "Authorize (quiet_env 0) 2000 demo_request (demo_identity\<lparr>api_tokens :=
     map (\<lambda>t. if t_id t = ''tok1'' then t\<lparr>t_revoked_at := Some 2000\<rparr> else t) (api_tokens demo_identity)\<rparr>) = Some ErrDenied"
  using authorization_fails_closed [OF demo_identity_allowed] by (simp add: demo_request_def)

end
