(* ===== verification/Observation.thy ===== *)
theory Observation
  imports Sql_Store Go_Json_Facts "HOL-Library.Multiset"
begin

text \<open>
  The package \<open>internal/finding\<close>: immutable scanner observations (\<open>types.go\<close>, \<open>postgres.go\<close>), their
  versioned normalizations (\<open>normalization.go\<close>, \<open>normalization_postgres.go\<close>) and the SARIF normalizer
  (\<open>internal/normalization/sarif\<close>), over the tables of migrations 00006 and 00008.  A \<open>NULL\<close> text
  column written through \<open>NULLIF(.., '')\<close> is the empty string of the row.  The locale
  \<open>append_only\<close> is the contract of an immutable table; it is interpreted on the observations and the
  normalizations (and in \<open>Correlation\<close> on the outcomes).
\<close>

datatype finding_error =
    ObsInvalid | ErrObservationConflict | ErrScanNotFound | ErrNormalizationInvalid | ErrNormalizationConflict
  | ErrObservationNotFound | FindDB string cause

datatype FingerprintKind = FingerprintComplete | FingerprintPartial | OtherKind string

definition kind_text :: "FingerprintKind \<Rightarrow> string" where
  "kind_text k = (case k of FingerprintComplete \<Rightarrow> ''complete'' | FingerprintPartial \<Rightarrow> ''partial'' | OtherKind s \<Rightarrow> s)"

record SourceFingerprint =
  sfKind :: FingerprintKind
  sfName :: string
  sfValue :: string

record Location =
  locOrdinal :: int
  locSourcePointer :: string
  locURI :: string
  locURIBaseID :: string
  locArtifactIndex :: "int option"
  locStartLine :: "int option"
  locStartColumn :: "int option"
  locEndLine :: "int option"
  locEndColumn :: "int option"

record canonicalObservation =
  coWorkspaceID :: string
  coScanID :: string
  coRawArtifactID :: string
  coSourceResultIndex :: int
  coParserName :: string
  coParserVersion :: string
  coSourcePointer :: string
  coSourceGUID :: string
  coSourceCorrelationGUID :: string
  coSourceRuleID :: string
  coSourceRuleIndex :: "int option"
  coSourceSeverity :: string
  coSourceKind :: string
  coSourceBaselineState :: string
  coMessageID :: string
  coMessageText :: string
  coMessageMarkdown :: string
  coMessageArguments :: "string list"
  coLocations :: "Location list"
  coFingerprints :: "SourceFingerprint list"
  coObservedAt :: "gotime option"

text \<open>\<open>ObservationSpec\<close> has the fields of \<open>canonicalObservation\<close>, an identifier and a recording time.\<close>

record ObservationSpec =
  obsID :: string
  obsBody :: canonicalObservation
  obsRecordedAt :: gotime

record StoredObservation =
  soID :: string
  soWorkspaceID :: string
  soScanID :: string
  soRawArtifactID :: string
  soReceivedAt :: gotime
  soRecordedAt :: gotime
  soCreated :: bool

section \<open>Validation and canonical form\<close>

definition validOptionalIndex :: "int option \<Rightarrow> bool" where
  "validOptionalIndex v \<longleftrightarrow> (case v of None \<Rightarrow> True | Some i \<Rightarrow> 0 \<le> i)"

definition validOptionalPositive :: "int option \<Rightarrow> bool" where
  "validOptionalPositive v \<longleftrightarrow> (case v of None \<Rightarrow> True | Some i \<Rightarrow> 0 < i)"

definition validParserName :: "string \<Rightarrow> bool" where
  "validParserName n \<longleftrightarrow> pat_ident name_char 63 n"

definition mib :: nat where "mib = 1024 * 1024"

definition validLocation :: "Location \<Rightarrow> bool" where
  "validLocation l \<longleftrightarrow>
     0 \<le> locOrdinal l \<and> validText (locSourcePointer l) 1 1024 \<and> validOptionalBytes (locURI l) mib \<and>
     validOptionalText (locURIBaseID l) 512 \<and> validOptionalIndex (locArtifactIndex l) \<and>
     validOptionalPositive (locStartLine l) \<and> validOptionalPositive (locStartColumn l) \<and>
     validOptionalPositive (locEndLine l) \<and> validOptionalPositive (locEndColumn l)"

definition validFingerprint :: "SourceFingerprint \<Rightarrow> bool" where
  "validFingerprint f \<longleftrightarrow>
     (sfKind f = FingerprintComplete \<or> sfKind f = FingerprintPartial) \<and> validText (sfName f) 1 512 \<and>
     sfValue f \<noteq> [] \<and> validOptionalBytes (sfValue f) mib"

definition observation_fields_valid :: "ObservationSpec \<Rightarrow> bool" where
  "observation_fields_valid sp \<longleftrightarrow>
     (let b = obsBody sp in
      validOpaqueID (obsID sp) \<and> validOpaqueID (coWorkspaceID b) \<and> validOpaqueID (coScanID b) \<and>
      validOpaqueID (coRawArtifactID b) \<and> 0 \<le> coSourceResultIndex b \<and> obsRecordedAt sp \<noteq> 0 \<and>
      validParserName (coParserName b) \<and> validText (coParserVersion b) 1 64 \<and> validText (coSourcePointer b) 1 1024 \<and>
      validOptionalText (coSourceGUID b) 128 \<and> validOptionalText (coSourceCorrelationGUID b) 128 \<and>
      validOptionalText (coSourceRuleID b) 512 \<and> validOptionalIndex (coSourceRuleIndex b) \<and>
      validOptionalText (coSourceSeverity b) 64 \<and> validOptionalText (coSourceKind b) 64 \<and>
      validOptionalText (coSourceBaselineState b) 64 \<and> validOptionalText (coMessageID b) 512 \<and>
      validOptionalBytes (coMessageText b) mib \<and> validOptionalBytes (coMessageMarkdown b) mib \<and>
      length (coMessageArguments b) \<le> 1000 \<and> length (coLocations b) \<le> 1000 \<and> length (coFingerprints b) \<le> 2000 \<and>
      list_all (\<lambda>a. utf8_valid a \<and> length a \<le> mib \<and> \<not> has_nul a) (coMessageArguments b))"

definition opt_str :: "string \<Rightarrow> string \<Rightarrow> (string \<times> json) list" where
  "opt_str k s = (if s = [] then [] else [(k, JStr s)])"

definition opt_int :: "string \<Rightarrow> int option \<Rightarrow> (string \<times> json) list" where
  "opt_int k i = (case i of None \<Rightarrow> [] | Some n \<Rightarrow> [(k, JNum (itoa n))])"

text \<open>A nil slice is \<open>null\<close>; \<open>append([]T(nil), xs...)\<close> of no elements is nil.\<close>

definition slice :: "json list \<Rightarrow> json" where
  "slice vs = (if vs = [] then JNull else JArr vs)"

definition location_json :: "Location \<Rightarrow> json" where
  "location_json l = JObj
     ([(''ordinal'', JNum (itoa (locOrdinal l))), (''source_pointer'', JStr (locSourcePointer l))] @
      opt_str ''uri'' (locURI l) @ opt_str ''uri_base_id'' (locURIBaseID l) @
      opt_int ''artifact_index'' (locArtifactIndex l) @ opt_int ''start_line'' (locStartLine l) @
      opt_int ''start_column'' (locStartColumn l) @ opt_int ''end_line'' (locEndLine l) @
      opt_int ''end_column'' (locEndColumn l))"

definition fingerprint_json :: "SourceFingerprint \<Rightarrow> json" where
  "fingerprint_json f = JObj [(''kind'', JStr (kind_text (sfKind f))), (''name'', JStr (sfName f)), (''value'', JStr (sfValue f))]"

text \<open>\<open>time.Time.MarshalJSON\<close> fails outside the years 0 to 9999.\<close>

definition json_year :: "gotime \<Rightarrow> bool" where
  "json_year t \<longleftrightarrow> (let y = fst (civil (t div second div 86400)) in 0 \<le> y \<and> y \<le> 9999)"

definition observation_json :: "canonicalObservation \<Rightarrow> json" where
  "observation_json b = JObj
     ([(''workspace_id'', JStr (coWorkspaceID b)), (''scan_id'', JStr (coScanID b)),
       (''raw_artifact_id'', JStr (coRawArtifactID b)), (''source_result_index'', JNum (itoa (coSourceResultIndex b))),
       (''parser_name'', JStr (coParserName b)), (''parser_version'', JStr (coParserVersion b)),
       (''source_pointer'', JStr (coSourcePointer b))] @
      opt_str ''source_guid'' (coSourceGUID b) @ opt_str ''source_correlation_guid'' (coSourceCorrelationGUID b) @
      opt_str ''source_rule_id'' (coSourceRuleID b) @ opt_int ''source_rule_index'' (coSourceRuleIndex b) @
      opt_str ''source_severity'' (coSourceSeverity b) @ opt_str ''source_kind'' (coSourceKind b) @
      opt_str ''source_baseline_state'' (coSourceBaselineState b) @ opt_str ''message_id'' (coMessageID b) @
      opt_str ''message_text'' (coMessageText b) @ opt_str ''message_markdown'' (coMessageMarkdown b) @
      [(''message_arguments'', JArr (map JStr (coMessageArguments b))),
       (''locations'', slice (map location_json (coLocations b))),
       (''fingerprints'', slice (map fingerprint_json (coFingerprints b)))] @
      (case coObservedAt b of None \<Rightarrow> [] | Some t \<Rightarrow> [(''observed_at'', JStr (rfc3339nano t))]))"

text \<open>The error of \<open>json.Marshal\<close> is dropped, which leaves no bytes to hash.\<close>

definition observation_bytes :: "canonicalObservation \<Rightarrow> string" where
  "observation_bytes b =
     (case coObservedAt b of
        Some t \<Rightarrow> if json_year t then marshal (observation_json b) else []
      | None \<Rightarrow> marshal (observation_json b))"

definition fingerprint_key :: "SourceFingerprint \<Rightarrow> string \<times> string" where
  "fingerprint_key f = (kind_text (sfKind f), sfName f)"

definition canonicalizeObservation :: "(string \<Rightarrow> string) \<Rightarrow> ObservationSpec \<Rightarrow> (canonicalObservation \<times> string) option" where
  "canonicalizeObservation sha sp =
     (if \<not> observation_fields_valid sp then None
      else
        (let b = obsBody sp;
             locations = sort_key locOrdinal (coLocations b);
             fingerprints = sort_key fingerprint_key (coFingerprints b) in
         if \<not> (list_all validLocation locations \<and> distinct_adj (map locOrdinal locations)) then None
         else if \<not> (list_all validFingerprint fingerprints \<and> distinct_adj (map fingerprint_key fingerprints)) then None
         else
           (let obs = b\<lparr>coLocations := locations, coFingerprints := fingerprints\<rparr>
            in Some (obs, sha (observation_bytes obs)))))"

section \<open>Normalizations\<close>

datatype NormalizedSeverity =
    SeverityUnknown | SeverityNotApplicable | SeverityInformational | SeverityLow | SeverityMedium | SeverityHigh
  | SeverityCritical | OtherSeverity string

datatype NormalizedRuleKind = RuleUnknown | RuleSource | OtherRuleKind string

datatype NormalizedLocationKind = LocationUnknown | LocationArtifact | OtherLocationKind string

record NormalizedLocation =
  nlKind :: NormalizedLocationKind
  nlURI :: string
  nlURIBaseID :: string
  nlStartLine :: "int option"
  nlStartColumn :: "int option"
  nlEndLine :: "int option"
  nlEndColumn :: "int option"

record canonicalNormalization =
  cnWorkspaceID :: string
  cnObservationID :: string
  cnNormalizerName :: string
  cnNormalizerVersion :: string
  cnCategory :: string
  cnSeverity :: NormalizedSeverity
  cnRuleKind :: NormalizedRuleKind
  cnRuleID :: string
  cnLocation :: NormalizedLocation

record NormalizationSpec =
  nsBody :: canonicalNormalization
  nsNormalizedAt :: gotime

record StoredNormalization =
  snWorkspaceID :: string
  snObservationID :: string
  snNormalizerName :: string
  snNormalizerVersion :: string
  snNormalizedAt :: gotime
  snCreated :: bool

definition severity_text :: "NormalizedSeverity \<Rightarrow> string" where
  "severity_text s =
     (case s of SeverityUnknown \<Rightarrow> ''unknown'' | SeverityNotApplicable \<Rightarrow> ''not_applicable''
      | SeverityInformational \<Rightarrow> ''informational'' | SeverityLow \<Rightarrow> ''low'' | SeverityMedium \<Rightarrow> ''medium''
      | SeverityHigh \<Rightarrow> ''high'' | SeverityCritical \<Rightarrow> ''critical'' | OtherSeverity t \<Rightarrow> t)"

definition rule_kind_text :: "NormalizedRuleKind \<Rightarrow> string" where
  "rule_kind_text k = (case k of RuleUnknown \<Rightarrow> ''unknown'' | RuleSource \<Rightarrow> ''source'' | OtherRuleKind t \<Rightarrow> t)"

definition location_kind_text :: "NormalizedLocationKind \<Rightarrow> string" where
  "location_kind_text k = (case k of LocationUnknown \<Rightarrow> ''unknown'' | LocationArtifact \<Rightarrow> ''artifact'' | OtherLocationKind t \<Rightarrow> t)"

definition knownNormalizedSeverity :: "NormalizedSeverity \<Rightarrow> bool" where
  "knownNormalizedSeverity s \<longleftrightarrow> (case s of OtherSeverity _ \<Rightarrow> False | _ \<Rightarrow> True)"

definition validNormalizedRule :: "NormalizedRuleKind \<Rightarrow> string \<Rightarrow> bool" where
  "validNormalizedRule k i \<longleftrightarrow>
     (case k of RuleUnknown \<Rightarrow> i = [] | RuleSource \<Rightarrow> validText i 1 512 | OtherRuleKind _ \<Rightarrow> False)"

definition validNormalizedRegionOrder :: "NormalizedLocation \<Rightarrow> bool" where
  "validNormalizedRegionOrder l \<longleftrightarrow>
     (case (nlStartLine l, nlEndLine l) of
        (Some s, Some e) \<Rightarrow>
          \<not> e < s \<and>
          (e = s \<longrightarrow> (case (nlStartColumn l, nlEndColumn l) of (Some sc, Some ec) \<Rightarrow> \<not> ec < sc | _ \<Rightarrow> True))
      | _ \<Rightarrow> True)"

definition validNormalizedLocation :: "NormalizedLocation \<Rightarrow> bool" where
  "validNormalizedLocation l \<longleftrightarrow>
     (case nlKind l of
        LocationUnknown \<Rightarrow> nlURI l = [] \<and> nlURIBaseID l = [] \<and> nlStartLine l = None \<and> nlStartColumn l = None \<and>
          nlEndLine l = None \<and> nlEndColumn l = None
      | LocationArtifact \<Rightarrow> validOptionalBytes (nlURI l) mib \<and> nlURI l \<noteq> [] \<and> validOptionalText (nlURIBaseID l) 512 \<and>
          validOptionalPositive (nlStartLine l) \<and> validOptionalPositive (nlStartColumn l) \<and>
          validOptionalPositive (nlEndLine l) \<and> validOptionalPositive (nlEndColumn l) \<and> validNormalizedRegionOrder l
      | OtherLocationKind _ \<Rightarrow> False)"

definition normalized_location_json :: "NormalizedLocation \<Rightarrow> json" where
  "normalized_location_json l = JObj
     ([(''kind'', JStr (location_kind_text (nlKind l)))] @ opt_str ''uri'' (nlURI l) @
      opt_str ''uri_base_id'' (nlURIBaseID l) @ opt_int ''start_line'' (nlStartLine l) @
      opt_int ''start_column'' (nlStartColumn l) @ opt_int ''end_line'' (nlEndLine l) @ opt_int ''end_column'' (nlEndColumn l))"

definition normalization_json :: "canonicalNormalization \<Rightarrow> json" where
  "normalization_json c = JObj
     ([(''workspace_id'', JStr (cnWorkspaceID c)), (''observation_id'', JStr (cnObservationID c)),
       (''normalizer_name'', JStr (cnNormalizerName c)), (''normalizer_version'', JStr (cnNormalizerVersion c)),
       (''category'', JStr (cnCategory c)), (''severity'', JStr (severity_text (cnSeverity c))),
       (''rule_kind'', JStr (rule_kind_text (cnRuleKind c)))] @ opt_str ''rule_id'' (cnRuleID c) @
      [(''location'', normalized_location_json (cnLocation c))])"

definition canonicalizeNormalization :: "(string \<Rightarrow> string) \<Rightarrow> NormalizationSpec \<Rightarrow> (canonicalNormalization \<times> string) option" where
  "canonicalizeNormalization sha sp =
     (let c = nsBody sp in
      if \<not> (validOpaqueID (cnWorkspaceID c) \<and> validOpaqueID (cnObservationID c) \<and> validParserName (cnNormalizerName c) \<and>
            validText (cnNormalizerVersion c) 1 64 \<and> nsNormalizedAt sp \<noteq> 0 \<and> cnCategory c = ''unknown'' \<and>
            knownNormalizedSeverity (cnSeverity c) \<and> validNormalizedRule (cnRuleKind c) (cnRuleID c) \<and>
            validNormalizedLocation (cnLocation c))
      then None else Some (c, sha (marshal (normalization_json c))))"

section \<open>The tables\<close>

record scan_ref =
  sr_workspace :: string
  sr_id :: string
  sr_raw_artifact :: string
  sr_received_at :: gotime

record observation_row =
  o_id :: string
  o_body :: canonicalObservation
  o_received_at :: gotime
  o_recorded_at :: gotime
  o_fingerprint :: string

record normalization_row =
  n_body :: canonicalNormalization
  n_normalized_at :: gotime
  n_fingerprint :: string

definition int32 :: "int \<Rightarrow> bool" where
  "int32 i \<longleftrightarrow> - (2 ^ 31) \<le> i \<and> i < 2 ^ 31"

definition opt32 :: "int option \<Rightarrow> bool" where
  "opt32 i \<longleftrightarrow> (case i of None \<Rightarrow> True | Some n \<Rightarrow> int32 n)"

definition chars :: "nat \<Rightarrow> nat \<Rightarrow> string \<Rightarrow> bool" where
  "chars lo hi s \<longleftrightarrow> lo \<le> rune_count s \<and> rune_count s \<le> hi"

text \<open>A column that is \<open>NULL\<close> or has between 1 and \<open>n\<close> characters.\<close>

definition null_or_chars :: "nat \<Rightarrow> string \<Rightarrow> bool" where
  "null_or_chars n s \<longleftrightarrow> s = [] \<or> chars 1 n s"

definition observation_row_ok :: "observation_row \<Rightarrow> bool" where
  "observation_row_ok r \<longleftrightarrow>
     (let b = o_body r in
      chars 3 128 (o_id r) \<and> int32 (coSourceResultIndex b) \<and> 0 \<le> coSourceResultIndex b \<and>
      pat_ident name_char 63 (coParserName b) \<and> chars 1 64 (coParserVersion b) \<and> chars 1 1024 (coSourcePointer b) \<and>
      null_or_chars 128 (coSourceGUID b) \<and> null_or_chars 128 (coSourceCorrelationGUID b) \<and>
      null_or_chars 512 (coSourceRuleID b) \<and> opt32 (coSourceRuleIndex b) \<and> validOptionalIndex (coSourceRuleIndex b) \<and>
      null_or_chars 64 (coSourceSeverity b) \<and> null_or_chars 64 (coSourceKind b) \<and>
      null_or_chars 64 (coSourceBaselineState b) \<and> null_or_chars 512 (coMessageID b) \<and>
      length (coMessageText b) \<le> mib \<and> length (coMessageMarkdown b) \<le> mib \<and>
      length (coMessageArguments b) \<le> 1000 \<and> o_received_at r \<le> o_recorded_at r \<and> length (o_fingerprint r) = 32)"

definition location_row_ok :: "Location \<Rightarrow> bool" where
  "location_row_ok l \<longleftrightarrow>
     int32 (locOrdinal l) \<and> 0 \<le> locOrdinal l \<and> chars 1 1024 (locSourcePointer l) \<and> length (locURI l) \<le> mib \<and>
     null_or_chars 512 (locURIBaseID l) \<and> opt32 (locArtifactIndex l) \<and> validOptionalIndex (locArtifactIndex l) \<and>
     opt32 (locStartLine l) \<and> opt32 (locStartColumn l) \<and> opt32 (locEndLine l) \<and> opt32 (locEndColumn l) \<and>
     validOptionalPositive (locStartLine l) \<and> validOptionalPositive (locStartColumn l) \<and>
     validOptionalPositive (locEndLine l) \<and> validOptionalPositive (locEndColumn l)"

definition fingerprint_row_ok :: "SourceFingerprint \<Rightarrow> bool" where
  "fingerprint_row_ok f \<longleftrightarrow>
     (kind_text (sfKind f) = ''complete'' \<or> kind_text (sfKind f) = ''partial'') \<and> chars 1 512 (sfName f) \<and>
     1 \<le> length (sfValue f) \<and> length (sfValue f) \<le> mib"

definition region_order_ok :: "NormalizedLocation \<Rightarrow> bool" where
  "region_order_ok l \<longleftrightarrow>
     (case nlStartLine l of None \<Rightarrow> True | Some s \<Rightarrow>
       (case nlEndLine l of None \<Rightarrow> True | Some e \<Rightarrow>
         e > s \<or> e = s \<and> (case nlStartColumn l of None \<Rightarrow> True | Some sc \<Rightarrow>
           (case nlEndColumn l of None \<Rightarrow> True | Some ec \<Rightarrow> ec \<ge> sc))))"

definition normalization_row_ok :: "normalization_row \<Rightarrow> bool" where
  "normalization_row_ok r \<longleftrightarrow>
     (let c = n_body r; l = cnLocation c in
      pat_ident name_char 63 (cnNormalizerName c) \<and> chars 1 64 (cnNormalizerVersion c) \<and> cnCategory c = ''unknown'' \<and>
      severity_text (cnSeverity c) \<in> {''unknown'', ''not_applicable'', ''informational'', ''low'', ''medium'', ''high'', ''critical''} \<and>
      (rule_kind_text (cnRuleKind c) = ''unknown'' \<and> cnRuleID c = [] \<or>
       rule_kind_text (cnRuleKind c) = ''source'' \<and> cnRuleID c \<noteq> []) \<and> null_or_chars 512 (cnRuleID c) \<and>
      (location_kind_text (nlKind l) = ''unknown'' \<and> nlURI l = [] \<and> nlURIBaseID l = [] \<and> nlStartLine l = None \<and>
         nlStartColumn l = None \<and> nlEndLine l = None \<and> nlEndColumn l = None \<or>
       location_kind_text (nlKind l) = ''artifact'' \<and> nlURI l \<noteq> []) \<and>
      length (nlURI l) \<le> mib \<and> null_or_chars 512 (nlURIBaseID l) \<and>
      opt32 (nlStartLine l) \<and> opt32 (nlStartColumn l) \<and> opt32 (nlEndLine l) \<and> opt32 (nlEndColumn l) \<and>
      validOptionalPositive (nlStartLine l) \<and> validOptionalPositive (nlStartColumn l) \<and>
      validOptionalPositive (nlEndLine l) \<and> validOptionalPositive (nlEndColumn l) \<and> region_order_ok l \<and>
      length (n_fingerprint r) = 32)"

record finding_db =
  scans :: "scan_ref list"
  observations :: "observation_row list"
  observation_locations :: "((string \<times> string) \<times> Location) list"
  observation_fingerprints :: "((string \<times> string) \<times> SourceFingerprint) list"
  normalizations :: "normalization_row list"

definition observation_key :: "canonicalObservation \<Rightarrow> string \<times> string \<times> string \<times> string \<times> int" where
  "observation_key b = (coWorkspaceID b, coScanID b, coParserName b, coParserVersion b, coSourceResultIndex b)"

definition normalization_key :: "canonicalNormalization \<Rightarrow> string \<times> string \<times> string \<times> string" where
  "normalization_key c = (cnWorkspaceID c, cnObservationID c, cnNormalizerName c, cnNormalizerVersion c)"

text \<open>\<open>INSERT .. ON CONFLICT (key) DO NOTHING\<close> with the number of rows inserted; \<open>None\<close> is a constraint
  violation.\<close>

definition insert_once :: "('r \<Rightarrow> bool) \<Rightarrow> ('r \<Rightarrow> 'k) \<Rightarrow> 'r \<Rightarrow> 'r list \<Rightarrow> ('r list \<times> nat) option" where
  "insert_once ok key r rows =
     (if \<not> ok r then None
      else if list_ex (\<lambda>x. key x = key r) rows then Some (rows, 0)
      else Some (rows @ [r], 1))"

section \<open>The operations\<close>

definition selectStoredObservation :: "canonicalObservation \<Rightarrow> finding_db \<Rightarrow> (StoredObservation \<times> string) option" where
  "selectStoredObservation b db =
     map_option (\<lambda>r. (\<lparr>soID = o_id r, soWorkspaceID = coWorkspaceID (o_body r), soScanID = coScanID (o_body r),
         soRawArtifactID = coRawArtifactID (o_body r), soReceivedAt = o_received_at r, soRecordedAt = o_recorded_at r,
         soCreated = False\<rparr>, o_fingerprint r))
       (sql_row (\<lambda>r. observation_key (o_body r) = observation_key b) (observations db))"

definition location_rows_ok :: "string \<times> string \<Rightarrow> canonicalObservation \<Rightarrow> finding_db \<Rightarrow> bool" where
  "location_rows_ok k b db \<longleftrightarrow> list_all (\<lambda>l. location_row_ok l \<and>
     \<not> list_ex (\<lambda>(k', l'). k' = k \<and> locOrdinal l' = locOrdinal l) (observation_locations db)) (coLocations b)"

definition fingerprint_rows_ok :: "string \<times> string \<Rightarrow> canonicalObservation \<Rightarrow> finding_db \<Rightarrow> bool" where
  "fingerprint_rows_ok k b db \<longleftrightarrow> list_all (\<lambda>f. fingerprint_row_ok f \<and>
     \<not> list_ex (\<lambda>(k', f'). k' = k \<and> fingerprint_key f' = fingerprint_key f) (observation_fingerprints db)) (coFingerprints b)"

text \<open>The statement of a loop over rows, which runs only when there is a row.\<close>

definition stmt_each ::
  "db_env \<Rightarrow> string \<Rightarrow> 'x list \<Rightarrow> bool \<Rightarrow> 'db \<Rightarrow> 'db \<times> (finding_error + 'a) \<Rightarrow> 'db \<times> (finding_error + 'a)" where
  "stmt_each env msg xs ok old k =
     (if xs = [] then k
      else stmt env FindDB msg [] old (if ok then k else (old, Inl (FindDB msg (violation env msg)))))"

definition RecordObservation ::
  "(string \<Rightarrow> string) \<Rightarrow> db_env \<Rightarrow> ObservationSpec \<Rightarrow> finding_db \<Rightarrow> finding_db \<times> (finding_error + StoredObservation)" where
  "RecordObservation sha env sp db =
     (case canonicalizeObservation sha sp of
        None \<Rightarrow> (db, Inl ObsInvalid)
      | Some (obs, fp) \<Rightarrow>
          stmt env FindDB ''begin recording observation'' [] db
          (stmt env FindDB ''read observation scan'' [] db
          (case sql_row (\<lambda>s. sr_workspace s = coWorkspaceID obs \<and> sr_id s = coScanID obs \<and>
                  sr_raw_artifact s = coRawArtifactID obs) (scans db) of
             None \<Rightarrow> (db, Inl ErrScanNotFound)
           | Some sc \<Rightarrow>
               if obsRecordedAt sp < sr_received_at sc then (db, Inl ObsInvalid)
               else
                 (let r = \<lparr>o_id = obsID sp, o_body = obs, o_received_at = sr_received_at sc,
                           o_recorded_at = truncate_us (obsRecordedAt sp), o_fingerprint = fp\<rparr>;
                      k = (coWorkspaceID obs, obsID sp) in
                  stmt env FindDB ''insert observation'' [] db
                  (case insert_once observation_row_ok (observation_key \<circ> o_body) r (observations db) of
                     None \<Rightarrow> (db, Inl (FindDB ''insert observation'' (violation env ''insert observation'')))
                   | Some (rows, n) \<Rightarrow>
                       if n = 0 then
                         stmt env FindDB ''read existing observation'' [] db
                         (case selectStoredObservation obs db of
                            None \<Rightarrow> (db, Inl ErrObservationConflict)
                          | Some (stored, existing) \<Rightarrow>
                              if existing \<noteq> fp then (db, Inl ErrObservationConflict)
                              else commit env FindDB ''finish observation replay'' [] db db stored)
                       else if list_ex (\<lambda>x. o_id x = obsID sp \<and> coWorkspaceID (o_body x) = coWorkspaceID obs) (observations db)
                       then (db, Inl (FindDB ''insert observation'' (violation env ''insert observation'')))
                       else
                         stmt_each env ''insert observation location'' (coLocations obs) (location_rows_ok k obs db) db
                         (stmt_each env ''insert observation fingerprint'' (coFingerprints obs) (fingerprint_rows_ok k obs db) db
                         (commit env FindDB ''commit observation'' [] db
                           (db\<lparr>observations := rows,
                               observation_locations := observation_locations db @ map (Pair k) (coLocations obs),
                               observation_fingerprints := observation_fingerprints db @ map (Pair k) (coFingerprints obs)\<rparr>)
                           \<lparr>soID = obsID sp, soWorkspaceID = coWorkspaceID obs, soScanID = coScanID obs,
                            soRawArtifactID = coRawArtifactID obs, soReceivedAt = sr_received_at sc,
                            soRecordedAt = obsRecordedAt sp, soCreated = True\<rparr>)))))))"

definition RecordNormalization ::
  "(string \<Rightarrow> string) \<Rightarrow> db_env \<Rightarrow> NormalizationSpec \<Rightarrow> finding_db \<Rightarrow> finding_db \<times> (finding_error + StoredNormalization)" where
  "RecordNormalization sha env sp db =
     (case canonicalizeNormalization sha sp of
        None \<Rightarrow> (db, Inl ErrNormalizationInvalid)
      | Some (c, fp) \<Rightarrow>
          stmt env FindDB ''begin recording observation normalization'' [] db
          (stmt env FindDB ''read normalization source observation'' [] db
          (case sql_row (\<lambda>r. coWorkspaceID (o_body r) = cnWorkspaceID c \<and> o_id r = cnObservationID c) (observations db) of
             None \<Rightarrow> (db, Inl ErrObservationNotFound)
           | Some o' \<Rightarrow>
               if nsNormalizedAt sp < o_recorded_at o' then (db, Inl ErrNormalizationInvalid)
               else
                 stmt env FindDB ''insert observation normalization'' [] db
                 (case insert_once normalization_row_ok (normalization_key \<circ> n_body)
                     \<lparr>n_body = c, n_normalized_at = truncate_us (nsNormalizedAt sp), n_fingerprint = fp\<rparr> (normalizations db) of
                    None \<Rightarrow> (db, Inl (FindDB ''insert observation normalization'' (violation env ''insert observation normalization'')))
                  | Some (rows, n) \<Rightarrow>
                      if n = 0 then
                        stmt env FindDB ''read existing observation normalization'' [] db
                        (case sql_row (\<lambda>r. normalization_key (n_body r) = normalization_key c) (normalizations db) of
                           None \<Rightarrow> (db, Inl (FindDB ''read existing observation normalization'' DriverError))
                         | Some r \<Rightarrow>
                             if n_fingerprint r \<noteq> fp then (db, Inl ErrNormalizationConflict)
                             else commit env FindDB ''finish observation normalization replay'' [] db db
                               \<lparr>snWorkspaceID = cnWorkspaceID (n_body r), snObservationID = cnObservationID (n_body r),
                                snNormalizerName = cnNormalizerName (n_body r), snNormalizerVersion = cnNormalizerVersion (n_body r),
                                snNormalizedAt = n_normalized_at r, snCreated = False\<rparr>)
                      else
                        commit env FindDB ''commit observation normalization'' [] db (db\<lparr>normalizations := rows\<rparr>)
                          \<lparr>snWorkspaceID = cnWorkspaceID c, snObservationID = cnObservationID c,
                           snNormalizerName = cnNormalizerName c, snNormalizerVersion = cnNormalizerVersion c,
                           snNormalizedAt = nsNormalizedAt sp, snCreated = True\<rparr>))))"

section \<open>The SARIF normalizer\<close>

definition normalizeSeverity :: "string \<Rightarrow> NormalizedSeverity" where
  "normalizeSeverity s =
     (if s = ''none'' then SeverityNotApplicable else if s = ''note'' then SeverityLow
      else if s = ''warning'' then SeverityMedium else if s = ''error'' then SeverityHigh else SeverityUnknown)"

fun primary_location :: "Location \<Rightarrow> Location list \<Rightarrow> Location" where
  "primary_location p [] = p"
| "primary_location p (c # cs) = primary_location (if locOrdinal c < locOrdinal p then c else p) cs"

definition primaryArtifactLocation :: "Location list \<Rightarrow> NormalizedLocation option" where
  "primaryArtifactLocation ls =
     (case ls of
        [] \<Rightarrow> None
      | l # rest \<Rightarrow>
          (let p = primary_location l rest in
           if locURI p = [] then None
           else Some \<lparr>nlKind = LocationArtifact, nlURI = locURI p, nlURIBaseID = locURIBaseID p,
             nlStartLine = locStartLine p, nlStartColumn = locStartColumn p, nlEndLine = locEndLine p, nlEndColumn = locEndColumn p\<rparr>))"

definition unknown_location :: NormalizedLocation where
  "unknown_location = \<lparr>nlKind = LocationUnknown, nlURI = [], nlURIBaseID = [], nlStartLine = None, nlStartColumn = None,
     nlEndLine = None, nlEndColumn = None\<rparr>"

definition Normalize :: "ObservationSpec \<Rightarrow> gotime \<Rightarrow> NormalizationSpec option" where
  "Normalize o' at =
     (let b = obsBody o' in
      if coParserName b \<noteq> ''sarif'' \<or> coParserVersion b \<noteq> ''1'' then None
      else Some \<lparr>nsBody =
        \<lparr>cnWorkspaceID = coWorkspaceID b, cnObservationID = obsID o', cnNormalizerName = ''sarif'', cnNormalizerVersion = ''1'',
         cnCategory = ''unknown'', cnSeverity = normalizeSeverity (coSourceSeverity b),
         cnRuleKind = (if coSourceRuleID b \<noteq> [] then RuleSource else RuleUnknown), cnRuleID = coSourceRuleID b,
         cnLocation = (case primaryArtifactLocation (coLocations b) of Some l \<Rightarrow> l | None \<Rightarrow> unknown_location)\<rparr>,
        nsNormalizedAt = at\<rparr>)"

section \<open>Append-only tables\<close>

locale append_only =
  fixes step :: "'db \<Rightarrow> 'db \<Rightarrow> bool" and rows :: "'db \<Rightarrow> 'r list" and key :: "'r \<Rightarrow> 'k"
  assumes extends: "step db db' \<Longrightarrow> rows db' = rows db \<or> (\<exists>r. rows db' = rows db @ [r] \<and> key r \<notin> key ` set (rows db))"
begin

lemma steps_prefix: "step\<^sup>*\<^sup>* db db' \<Longrightarrow> \<exists>new. rows db' = rows db @ new"
  by (induction rule: rtranclp_induct) (auto dest: extends)

lemma steps_distinct: "step\<^sup>*\<^sup>* db db' \<Longrightarrow> distinct (map key (rows db)) \<Longrightarrow> distinct (map key (rows db'))"
  by (induction rule: rtranclp_induct) (auto dest: extends)

lemma lookup_stable:
  assumes "step\<^sup>*\<^sup>* db db'" "sql_row (\<lambda>x. key x = k) (rows db) = Some r"
  shows "sql_row (\<lambda>x. key x = k) (rows db') = Some r"
proof -
  have "find P (xs @ ys) = (case find P xs of None \<Rightarrow> find P ys | Some x \<Rightarrow> Some x)" for P :: "'r \<Rightarrow> bool" and xs ys
    by (induction xs) auto
  with steps_prefix [OF assms(1)] assms(2) show ?thesis by (auto simp: sql_row_def)
qed

end

lemma sql_row_fresh: "key r \<notin> key ` set rows \<Longrightarrow> sql_row (\<lambda>x. key x = key r) (rows @ [r]) = Some r"
  unfolding sql_row_def by (induction rows) auto

lemma insert_once_cases:
  assumes "insert_once ok key r rows = Some (rows', n)"
  obtains (present) "rows' = rows" "n = 0" "ok r" "\<exists>x\<in>set rows. key x = key r"
  | (fresh) "rows' = rows @ [r]" "n = 1" "ok r" "key r \<notin> key ` set rows"
  using assms by (fastforce simp: insert_once_def list_ex_iff split: if_splits)

lemma stmt_db:
  "stmt env w msg ps old k = (db', res) \<Longrightarrow> db' = old \<or> k = (db', res)"
  by (auto simp: stmt_def split: option.splits)

lemma stmt_each_db:
  "stmt_each env msg xs ok old k = (db', res) \<Longrightarrow> db' = old \<or> k = (db', res)"
  by (auto simp: stmt_each_def split: if_splits dest!: stmt_db)

lemma commit_db: "commit env w msg ps old new v = (db', res) \<Longrightarrow> db' = old \<or> db' = new"
  by (auto simp: commit_def split: option.splits if_splits)

lemma RecordObservation_db:
  assumes "RecordObservation sha env sp db = (db', res)"
  shows "db' = db \<or> (scans db' = scans db \<and> normalizations db' = normalizations db \<and>
    (\<exists>r. observations db' = observations db @ [r] \<and> (observation_key \<circ> o_body) r \<notin> (observation_key \<circ> o_body) ` set (observations db)))"
proof (cases "db' = db")
  case False
  with assms show ?thesis
    unfolding RecordObservation_def Let_def
    by (auto split: option.splits prod.splits if_splits dest!: stmt_db stmt_each_db commit_db elim!: insert_once_cases)
qed simp

lemma RecordNormalization_db:
  assumes "RecordNormalization sha env sp db = (db', res)"
  shows "db' = db \<or> (scans db' = scans db \<and> observations db' = observations db \<and>
    (\<exists>r. normalizations db' = normalizations db @ [r] \<and> (normalization_key \<circ> n_body) r \<notin> (normalization_key \<circ> n_body) ` set (normalizations db)))"
proof (cases "db' = db")
  case False
  with assms show ?thesis
    unfolding RecordNormalization_def Let_def
    by (auto split: option.splits prod.splits if_splits dest!: stmt_db commit_db elim!: insert_once_cases)
qed simp

inductive finding_step :: "(string \<Rightarrow> string) \<Rightarrow> finding_db \<Rightarrow> finding_db \<Rightarrow> bool" for sha :: "string \<Rightarrow> string" where
  observation: "RecordObservation sha env sp db = (db', res) \<Longrightarrow> finding_step sha db db'"
| normalization: "RecordNormalization sha env np db = (db', nres) \<Longrightarrow> finding_step sha db db'"

interpretation observation_table: append_only "finding_step sha" observations "observation_key \<circ> o_body" for sha
proof
  fix db db'
  assume "finding_step sha db db'"
  then show "observations db' = observations db \<or>
      (\<exists>r. observations db' = observations db @ [r] \<and> (observation_key \<circ> o_body) r \<notin> (observation_key \<circ> o_body) ` set (observations db))"
    by cases (auto dest!: RecordObservation_db RecordNormalization_db)
qed

interpretation normalization_table: append_only "finding_step sha" normalizations "normalization_key \<circ> n_body" for sha
proof
  fix db db'
  assume "finding_step sha db db'"
  then show "normalizations db' = normalizations db \<or>
      (\<exists>r. normalizations db' = normalizations db @ [r] \<and> (normalization_key \<circ> n_body) r \<notin> (normalization_key \<circ> n_body) ` set (normalizations db))"
    by cases (auto dest!: RecordObservation_db RecordNormalization_db)
qed

lemma finding_steps_scans: "(finding_step sha)\<^sup>*\<^sup>* db db' \<Longrightarrow> scans db' = scans db"
  by (induction rule: rtranclp_induct) (auto elim!: finding_step.cases dest!: RecordObservation_db RecordNormalization_db)

section \<open>Canonical form\<close>

lemma key_filter:
  assumes "distinct (map f xs)" "k \<in> set xs"
  shows "filter (\<lambda>x. f k = f x) xs = [k]"
  using assms by (intro filter_singleton) (auto simp: distinct_map inj_on_def)

lemma distinct_map_mset: "mset xs = mset ys \<Longrightarrow> distinct (map f xs) \<longleftrightarrow> distinct (map f ys)"
  by (metis mset_eq_imp_distinct_iff mset_map)

lemma sort_key_perm:
  assumes "mset xs = mset ys" "distinct (map f xs)"
  shows "sort_key f xs = sort_key f ys"
proof (rule properties_for_sort_key)
  show "mset (sort_key f ys) = mset xs" using assms(1) by simp
  have d: "distinct (map f (sort_key f ys))" using assms distinct_map_mset [of xs "sort_key f ys" f] by simp
  fix k
  assume k: "k \<in> set (sort_key f ys)"
  then have "k \<in> set xs" using assms(1) by (metis mset_eq_setD set_sort)
  then show "filter (\<lambda>x. f k = f x) (sort_key f ys) = filter (\<lambda>x. f k = f x) xs"
    using key_filter [OF d k] key_filter [OF assms(2)] by simp
qed simp

lemma distinct_adj_sorted: "sorted xs \<Longrightarrow> distinct_adj xs \<longleftrightarrow> distinct xs" for xs :: "'b::linorder list"
proof (induction xs rule: induct_list012)
  case (3 x y zs)
  then have "distinct_adj (y # zs) \<longleftrightarrow> distinct (y # zs)" "x \<le> y" "\<forall>z\<in>set zs. y \<le> z" by simp_all
  then show ?case by (auto simp del: distinct_adj_Cons simp: distinct_adj_Cons_Cons)
qed simp_all

lemma canonical_sorted:
  "distinct_adj (map f (sort_key f xs)) \<longleftrightarrow> distinct (map f xs)" for f :: "'a \<Rightarrow> 'b::linorder"
  using distinct_adj_sorted [of "map f (sort_key f xs)"] distinct_map_mset [of "sort_key f xs" xs f] by simp

lemma canonicalizeObservation_perm:
  assumes "mset locs = mset (coLocations (obsBody sp))" "mset fps = mset (coFingerprints (obsBody sp))"
  shows "canonicalizeObservation sha (sp\<lparr>obsBody := (obsBody sp)\<lparr>coLocations := locs, coFingerprints := fps\<rparr>\<rparr>) =
    canonicalizeObservation sha sp"
proof -
  let ?b = "obsBody sp"
  have l: "length locs = length (coLocations ?b)" "length fps = length (coFingerprints ?b)"
    using assms by (metis size_mset)+
  have f: "observation_fields_valid (sp\<lparr>obsBody := ?b\<lparr>coLocations := locs, coFingerprints := fps\<rparr>\<rparr>) = observation_fields_valid sp"
    by (simp add: observation_fields_valid_def l Let_def)
  have s: "set locs = set (coLocations ?b)" "set fps = set (coFingerprints ?b)" using assms by (metis mset_eq_setD)+
  have d: "distinct (map locOrdinal locs) = distinct (map locOrdinal (coLocations ?b))"
    "distinct (map fingerprint_key fps) = distinct (map fingerprint_key (coFingerprints ?b))"
    using assms by (auto intro!: distinct_map_mset)
  have e: "distinct (map locOrdinal (coLocations ?b)) \<Longrightarrow> sort_key locOrdinal locs = sort_key locOrdinal (coLocations ?b)"
    "distinct (map fingerprint_key (coFingerprints ?b)) \<Longrightarrow> sort_key fingerprint_key fps = sort_key fingerprint_key (coFingerprints ?b)"
    using assms d by (auto intro!: sort_key_perm)
  show ?thesis
    unfolding canonicalizeObservation_def f
    using e by (auto simp: Let_def canonical_sorted d list_all_iff s)
qed

section \<open>Replay\<close>

lemma canonicalize_observation_facts:
  assumes "canonicalizeObservation sha sp = Some (obs, fp)"
  shows "coWorkspaceID obs = coWorkspaceID (obsBody sp)" "coScanID obs = coScanID (obsBody sp)"
    "coRawArtifactID obs = coRawArtifactID (obsBody sp)" "fp = sha (observation_bytes obs)" "chars 3 128 (obsID sp)"
  using assms by (auto simp: canonicalizeObservation_def Let_def observation_fields_valid_def validOpaqueID_def chars_def split: if_splits)

lemma observation_replay_step:
  assumes "canonicalizeObservation sha sp = Some (obs, fp)" "calm env"
    and "sql_row (\<lambda>s. sr_workspace s = coWorkspaceID obs \<and> sr_id s = coScanID obs \<and> sr_raw_artifact s = coRawArtifactID obs) (scans db) = Some sc"
    and "sr_received_at sc \<le> truncate_us (obsRecordedAt sp)"
    and "sql_row (\<lambda>r. (observation_key \<circ> o_body) r = observation_key obs) (observations db) = Some r"
    and "observation_row_ok \<lparr>o_id = obsID sp, o_body = obs, o_received_at = sr_received_at sc,
      o_recorded_at = truncate_us (obsRecordedAt sp), o_fingerprint = fp\<rparr>"
  shows "RecordObservation sha env sp db = (db,
    if o_fingerprint r = fp then Inr \<lparr>soID = o_id r, soWorkspaceID = coWorkspaceID (o_body r), soScanID = coScanID (o_body r),
      soRawArtifactID = coRawArtifactID (o_body r), soReceivedAt = o_received_at r, soRecordedAt = o_recorded_at r, soCreated = False\<rparr>
    else Inl ErrObservationConflict)"
proof -
  have t: "\<not> obsRecordedAt sp < sr_received_at sc" using assms(4) truncate_us_le [of "obsRecordedAt sp"] by simp
  have x: "list_ex (\<lambda>x. (observation_key \<circ> o_body) x = observation_key obs) (observations db)"
    using sql_row_Some [OF assms(5)] by (auto simp: list_ex_iff)
  have i: "insert_once observation_row_ok (observation_key \<circ> o_body) \<lparr>o_id = obsID sp, o_body = obs, o_received_at = sr_received_at sc,
      o_recorded_at = truncate_us (obsRecordedAt sp), o_fingerprint = fp\<rparr> (observations db) = Some (observations db, 0)"
    using assms(6) x by (simp add: insert_once_def)
  have s: "selectStoredObservation obs db = Some (\<lparr>soID = o_id r, soWorkspaceID = coWorkspaceID (o_body r), soScanID = coScanID (o_body r),
      soRawArtifactID = coRawArtifactID (o_body r), soReceivedAt = o_received_at r, soRecordedAt = o_recorded_at r, soCreated = False\<rparr>, o_fingerprint r)"
    using assms(5) by (simp add: selectStoredObservation_def comp_def)
  show ?thesis
    unfolding RecordObservation_def Let_def using assms(1-3) t by (simp add: i s)
qed

lemma RecordObservation_created:
  assumes "RecordObservation sha env sp db = (db', Inr st)" "soCreated st" "canonicalizeObservation sha sp = Some (obs, fp)"
  shows "\<exists>sc. sql_row (\<lambda>s. sr_workspace s = coWorkspaceID obs \<and> sr_id s = coScanID obs \<and> sr_raw_artifact s = coRawArtifactID obs) (scans db) = Some sc \<and>
    sr_received_at sc \<le> obsRecordedAt sp \<and> scans db' = scans db \<and> soID st = obsID sp \<and> (let r = \<lparr>o_id = obsID sp, o_body = obs, o_received_at = sr_received_at sc,
      o_recorded_at = truncate_us (obsRecordedAt sp), o_fingerprint = fp\<rparr> in observation_row_ok r \<and>
      observations db' = observations db @ [r] \<and> observation_key obs \<notin> (observation_key \<circ> o_body) ` set (observations db))"
  using assms unfolding RecordObservation_def Let_def
  by (auto simp: stmt_def stmt_each_def commit_def selectStoredObservation_def split: option.splits prod.splits if_splits
      elim!: insert_once_cases)

lemma RecordObservation_times:
  assumes "RecordObservation sha env sp db = (db', Inr st)" "soCreated st" "canonicalizeObservation sha sp = Some (obs, fp)"
    and "sql_row (\<lambda>s. sr_workspace s = coWorkspaceID obs \<and> sr_id s = coScanID obs \<and> sr_raw_artifact s = coRawArtifactID obs) (scans db) = Some sc"
  shows "soReceivedAt st = sr_received_at sc \<and> soRecordedAt st = obsRecordedAt sp"
  using assms unfolding RecordObservation_def Let_def
  by (auto simp: stmt_def stmt_each_def commit_def selectStoredObservation_def split: option.splits prod.splits if_splits)

lemma primary_location_in: "primary_location p ls \<in> set (p # ls)"
  by (induction p ls rule: primary_location.induct) (auto split: if_splits)

lemma primary_valid:
  assumes "primaryArtifactLocation ls = Some l" "list_all validLocation ls"
  shows "validNormalizedLocation l \<longleftrightarrow> validNormalizedRegionOrder l"
proof -
  from assms(1) obtain p rest where ls: "ls = p # rest" by (auto simp: primaryArtifactLocation_def split: list.splits)
  have "primary_location p rest \<in> set ls" using primary_location_in [of p rest] by (simp add: ls)
  with assms(2) have "validLocation (primary_location p rest)" by (auto simp: list_all_iff)
  with assms(1) show ?thesis
    by (auto simp: ls primaryArtifactLocation_def Let_def validLocation_def validNormalizedLocation_def split: if_splits)
qed

section \<open>Properties\<close>

definition demo_body :: canonicalObservation where
  "demo_body = \<lparr>coWorkspaceID = ''ws1'', coScanID = ''scan1'', coRawArtifactID = ''raw1'', coSourceResultIndex = 0,
     coParserName = ''sarif'', coParserVersion = ''1'', coSourcePointer = ''/p'', coSourceGUID = [], coSourceCorrelationGUID = [],
     coSourceRuleID = ''R1'', coSourceRuleIndex = None, coSourceSeverity = ''error'', coSourceKind = [], coSourceBaselineState = [],
     coMessageID = [], coMessageText = [], coMessageMarkdown = [], coMessageArguments = [],
     coLocations = [], coFingerprints = [], coObservedAt = None\<rparr>"

definition demo_observation :: "string \<Rightarrow> gotime \<Rightarrow> ObservationSpec" where
  "demo_observation i t = \<lparr>obsID = i, obsBody = demo_body, obsRecordedAt = t\<rparr>"

definition demo_findings :: finding_db where
  "demo_findings = \<lparr>scans = [\<lparr>sr_workspace = ''ws1'', sr_id = ''scan1'', sr_raw_artifact = ''raw1'', sr_received_at = 1000\<rparr>],
     observations = [], observation_locations = [], observation_fingerprints = [], normalizations = []\<rparr>"

definition demo_sha :: "string \<Rightarrow> string" where
  "demo_sha s = replicate 32 CHR ''h''"

lemma demo_time: "obsRecordedAt (demo_observation i t) = t"
  by (simp add: demo_observation_def)

lemma demo_canonical: "i = ''obs1'' \<or> i = ''obs2'' \<Longrightarrow> t \<noteq> 0 \<Longrightarrow>
  canonicalizeObservation demo_sha (demo_observation i t) = Some (demo_body, demo_sha (observation_bytes demo_body))"
proof -
  have v: "validOpaqueID ''ws1''" "validOpaqueID ''scan1''" "validOpaqueID ''raw1''" "validOpaqueID ''obs1''" "validOpaqueID ''obs2''"
    "validParserName ''sarif''" "validText ''1'' 1 64" by code_simp+
  have w: "utf8_valid ''/p''" "rune_count ''/p'' = 2" "\<not> has_nul ''/p''" "utf8_valid ''R1''" "rune_count ''R1'' = 2" "\<not> has_nul ''R1''"
    "utf8_valid ''error''" "rune_count ''error'' = 5" "\<not> has_nul ''error''"
    "utf8_valid ''1''" "rune_count ''1'' = 1" "\<not> has_nul ''1''" by code_simp+
  assume "i = ''obs1'' \<or> i = ''obs2''" "t \<noteq> 0"
  then have "observation_fields_valid (demo_observation i t)"
    by (auto simp: observation_fields_valid_def demo_observation_def demo_body_def Let_def v w validText_def
        validOptionalText_def validOptionalBytes_def validOptionalIndex_def)
  then show ?thesis
    by (simp add: canonicalizeObservation_def demo_observation_def demo_body_def Let_def)
qed

lemma demo_row_ok: "i = ''obs1'' \<or> i = ''obs2'' \<Longrightarrow> 1000 \<le> t \<Longrightarrow> observation_row_ok \<lparr>o_id = i, o_body = demo_body, o_received_at = 1000,
  o_recorded_at = t, o_fingerprint = demo_sha (observation_bytes demo_body)\<rparr>"
proof -
  have w: "rune_count ''/p'' = 2" "rune_count ''R1'' = 2" "rune_count ''error'' = 5" "rune_count ''obs1'' = 4" "rune_count ''obs2'' = 4"
    "rune_count ''1'' = 1" "pat_ident name_char 63 ''sarif''" by code_simp+
  assume "i = ''obs1'' \<or> i = ''obs2''" "1000 \<le> t"
  then show ?thesis
    by (auto simp: observation_row_ok_def demo_body_def Let_def chars_def null_or_chars_def w opt32_def int32_def
        validOptionalIndex_def demo_sha_def)
qed

lemma demo_record:
  "RecordObservation demo_sha (quiet_env 0) (demo_observation ''obs1'' 2000) demo_findings =
    (demo_findings\<lparr>observations := [\<lparr>o_id = ''obs1'', o_body = demo_body, o_received_at = 1000, o_recorded_at = 2000,
        o_fingerprint = demo_sha (observation_bytes demo_body)\<rparr>]\<rparr>,
     Inr \<lparr>soID = ''obs1'', soWorkspaceID = ''ws1'', soScanID = ''scan1'', soRawArtifactID = ''raw1'', soReceivedAt = 1000,
          soRecordedAt = 2000, soCreated = True\<rparr>)"
proof -
  have c: "canonicalizeObservation demo_sha (demo_observation ''obs1'' 2000) = Some (demo_body, demo_sha (observation_bytes demo_body))"
    by (rule demo_canonical) simp_all
  have o: "observation_row_ok \<lparr>o_id = ''obs1'', o_body = demo_body, o_received_at = 1000, o_recorded_at = 2000,
    o_fingerprint = demo_sha (observation_bytes demo_body)\<rparr>" by (rule demo_row_ok) simp_all
  have b: "coWorkspaceID demo_body = ''ws1''" "coScanID demo_body = ''scan1''" "coRawArtifactID demo_body = ''raw1''"
    "coLocations demo_body = []" "coFingerprints demo_body = []" by (simp_all add: demo_body_def)
  show ?thesis
    unfolding RecordObservation_def c
    by (simp add: b demo_findings_def sql_row_def demo_observation_def truncate_us_def insert_once_def o stmt_each_def)
qed

text \<open>C27.  Recorded observations and normalizations are immutable: whatever calls follow, in any
  order and with any faults, a lookup by the record's key still returns the very same row.\<close>

theorem records_immutable:
  assumes "(finding_step sha)\<^sup>*\<^sup>* db db'"
  shows "(\<forall>k r. sql_row (\<lambda>x. (observation_key \<circ> o_body) x = k) (observations db) = Some r \<longrightarrow>
      sql_row (\<lambda>x. (observation_key \<circ> o_body) x = k) (observations db') = Some r) \<and>
    (\<forall>k r. sql_row (\<lambda>x. (normalization_key \<circ> n_body) x = k) (normalizations db) = Some r \<longrightarrow>
      sql_row (\<lambda>x. (normalization_key \<circ> n_body) x = k) (normalizations db') = Some r)"
  using observation_table.lookup_stable [OF assms] normalization_table.lookup_stable [OF assms] by blast

theorem records_immutable_witness:
  "sql_row (\<lambda>x. (observation_key \<circ> o_body) x = observation_key demo_body)
     (observations (fst (RecordObservation demo_sha (quiet_env 5) (demo_observation ''obs2'' 3000)
        (fst (RecordObservation demo_sha (quiet_env 0) (demo_observation ''obs1'' 2000) demo_findings))))) =
   Some \<lparr>o_id = ''obs1'', o_body = demo_body, o_received_at = 1000, o_recorded_at = 2000, o_fingerprint = demo_sha (observation_bytes demo_body)\<rparr>"
proof -
  let ?db = "fst (RecordObservation demo_sha (quiet_env 0) (demo_observation ''obs1'' 2000) demo_findings)"
  have "finding_step demo_sha ?db (fst (RecordObservation demo_sha (quiet_env 5) (demo_observation ''obs2'' 3000) ?db))"
    by (metis finding_step.observation prod.collapse)
  then have "(finding_step demo_sha)\<^sup>*\<^sup>* ?db (fst (RecordObservation demo_sha (quiet_env 5) (demo_observation ''obs2'' 3000) ?db))"
    by (rule r_into_rtranclp)
  note i = conjunct1 [OF records_immutable [OF this], rule_format]
  show ?thesis by (rule i) (simp add: demo_record sql_row_def)
qed

text \<open>C28.  Recording an observation is idempotent: after it was created, and whatever happened in
  between, recording the same content again (possibly under another candidate identifier and at another
  time, with its locations and fingerprints in another order) changes nothing and returns the original
  identifier and times.\<close>

theorem observation_replay:
  assumes "RecordObservation sha env sp db = (db1, Inr st)" "soCreated st" "(finding_step sha)\<^sup>*\<^sup>* db1 db2"
    and "canonicalizeObservation sha sp' = canonicalizeObservation sha sp" "soReceivedAt st \<le> truncate_us (obsRecordedAt sp')" "calm env'"
  shows "\<exists>st'. RecordObservation sha env' sp' db2 = (db2, Inr st') \<and> \<not> soCreated st' \<and> soID st' = soID st \<and>
    soReceivedAt st' = soReceivedAt st \<and> soRecordedAt st' = truncate_us (soRecordedAt st)"
proof -
  from assms(1) obtain obs fp where c: "canonicalizeObservation sha sp = Some (obs, fp)"
    by (cases "canonicalizeObservation sha sp") (auto simp: RecordObservation_def)
  from RecordObservation_created [OF assms(1,2) c] obtain sc where sc:
    "sql_row (\<lambda>s. sr_workspace s = coWorkspaceID obs \<and> sr_id s = coScanID obs \<and> sr_raw_artifact s = coRawArtifactID obs) (scans db) = Some sc"
    "scans db1 = scans db" "soID st = obsID sp" and r: "observation_row_ok \<lparr>o_id = obsID sp, o_body = obs, o_received_at = sr_received_at sc,
      o_recorded_at = truncate_us (obsRecordedAt sp), o_fingerprint = fp\<rparr>"
    "observations db1 = observations db @ [\<lparr>o_id = obsID sp, o_body = obs, o_received_at = sr_received_at sc,
      o_recorded_at = truncate_us (obsRecordedAt sp), o_fingerprint = fp\<rparr>]"
    "observation_key obs \<notin> (observation_key \<circ> o_body) ` set (observations db)" unfolding Let_def by blast
  have st: "soReceivedAt st = sr_received_at sc" "soRecordedAt st = obsRecordedAt sp"
    using RecordObservation_times [OF assms(1,2) c sc(1)] by simp_all
  let ?r = "\<lparr>o_id = obsID sp, o_body = obs, o_received_at = sr_received_at sc, o_recorded_at = truncate_us (obsRecordedAt sp), o_fingerprint = fp\<rparr>"
  have "sql_row (\<lambda>x. (observation_key \<circ> o_body) x = observation_key obs) (observations db1) = Some ?r"
    using sql_row_fresh [of "observation_key \<circ> o_body" ?r "observations db"] r(2,3) by simp
  from observation_table.lookup_stable [OF assms(3) this]
  have l: "sql_row (\<lambda>x. (observation_key \<circ> o_body) x = observation_key obs) (observations db2) = Some ?r" .
  have s: "scans db2 = scans db" using finding_steps_scans [OF assms(3)] sc(2) by simp
  have c': "canonicalizeObservation sha sp' = Some (obs, fp)" using c assms(4) by simp
  have ok: "observation_row_ok \<lparr>o_id = obsID sp', o_body = obs, o_received_at = sr_received_at sc,
      o_recorded_at = truncate_us (obsRecordedAt sp'), o_fingerprint = fp\<rparr>"
    using r(1) canonicalize_observation_facts(5) [OF c'] assms(5) st by (simp add: observation_row_ok_def Let_def)
  show ?thesis
    using observation_replay_step [OF c' assms(6) _ _ l ok] sc(1,3) assms(5) st by (simp add: s)
qed

theorem observation_replay_witness:
  "\<exists>st. RecordObservation demo_sha (quiet_env 9) (demo_observation ''obs2'' 3000)
       (fst (RecordObservation demo_sha (quiet_env 0) (demo_observation ''obs1'' 2000) demo_findings)) =
     (fst (RecordObservation demo_sha (quiet_env 0) (demo_observation ''obs1'' 2000) demo_findings), Inr st) \<and> soID st = ''obs1''"
proof -
  have c: "canonicalizeObservation demo_sha (demo_observation ''obs2'' 3000) = canonicalizeObservation demo_sha (demo_observation ''obs1'' 2000)"
    by (simp add: demo_canonical)
  show ?thesis
    using observation_replay [OF demo_record _ rtranclp.rtrancl_refl c, of "quiet_env 9"]
    by (auto simp: demo_record demo_time truncate_us_def)
qed

text \<open>C29.  The record fingerprint does not depend on the order in which a parser lists locations and
  source fingerprints: any permutation has the same canonical form, and is rejected or accepted alike.\<close>

theorem canonical_order_free:
  assumes "mset locs = mset (coLocations (obsBody sp))" "mset fps = mset (coFingerprints (obsBody sp))"
  shows "canonicalizeObservation sha (sp\<lparr>obsBody := (obsBody sp)\<lparr>coLocations := locs, coFingerprints := fps\<rparr>\<rparr>) =
    canonicalizeObservation sha sp"
  by (rule canonicalizeObservation_perm [OF assms])

definition demo_loc :: "int \<Rightarrow> Location" where
  "demo_loc n = \<lparr>locOrdinal = n, locSourcePointer = ''/l'', locURI = ''a.c'', locURIBaseID = [], locArtifactIndex = None,
     locStartLine = Some 1, locStartColumn = None, locEndLine = Some 2, locEndColumn = None\<rparr>"

theorem canonical_order_free_witness:
  "canonicalizeObservation demo_sha \<lparr>obsID = ''obs1'', obsBody = demo_body\<lparr>coLocations := [demo_loc 1, demo_loc 0]\<rparr>, obsRecordedAt = 5\<rparr> =
   canonicalizeObservation demo_sha \<lparr>obsID = ''obs1'', obsBody = demo_body\<lparr>coLocations := [demo_loc 0, demo_loc 1]\<rparr>, obsRecordedAt = 5\<rparr>"
  using canonical_order_free [of "[demo_loc 1, demo_loc 0]"
      "\<lparr>obsID = ''obs1'', obsBody = demo_body\<lparr>coLocations := [demo_loc 0, demo_loc 1]\<rparr>, obsRecordedAt = 5\<rparr>" "[]"]
  by (simp add: demo_body_def)

text \<open>C30.  The SARIF normalizer fits its store: the normalization of a valid SARIF observation is
  accepted exactly when the primary location's region does not end before it starts.\<close>

theorem normalize_accepted:
  assumes "canonicalizeObservation sha o' = Some c" "Normalize o' at = Some n" "at \<noteq> 0"
  shows "canonicalizeNormalization sha n \<noteq> None \<longleftrightarrow> validNormalizedRegionOrder (cnLocation (nsBody n))"
proof -
  let ?b = "obsBody o'"
  have v: "observation_fields_valid o'" "list_all validLocation (coLocations ?b)"
    using assms(1) by (auto simp: canonicalizeObservation_def Let_def list_all_iff split: if_splits)
  have f: "validOpaqueID (coWorkspaceID ?b)" "validOpaqueID (obsID o')" "validOptionalText (coSourceRuleID ?b) 512"
    using v(1) by (auto simp: observation_fields_valid_def Let_def)
  have k: "validParserName ''sarif''" "validText ''1'' 1 64" by code_simp+
  have sev: "knownNormalizedSeverity (normalizeSeverity s)" for s by (simp add: normalizeSeverity_def knownNormalizedSeverity_def)
  have loc: "validNormalizedLocation l \<longleftrightarrow> validNormalizedRegionOrder l"
    if "primaryArtifactLocation (coLocations ?b) = Some l" for l
    using that v(2) by (rule primary_valid)
  have u: "validNormalizedLocation unknown_location" "validNormalizedRegionOrder unknown_location"
    by (simp_all add: unknown_location_def validNormalizedLocation_def validNormalizedRegionOrder_def)
  from assms(2) have n: "n = \<lparr>nsBody = \<lparr>cnWorkspaceID = coWorkspaceID ?b, cnObservationID = obsID o', cnNormalizerName = ''sarif'',
      cnNormalizerVersion = ''1'', cnCategory = ''unknown'', cnSeverity = normalizeSeverity (coSourceSeverity ?b),
      cnRuleKind = (if coSourceRuleID ?b \<noteq> [] then RuleSource else RuleUnknown), cnRuleID = coSourceRuleID ?b,
      cnLocation = (case primaryArtifactLocation (coLocations ?b) of Some l \<Rightarrow> l | None \<Rightarrow> unknown_location)\<rparr>, nsNormalizedAt = at\<rparr>"
    by (simp add: Normalize_def Let_def split: if_splits)
  have rule: "validNormalizedRule (if coSourceRuleID ?b \<noteq> [] then RuleSource else RuleUnknown) (coSourceRuleID ?b)"
    using f(3) by (auto simp: validNormalizedRule_def validOptionalText_def)
  show ?thesis
    unfolding n canonicalizeNormalization_def Let_def
    using f k sev assms(3) loc u rule by (simp split: option.splits)
qed

theorem normalize_accepted_witness:
  "(\<exists>n. Normalize (demo_observation ''obs1'' 2000) 3000 = Some n \<and> canonicalizeNormalization demo_sha n \<noteq> None)"
proof -
  have c: "canonicalizeObservation demo_sha (demo_observation ''obs1'' 2000) = Some (demo_body, demo_sha (observation_bytes demo_body))"
    by (rule demo_canonical) simp_all
  have b: "coParserName demo_body = ''sarif''" "coParserVersion demo_body = ''1''" "coLocations demo_body = []" by (simp_all add: demo_body_def)
  then obtain n where n: "Normalize (demo_observation ''obs1'' 2000) 3000 = Some n" "cnLocation (nsBody n) = unknown_location"
    by (simp add: Normalize_def demo_observation_def primaryArtifactLocation_def)
  with normalize_accepted [OF c n(1)] show ?thesis
    by (auto simp: validNormalizedRegionOrder_def unknown_location_def)
qed

end
