(* ===== verification/Correlation.thy ===== *)
theory Correlation
  imports Observation
begin

text \<open>
  The package \<open>internal/correlation\<close>: the dispatch decision why an observation cannot be correlated
  (\<open>dispatch.go\<close>), the canonical form of such an outcome (\<open>types.go\<close>) and its immutable record
  (\<open>postgres.go\<close>), over the table of migration 00009.
\<close>

datatype correlation_error = CorrInvalid | ErrOutcomeConflict | ErrNormalizationNotFound | CorrDB string cause

datatype ReasonCode =
    ReasonTargetIdentityUnknown | ReasonAnalysisKindUnknown | ReasonScannerFamilyUnknown | ReasonRuleIdentityUnknown
  | ReasonPackageIdentityUnknown | ReasonVulnerabilityIdentityUnknown | ReasonLocationIdentityUnknown
  | ReasonSourceContextUnknown | ReasonSourceContextUnsafe | OtherReason string

definition reason_text :: "ReasonCode \<Rightarrow> string" where
  "reason_text r =
     (case r of ReasonTargetIdentityUnknown \<Rightarrow> ''target_identity_unknown'' | ReasonAnalysisKindUnknown \<Rightarrow> ''analysis_kind_unknown''
      | ReasonScannerFamilyUnknown \<Rightarrow> ''scanner_family_unknown'' | ReasonRuleIdentityUnknown \<Rightarrow> ''rule_identity_unknown''
      | ReasonPackageIdentityUnknown \<Rightarrow> ''package_identity_unknown''
      | ReasonVulnerabilityIdentityUnknown \<Rightarrow> ''vulnerability_identity_unknown''
      | ReasonLocationIdentityUnknown \<Rightarrow> ''location_identity_unknown'' | ReasonSourceContextUnknown \<Rightarrow> ''source_context_unknown''
      | ReasonSourceContextUnsafe \<Rightarrow> ''source_context_unsafe'' | OtherReason s \<Rightarrow> s)"

definition reasonOrder :: "ReasonCode \<Rightarrow> nat option" where
  "reasonOrder r =
     (case r of ReasonTargetIdentityUnknown \<Rightarrow> Some 0 | ReasonAnalysisKindUnknown \<Rightarrow> Some 1 | ReasonScannerFamilyUnknown \<Rightarrow> Some 2
      | ReasonRuleIdentityUnknown \<Rightarrow> Some 3 | ReasonPackageIdentityUnknown \<Rightarrow> Some 4
      | ReasonVulnerabilityIdentityUnknown \<Rightarrow> Some 5 | ReasonLocationIdentityUnknown \<Rightarrow> Some 6
      | ReasonSourceContextUnknown \<Rightarrow> Some 7 | ReasonSourceContextUnsafe \<Rightarrow> Some 8 | OtherReason _ \<Rightarrow> None)"

text \<open>The canonical outcome; \<open>UncorrelatedSpec\<close> has the same fields but the state, and an audit time.\<close>

record canonicalOutcome =
  ocWorkspaceID :: string
  ocObservationID :: string
  ocNormalizerName :: string
  ocNormalizerVersion :: string
  ocAlgorithm :: string
  ocAlgorithmVersion :: string
  ocReasons :: "ReasonCode list"

record UncorrelatedSpec =
  usBody :: canonicalOutcome
  usEvaluatedAt :: gotime

record StoredOutcome =
  stWorkspaceID :: string
  stObservationID :: string
  stAlgorithm :: string
  stAlgorithmVersion :: string
  stReasons :: "ReasonCode list"
  stEvaluatedAt :: gotime
  stCreated :: bool

section \<open>Canonical form\<close>

definition outcome_json :: "canonicalOutcome \<Rightarrow> json" where
  "outcome_json c = JObj
     [(''workspace_id'', JStr (ocWorkspaceID c)), (''observation_id'', JStr (ocObservationID c)),
      (''normalizer_name'', JStr (ocNormalizerName c)), (''normalizer_version'', JStr (ocNormalizerVersion c)),
      (''algorithm'', JStr (ocAlgorithm c)), (''algorithm_version'', JStr (ocAlgorithmVersion c)),
      (''state'', JStr ''uncorrelated''), (''reason_codes'', slice (map (JStr \<circ> reason_text) (ocReasons c)))]"

definition canonicalizeUncorrelated :: "(string \<Rightarrow> string) \<Rightarrow> UncorrelatedSpec \<Rightarrow> (canonicalOutcome \<times> string) option" where
  "canonicalizeUncorrelated sha sp =
     (let c = usBody sp in
      if \<not> (validOpaqueID (ocWorkspaceID c) \<and> validOpaqueID (ocObservationID c) \<and> validParserName (ocNormalizerName c) \<and>
            validText (ocNormalizerVersion c) 1 64 \<and> validParserName (ocAlgorithm c) \<and>
            validText (ocAlgorithmVersion c) 1 64 \<and> usEvaluatedAt sp \<noteq> 0 \<and> ocReasons c \<noteq> [] \<and> length (ocReasons c) \<le> 9)
      then None
      else if \<not> list_all (\<lambda>r. reasonOrder r \<noteq> None) (ocReasons c) then None
      else
        (let reasons = sort_key (the \<circ> reasonOrder) (ocReasons c) in
         if \<not> distinct_adj reasons then None
         else (let out = c\<lparr>ocReasons := reasons\<rparr> in Some (out, sha (marshal (outcome_json out))))))"

section \<open>Dispatch\<close>

record DispatchSpec =
  dsWorkspaceID :: string
  dsObservationID :: string
  dsNormalizerName :: string
  dsNormalizerVersion :: string
  dsStableTargetIdentityKnown :: bool
  dsAnalysisKind :: string
  dsScannerFamily :: string
  dsSourceContextKnown :: bool
  dsSourceContextSafe :: bool
  dsEvaluatedAt :: gotime

definition analysis_kind_ok :: "string \<Rightarrow> bool" where
  "analysis_kind_ok k \<longleftrightarrow> pat_ident name_char 127 k"

definition kind_unknown :: "string \<Rightarrow> bool" where
  "kind_unknown k \<longleftrightarrow> k = [] \<or> k = ''unknown''"

definition NewDispatchUncorrelated :: "(string \<Rightarrow> string) \<Rightarrow> DispatchSpec \<Rightarrow> UncorrelatedSpec option" where
  "NewDispatchUncorrelated sha sp =
     (let r1 = (if \<not> dsStableTargetIdentityKnown sp then [ReasonTargetIdentityUnknown] else []) in
      if \<not> kind_unknown (dsAnalysisKind sp) \<and> \<not> analysis_kind_ok (dsAnalysisKind sp) then None
      else
        (let r2 = r1 @ (if kind_unknown (dsAnalysisKind sp) then [ReasonAnalysisKindUnknown] else []) in
         if dsSourceContextSafe sp \<and> \<not> dsSourceContextKnown sp then None
         else if r2 = [] \<and> dsAnalysisKind sp \<noteq> ''sast'' then None
         else if r2 = [] \<and> \<not> kind_unknown (dsScannerFamily sp) \<and> \<not> analysis_kind_ok (dsScannerFamily sp) then None
         else
           (let r3 = (if r2 \<noteq> [] then r2
                      else (if kind_unknown (dsScannerFamily sp) then [ReasonScannerFamilyUnknown] else []) @
                        (if \<not> dsSourceContextKnown sp then [ReasonSourceContextUnknown]
                         else if \<not> dsSourceContextSafe sp then [ReasonSourceContextUnsafe] else []));
                out = \<lparr>usBody = \<lparr>ocWorkspaceID = dsWorkspaceID sp, ocObservationID = dsObservationID sp,
                         ocNormalizerName = dsNormalizerName sp, ocNormalizerVersion = dsNormalizerVersion sp,
                         ocAlgorithm = ''correlation-dispatch'', ocAlgorithmVersion = (if r2 = [] then ''2'' else ''1''),
                         ocReasons = r3\<rparr>, usEvaluatedAt = dsEvaluatedAt sp\<rparr> in
            if r3 = [] then None
            else if canonicalizeUncorrelated sha out = None then None
            else Some out)))"

section \<open>The table and its operation\<close>

record outcome_row =
  c_body :: canonicalOutcome
  c_state :: string
  c_evaluated_at :: gotime
  c_fingerprint :: string

definition all_reasons :: "ReasonCode list" where
  "all_reasons = [ReasonTargetIdentityUnknown, ReasonAnalysisKindUnknown, ReasonScannerFamilyUnknown, ReasonRuleIdentityUnknown,
     ReasonPackageIdentityUnknown, ReasonVulnerabilityIdentityUnknown, ReasonLocationIdentityUnknown,
     ReasonSourceContextUnknown, ReasonSourceContextUnsafe]"

definition outcome_row_ok :: "outcome_row \<Rightarrow> bool" where
  "outcome_row_ok r \<longleftrightarrow>
     (let c = c_body r in
      pat_ident name_char 63 (ocAlgorithm c) \<and> chars 1 64 (ocAlgorithmVersion c) \<and> c_state r = ''uncorrelated'' \<and>
      1 \<le> length (ocReasons c) \<and> length (ocReasons c) \<le> 9 \<and>
      map reason_text (ocReasons c) = filter (\<lambda>t. t \<in> set (map reason_text (ocReasons c))) (map reason_text all_reasons) \<and>
      length (c_fingerprint r) = 32)"

record correlation_db =
  source_normalizations :: "normalization_row list"
  outcomes :: "outcome_row list"

definition outcome_key :: "canonicalOutcome \<Rightarrow> string \<times> string \<times> string \<times> string" where
  "outcome_key c = (ocWorkspaceID c, ocObservationID c, ocAlgorithm c, ocAlgorithmVersion c)"

definition stored_outcome :: "outcome_row \<Rightarrow> StoredOutcome" where
  "stored_outcome r = \<lparr>stWorkspaceID = ocWorkspaceID (c_body r), stObservationID = ocObservationID (c_body r),
     stAlgorithm = ocAlgorithm (c_body r), stAlgorithmVersion = ocAlgorithmVersion (c_body r),
     stReasons = ocReasons (c_body r), stEvaluatedAt = c_evaluated_at r, stCreated = False\<rparr>"

definition selectStoredOutcome :: "canonicalOutcome \<Rightarrow> correlation_db \<Rightarrow> (StoredOutcome \<times> string) option" where
  "selectStoredOutcome c db =
     map_option (\<lambda>r. (stored_outcome r, c_fingerprint r))
       (sql_row (\<lambda>r. (outcome_key \<circ> c_body) r = outcome_key c) (outcomes db))"

definition source_normalization :: "canonicalOutcome \<Rightarrow> correlation_db \<Rightarrow> normalization_row option" where
  "source_normalization c db =
     sql_row (\<lambda>r. normalization_key (n_body r) =
       (ocWorkspaceID c, ocObservationID c, ocNormalizerName c, ocNormalizerVersion c)) (source_normalizations db)"

definition RecordUncorrelated ::
  "(string \<Rightarrow> string) \<Rightarrow> db_env \<Rightarrow> UncorrelatedSpec \<Rightarrow> correlation_db \<Rightarrow> correlation_db \<times> (correlation_error + StoredOutcome)" where
  "RecordUncorrelated sha env sp db =
     (case canonicalizeUncorrelated sha sp of
        None \<Rightarrow> (db, Inl CorrInvalid)
      | Some (c, fp) \<Rightarrow>
          stmt env CorrDB ''begin recording correlation outcome'' [] db
          (stmt env CorrDB ''read correlation source normalization'' [] db
          (case source_normalization c db of
             None \<Rightarrow> (db, Inl ErrNormalizationNotFound)
           | Some n \<Rightarrow>
               if usEvaluatedAt sp < n_normalized_at n then (db, Inl CorrInvalid)
               else
                 stmt env CorrDB ''insert correlation outcome'' [] db
                 (case insert_once outcome_row_ok (outcome_key \<circ> c_body)
                     \<lparr>c_body = c, c_state = ''uncorrelated'', c_evaluated_at = truncate_us (usEvaluatedAt sp), c_fingerprint = fp\<rparr>
                     (outcomes db) of
                    None \<Rightarrow> (db, Inl (CorrDB ''insert correlation outcome'' (violation env ''insert correlation outcome'')))
                  | Some (rows, k) \<Rightarrow>
                      if k = 0 then
                        stmt env CorrDB ''read existing correlation outcome'' [] db
                        (case selectStoredOutcome c db of
                           None \<Rightarrow> (db, Inl ErrOutcomeConflict)
                         | Some (stored, existing) \<Rightarrow>
                             if existing \<noteq> fp then (db, Inl ErrOutcomeConflict)
                             else commit env CorrDB ''finish correlation outcome replay'' [] db db stored)
                      else
                        commit env CorrDB ''commit correlation outcome'' [] db (db\<lparr>outcomes := rows\<rparr>)
                          \<lparr>stWorkspaceID = ocWorkspaceID c, stObservationID = ocObservationID c, stAlgorithm = ocAlgorithm c,
                           stAlgorithmVersion = ocAlgorithmVersion c, stReasons = ocReasons c,
                           stEvaluatedAt = usEvaluatedAt sp, stCreated = True\<rparr>))))"

section \<open>The table is append-only\<close>

definition correlation_step :: "(string \<Rightarrow> string) \<Rightarrow> correlation_db \<Rightarrow> correlation_db \<Rightarrow> bool" where
  "correlation_step sha db db' \<longleftrightarrow> (\<exists>env sp. db' = fst (RecordUncorrelated sha env sp db))"

lemma RecordUncorrelated_db:
  assumes "RecordUncorrelated sha env sp db = (db', res)"
  shows "db' = db \<or> (source_normalizations db' = source_normalizations db \<and>
    (\<exists>r. outcomes db' = outcomes db @ [r] \<and> (outcome_key \<circ> c_body) r \<notin> (outcome_key \<circ> c_body) ` set (outcomes db)))"
proof (cases "db' = db")
  case False
  with assms show ?thesis
    unfolding RecordUncorrelated_def
    by (auto split: option.splits prod.splits if_splits dest!: stmt_db commit_db elim!: insert_once_cases)
qed simp

interpretation outcome_table: append_only "correlation_step sha" outcomes "outcome_key \<circ> c_body" for sha
proof
  fix db db'
  assume "correlation_step sha db db'"
  then obtain env sp res where "RecordUncorrelated sha env sp db = (db', res)" by (metis correlation_step_def prod.collapse)
  from RecordUncorrelated_db [OF this]
  show "outcomes db' = outcomes db \<or> (\<exists>r. outcomes db' = outcomes db @ [r] \<and> (outcome_key \<circ> c_body) r \<notin> (outcome_key \<circ> c_body) ` set (outcomes db))"
    by blast
qed

section \<open>Canonical reasons\<close>

lemma reason_text_inj:
  "reasonOrder r \<noteq> None \<Longrightarrow> reasonOrder s \<noteq> None \<Longrightarrow> reason_text r = reason_text s \<Longrightarrow> r = s"
  by (cases r; cases s) (simp_all add: reason_text_def reasonOrder_def)

lemma reasonOrder_inj: "reasonOrder r \<noteq> None \<Longrightarrow> reasonOrder r = reasonOrder s \<Longrightarrow> r = s"
  by (cases r; cases s) (simp_all add: reasonOrder_def)

lemma all_reasons_sorted: "sorted_wrt (<) (map (the \<circ> reasonOrder) all_reasons)"
  by (simp add: all_reasons_def reasonOrder_def)

lemma known_reason: "reasonOrder r \<noteq> None \<longleftrightarrow> r \<in> set all_reasons"
  by (cases r) (simp_all add: all_reasons_def reasonOrder_def)

lemma known_sorted:
  assumes "list_all (\<lambda>r. reasonOrder r \<noteq> None) rs" "distinct_adj (sort_key (the \<circ> reasonOrder) rs)"
  shows "sort_key (the \<circ> reasonOrder) rs = filter (\<lambda>r. r \<in> set rs) all_reasons"
proof -
  let ?f = "the \<circ> reasonOrder" and ?s = "sort_key (the \<circ> reasonOrder) rs"
  have i: "inj_on ?f (set all_reasons)"
    by (auto simp: all_reasons_def inj_on_def reasonOrder_def)
  have sub: "set ?s \<subseteq> set all_reasons" using assms(1) known_reason by (auto simp: list_all_iff)
  have "distinct_adj (map ?f ?s)"
    using assms(2) sub i by (metis distinct_adj_map_iff inj_on_subset)
  then have "distinct (map ?f ?s)" using distinct_adj_sorted [of "map ?f ?s"] by simp
  then have a: "sorted_wrt (<) (map ?f ?s)" by (simp add: strict_sorted_iff)
  have b: "sorted_wrt (<) (map ?f (filter (\<lambda>r. r \<in> set rs) all_reasons))"
    using all_reasons_sorted by (simp add: sorted_wrt_map sorted_wrt_filter)
  have "set ?s = set (filter (\<lambda>r. r \<in> set rs) all_reasons)" using sub by auto
  then have "map ?f ?s = map ?f (filter (\<lambda>r. r \<in> set rs) all_reasons)"
    using a b by (metis list.set_map strict_sorted_equal)
  then show ?thesis using i sub by (metis filter_is_subset inj_on_Un_image_eq_iff inj_on_map_eq_map inj_on_subset le_sup_iff)
qed

lemma canonicalizeUncorrelated_Some:
  assumes "canonicalizeUncorrelated sha sp = Some (c, fp)"
  shows "c = (usBody sp)\<lparr>ocReasons := filter (\<lambda>r. r \<in> set (ocReasons (usBody sp))) all_reasons\<rparr>"
    "length (ocReasons c) = length (ocReasons (usBody sp))" "ocReasons (usBody sp) \<noteq> []" "length (ocReasons (usBody sp)) \<le> 9"
    "fp = sha (marshal (outcome_json c))" "usEvaluatedAt sp \<noteq> 0" "validOpaqueID (ocWorkspaceID c)" "validOpaqueID (ocObservationID c)"
    "validParserName (ocNormalizerName c)" "validText (ocNormalizerVersion c) 1 64" "validParserName (ocAlgorithm c)"
    "validText (ocAlgorithmVersion c) 1 64" "set (ocReasons c) \<subseteq> set all_reasons"
proof -
  from assms have k: "list_all (\<lambda>r. reasonOrder r \<noteq> None) (ocReasons (usBody sp))"
    "distinct_adj (sort_key (the \<circ> reasonOrder) (ocReasons (usBody sp)))"
    and c: "c = (usBody sp)\<lparr>ocReasons := sort_key (the \<circ> reasonOrder) (ocReasons (usBody sp))\<rparr>"
    by (auto simp: canonicalizeUncorrelated_def Let_def split: if_splits)
  show "c = (usBody sp)\<lparr>ocReasons := filter (\<lambda>r. r \<in> set (ocReasons (usBody sp))) all_reasons\<rparr>"
    unfolding c known_sorted [OF k] ..
  show "length (ocReasons c) = length (ocReasons (usBody sp))" by (simp add: c)
  show "set (ocReasons c) \<subseteq> set all_reasons" unfolding c known_sorted [OF k] by auto
qed (use assms in \<open>auto simp: canonicalizeUncorrelated_def Let_def split: if_splits\<close>)

lemma outcome_row_canonical:
  assumes "canonicalizeUncorrelated sha sp = Some (c, fp)" "length fp = 32"
  shows "outcome_row_ok \<lparr>c_body = c, c_state = ''uncorrelated'', c_evaluated_at = t, c_fingerprint = fp\<rparr>"
proof -
  note f = canonicalizeUncorrelated_Some [OF assms(1)]
  have r: "ocReasons c = filter (\<lambda>r. r \<in> set (ocReasons c)) all_reasons"
  proof -
    have "filter P xs = filter (\<lambda>x. x \<in> set (filter P xs)) xs" for P and xs :: "ReasonCode list" by (rule filter_cong) auto
    moreover have "ocReasons c = filter (\<lambda>r. r \<in> set (ocReasons (usBody sp))) all_reasons" by (subst f(1)) simp
    ultimately show ?thesis by metis
  qed
  have t: "reason_text x \<in> reason_text ` set (ocReasons c) \<longleftrightarrow> x \<in> set (ocReasons c)" if "x \<in> set all_reasons" for x
    using reason_text_inj [of x] that f(13) known_reason by (metis imageE imageI subsetD)
  have "filter (\<lambda>t. t \<in> set (map reason_text (ocReasons c))) (map reason_text all_reasons) =
      map reason_text (filter (\<lambda>x. x \<in> set (ocReasons c)) all_reasons)"
    by (simp add: filter_map comp_def t cong: filter_cong)
  with r have "map reason_text (ocReasons c) = filter (\<lambda>t. t \<in> set (map reason_text (ocReasons c))) (map reason_text all_reasons)"
    by simp
  moreover have "1 \<le> length (ocReasons c)" using f(2,3) by (cases "ocReasons (usBody sp)") auto
  moreover have "length (ocReasons c) \<le> 9" using f(2,4) by simp
  ultimately show ?thesis
    using f(11,12) assms(2) by (simp add: outcome_row_ok_def Let_def validParserName_def validText_def chars_def)
qed

lemma RecordUncorrelated_created:
  assumes "RecordUncorrelated sha env sp db = (db', Inr st)" "stCreated st" "canonicalizeUncorrelated sha sp = Some (c, fp)"
  shows "outcomes db' = outcomes db @ [\<lparr>c_body = c, c_state = ''uncorrelated'', c_evaluated_at = truncate_us (usEvaluatedAt sp), c_fingerprint = fp\<rparr>] \<and>
    outcome_key c \<notin> (outcome_key \<circ> c_body) ` set (outcomes db)"
  using assms unfolding RecordUncorrelated_def
  by (auto simp: stmt_def commit_def selectStoredOutcome_def stored_outcome_def split: option.splits prod.splits if_splits elim!: insert_once_cases)

lemma known_utf8: "r \<in> set all_reasons \<Longrightarrow> utf8_valid (reason_text r)"
proof -
  have "list_all (\<lambda>r. utf8_valid (reason_text r)) all_reasons" by code_simp
  then show "r \<in> set all_reasons \<Longrightarrow> utf8_valid (reason_text r)" by (auto simp: list_all_iff)
qed

lemma key_utf8:
  "utf8_valid ''workspace_id''" "utf8_valid ''observation_id''" "utf8_valid ''normalizer_name''" "utf8_valid ''normalizer_version''"
  "utf8_valid ''algorithm''" "utf8_valid ''algorithm_version''" "utf8_valid ''state''" "utf8_valid ''reason_codes''" "utf8_valid ''uncorrelated''"
  by code_simp+

lemma parser_name_utf8: "validParserName n \<Longrightarrow> utf8_valid n"
proof -
  assume "validParserName n"
  moreover have "ascii c" if "name_char c" for c using that by (auto simp: class_defs ascii_def byte_def)
  moreover have "name_char c" if "is_lower c" for c using that by (simp add: name_char_def)
  ultimately have "list_all ascii n" by (auto simp: validParserName_def pat_ident_def list_all_iff split: list.splits)
  then show "utf8_valid n" by (rule utf8_valid_all_ascii)
qed

lemma map_JStr_inj: "map (JStr \<circ> f) xs = map (JStr \<circ> g) ys \<Longrightarrow> map f xs = map g ys"
  by (induction xs arbitrary: ys) (auto simp: map_eq_Cons_conv Cons_eq_map_conv)

lemma outcome_depth: "jdepth (outcome_json x) \<le> max_nesting"
  by (auto simp: outcome_json_def slice_def max_nesting_def jdepth_obj jdepth_arr)

lemma dispatch_shape:
  assumes "NewDispatchUncorrelated sha sp = Some out"
  shows "ocReasons (usBody out) \<in> {[ReasonTargetIdentityUnknown], [ReasonAnalysisKindUnknown], [ReasonTargetIdentityUnknown, ReasonAnalysisKindUnknown],
      [ReasonScannerFamilyUnknown], [ReasonSourceContextUnknown], [ReasonSourceContextUnsafe],
      [ReasonScannerFamilyUnknown, ReasonSourceContextUnknown], [ReasonScannerFamilyUnknown, ReasonSourceContextUnsafe]} \<and>
    canonicalizeUncorrelated sha out \<noteq> None \<and>
    (ocAlgorithmVersion (usBody out) = ''2'' \<longleftrightarrow> dsStableTargetIdentityKnown sp \<and> \<not> kind_unknown (dsAnalysisKind sp)) \<and>
    (ocAlgorithmVersion (usBody out) = ''2'' \<longrightarrow> dsAnalysisKind sp = ''sast'' \<and>
      set (ocReasons (usBody out)) \<subseteq> {ReasonScannerFamilyUnknown, ReasonSourceContextUnknown, ReasonSourceContextUnsafe})"
  using assms unfolding NewDispatchUncorrelated_def Let_def
  by (cases "dsStableTargetIdentityKnown sp"; cases "kind_unknown (dsAnalysisKind sp)"; cases "kind_unknown (dsScannerFamily sp)";
      cases "dsSourceContextKnown sp"; cases "dsSourceContextSafe sp"; clarsimp split: if_split_asm)

section \<open>Properties\<close>

definition demo_dispatch :: DispatchSpec where
  "demo_dispatch = \<lparr>dsWorkspaceID = ''ws1'', dsObservationID = ''obs1'', dsNormalizerName = ''sarif'', dsNormalizerVersion = ''1'',
     dsStableTargetIdentityKnown = False, dsAnalysisKind = ''unknown'', dsScannerFamily = [], dsSourceContextKnown = False,
     dsSourceContextSafe = False, dsEvaluatedAt = 4000\<rparr>"

definition demo_outcome :: "ReasonCode list \<Rightarrow> UncorrelatedSpec" where
  "demo_outcome rs = \<lparr>usBody = \<lparr>ocWorkspaceID = ''ws1'', ocObservationID = ''obs1'', ocNormalizerName = ''sarif'', ocNormalizerVersion = ''1'',
     ocAlgorithm = ''correlation-dispatch'', ocAlgorithmVersion = ''1'', ocReasons = rs\<rparr>, usEvaluatedAt = 4000\<rparr>"

lemma demo_valid: "validOpaqueID ''ws1''" "validOpaqueID ''obs1''" "validParserName ''sarif''" "validText ''1'' 1 64"
  "validParserName ''correlation-dispatch''"
  by code_simp+

lemma demo_outcome_canonical:
  assumes "rs = [ReasonTargetIdentityUnknown, ReasonAnalysisKindUnknown] \<or> rs = [ReasonAnalysisKindUnknown, ReasonTargetIdentityUnknown]"
  shows "canonicalizeUncorrelated demo_sha (demo_outcome rs) = Some (usBody (demo_outcome [ReasonTargetIdentityUnknown, ReasonAnalysisKindUnknown]),
     demo_sha (marshal (outcome_json (usBody (demo_outcome [ReasonTargetIdentityUnknown, ReasonAnalysisKindUnknown])))))"
  using assms
  by (auto simp: canonicalizeUncorrelated_def demo_outcome_def Let_def demo_valid [unfolded One_nat_def] reasonOrder_def)

text \<open>C31.  What the package canonicalizes is what the schema calls canonical: every accepted outcome
  satisfies the table's constraints, in particular that its reason codes are known, without repetition and
  in the canonical order, so recording it never fails on a constraint.\<close>

theorem outcome_fits_schema:
  assumes "canonicalizeUncorrelated sha sp = Some (c, fp)" "\<forall>x. length (sha x) = 32"
  shows "outcome_row_ok \<lparr>c_body = c, c_state = ''uncorrelated'', c_evaluated_at = truncate_us (usEvaluatedAt sp), c_fingerprint = fp\<rparr> \<and>
    set (ocReasons c) = set (ocReasons (usBody sp))"
proof -
  note f = canonicalizeUncorrelated_Some [OF assms(1)]
  have "length fp = 32" using f(5) assms(2) by simp
  moreover have "set (ocReasons c) = set (ocReasons (usBody sp))"
    using assms(1) by (auto simp: canonicalizeUncorrelated_def Let_def split: if_splits)
  ultimately show ?thesis using outcome_row_canonical [OF assms(1)] by simp
qed

theorem outcome_fits_schema_witness:
  "outcome_row_ok \<lparr>c_body = usBody (demo_outcome [ReasonTargetIdentityUnknown, ReasonAnalysisKindUnknown]), c_state = ''uncorrelated'',
     c_evaluated_at = 4000, c_fingerprint = demo_sha []\<rparr>"
  using outcome_fits_schema [OF demo_outcome_canonical [of "[ReasonAnalysisKindUnknown, ReasonTargetIdentityUnknown]"]]
  by (simp add: demo_sha_def demo_outcome_def truncate_us_def)

text \<open>C32.  The dispatch decision is total on its reasons: whenever it yields an outcome, that outcome is
  already canonical, has version 2 exactly when the target and the analysis kind are known, and then
  blames only the scanner family or the source context.\<close>

theorem dispatch_canonical:
  assumes "NewDispatchUncorrelated sha sp = Some out"
  shows "\<exists>fp. canonicalizeUncorrelated sha out = Some (usBody out, fp) \<and>
    (ocAlgorithmVersion (usBody out) = ''2'' \<longleftrightarrow> dsStableTargetIdentityKnown sp \<and> \<not> kind_unknown (dsAnalysisKind sp)) \<and>
    (ocAlgorithmVersion (usBody out) = ''2'' \<longrightarrow> dsAnalysisKind sp = ''sast'' \<and>
      set (ocReasons (usBody out)) \<subseteq> {ReasonScannerFamilyUnknown, ReasonSourceContextUnknown, ReasonSourceContextUnsafe})"
proof -
  note d = dispatch_shape [OF assms]
  from d obtain c' fp where c': "canonicalizeUncorrelated sha out = Some (c', fp)" by auto
  have "filter (\<lambda>x. x \<in> set (ocReasons (usBody out))) all_reasons = ocReasons (usBody out)" using conjunct1 [OF d] by (elim insertE emptyE) (simp_all add: all_reasons_def)
  with canonicalizeUncorrelated_Some(1) [OF c'] have "c' = usBody out" by simp
  with c' d show ?thesis by blast
qed

theorem dispatch_canonical_witness:
  "NewDispatchUncorrelated demo_sha demo_dispatch = Some (demo_outcome [ReasonTargetIdentityUnknown, ReasonAnalysisKindUnknown]) \<and>
   (\<exists>fp. canonicalizeUncorrelated demo_sha (demo_outcome [ReasonTargetIdentityUnknown, ReasonAnalysisKindUnknown]) =
     Some (usBody (demo_outcome [ReasonTargetIdentityUnknown, ReasonAnalysisKindUnknown]), fp))"
proof -
  have d: "NewDispatchUncorrelated demo_sha demo_dispatch = Some (demo_outcome [ReasonTargetIdentityUnknown, ReasonAnalysisKindUnknown])"
    using demo_outcome_canonical [of "[ReasonTargetIdentityUnknown, ReasonAnalysisKindUnknown]"]
    by (simp add: NewDispatchUncorrelated_def demo_dispatch_def demo_outcome_def kind_unknown_def)
  from dispatch_canonical [OF d] d show ?thesis by blast
qed

text \<open>C33.  The fingerprinted encoding loses nothing: two accepted outcomes with the same bytes are the
  same outcome, so equal record fingerprints mean equal decisions up to collisions of SHA-256.\<close>

theorem outcome_encoding_injective:
  assumes "canonicalizeUncorrelated sha sp = Some (c, fp)" "canonicalizeUncorrelated sha sp' = Some (c', fp')"
    and "marshal (outcome_json c) = marshal (outcome_json c')"
  shows "c = c'"
proof -
  have j: "json_parse (marshal (outcome_json x)) = Some (outcome_json x)"
    if "canonicalizeUncorrelated sha y = Some (x, z)" for x y z
  proof (rule json_parse_marshal)
    note f = canonicalizeUncorrelated_Some [OF that]
    have t: "utf8_valid (reason_text r)" if "r \<in> set (ocReasons x)" for r
      using that f(13) known_utf8 by blast
    have u: "utf8_valid (ocWorkspaceID x)" "utf8_valid (ocObservationID x)" "utf8_valid (ocNormalizerVersion x)"
      "utf8_valid (ocAlgorithmVersion x)"
      using f(7,8,10,12) by (simp_all add: validOpaqueID_def validText_def)
    have a: "wf_json (slice (map (JStr \<circ> reason_text) (ocReasons x)))" using t by (simp add: slice_def wf_arr)
    show "wf_json (outcome_json x)"
      unfolding outcome_json_def wf_obj
      using parser_name_utf8 [OF f(9)] parser_name_utf8 [OF f(11)] u a by (simp add: key_utf8)
    show "jdepth (outcome_json x) \<le> max_nesting"
      by (rule outcome_depth)
  qed
  have "json_parse (marshal (outcome_json c)) = json_parse (marshal (outcome_json c'))" by (rule arg_cong [OF assms(3)])
  then have e: "outcome_json c = outcome_json c'"
    unfolding j [OF assms(1)] j [OF assms(2)] by (rule option.inject [THEN iffD1])
  note f = canonicalizeUncorrelated_Some [OF assms(1)] and f' = canonicalizeUncorrelated_Some [OF assms(2)]
  have ne: "ocReasons c \<noteq> []" "ocReasons c' \<noteq> []" using f(2,3) f'(2,3) by (metis length_0_conv)+
  have "slice (map (JStr \<circ> reason_text) (ocReasons c)) = slice (map (JStr \<circ> reason_text) (ocReasons c'))"
    using e by (simp only: outcome_json_def json.inject list.inject prod.inject simp_thms)
  then have "map (JStr \<circ> reason_text) (ocReasons c) = map (JStr \<circ> reason_text) (ocReasons c')"
    using ne by (simp only: slice_def map_is_Nil_conv if_False json.inject)
  then have m: "map reason_text (ocReasons c) = map reason_text (ocReasons c')" by (rule map_JStr_inj)
  have "inj_on reason_text (set (ocReasons c) \<union> set (ocReasons c'))"
  proof (rule inj_onI)
    fix x y
    assume "x \<in> set (ocReasons c) \<union> set (ocReasons c')" "y \<in> set (ocReasons c) \<union> set (ocReasons c')" "reason_text x = reason_text y"
    moreover from this have "x \<in> set all_reasons" "y \<in> set all_reasons" using f(13) f'(13) by blast+
    ultimately show "x = y" using reason_text_inj known_reason by blast
  qed
  with m have "ocReasons c = ocReasons c'" by (rule map_inj_on)
  moreover have "ocWorkspaceID c = ocWorkspaceID c'" "ocObservationID c = ocObservationID c'" "ocNormalizerName c = ocNormalizerName c'"
    "ocNormalizerVersion c = ocNormalizerVersion c'" "ocAlgorithm c = ocAlgorithm c'" "ocAlgorithmVersion c = ocAlgorithmVersion c'"
    using e by (simp_all only: outcome_json_def json.inject list.inject prod.inject simp_thms)
  ultimately show ?thesis by (intro canonicalOutcome.equality) simp_all
qed

lemma demo_single_canonical:
  "canonicalizeUncorrelated demo_sha (demo_outcome [ReasonAnalysisKindUnknown]) =
     Some (usBody (demo_outcome [ReasonAnalysisKindUnknown]), demo_sha (marshal (outcome_json (usBody (demo_outcome [ReasonAnalysisKindUnknown])))))"
  by (simp add: canonicalizeUncorrelated_def demo_outcome_def Let_def demo_valid [unfolded One_nat_def] reasonOrder_def)

theorem outcome_encoding_injective_witness:
  "(\<exists>c c' fp fp'. canonicalizeUncorrelated demo_sha (demo_outcome [ReasonAnalysisKindUnknown, ReasonTargetIdentityUnknown]) = Some (c, fp) \<and>
      canonicalizeUncorrelated demo_sha (demo_outcome [ReasonTargetIdentityUnknown, ReasonAnalysisKindUnknown]) = Some (c', fp') \<and>
      marshal (outcome_json c) = marshal (outcome_json c') \<and> c = c') \<and>
   (\<exists>c c' fp fp'. canonicalizeUncorrelated demo_sha (demo_outcome [ReasonAnalysisKindUnknown]) = Some (c, fp) \<and>
      canonicalizeUncorrelated demo_sha (demo_outcome [ReasonTargetIdentityUnknown, ReasonAnalysisKindUnknown]) = Some (c', fp') \<and>
      c \<noteq> c' \<and> marshal (outcome_json c) \<noteq> marshal (outcome_json c'))"
proof -
  let ?ab = "[ReasonTargetIdentityUnknown, ReasonAnalysisKindUnknown]" and ?ba = "[ReasonAnalysisKindUnknown, ReasonTargetIdentityUnknown]"
  let ?b = "[ReasonAnalysisKindUnknown]"
  note ab = demo_outcome_canonical [OF disjI1 [OF refl]] and ba = demo_outcome_canonical [OF disjI2 [OF refl]]
  have ne: "usBody (demo_outcome ?b) \<noteq> usBody (demo_outcome ?ab)" by (simp add: demo_outcome_def)
  then have "marshal (outcome_json (usBody (demo_outcome ?b))) \<noteq> marshal (outcome_json (usBody (demo_outcome ?ab)))"
    using outcome_encoding_injective [OF demo_single_canonical ab] by blast
  with ne ab ba demo_single_canonical outcome_encoding_injective [OF ba ab refl] show ?thesis by blast
qed

text \<open>C34.  A decision is recorded once: after an outcome was created, and whatever is recorded later,
  recording the same decision again returns the retained outcome with its original time, and recording a
  different decision under the same key is rejected; neither changes the table.\<close>

theorem outcome_recorded_once:
  assumes "RecordUncorrelated sha env sp db = (db1, Inr st)" "stCreated st" "(correlation_step sha)\<^sup>*\<^sup>* db1 db2"
    and "canonicalizeUncorrelated sha sp = Some (c, fp)" "canonicalizeUncorrelated sha sp' = Some (c', fp')" "outcome_key c' = outcome_key c"
    and "source_normalization c' db2 = Some n" "n_normalized_at n \<le> usEvaluatedAt sp'" "calm env'" "\<forall>x. length (sha x) = 32"
  shows "RecordUncorrelated sha env' sp' db2 = (db2,
    if fp' = fp then Inr \<lparr>stWorkspaceID = ocWorkspaceID c, stObservationID = ocObservationID c, stAlgorithm = ocAlgorithm c,
      stAlgorithmVersion = ocAlgorithmVersion c, stReasons = ocReasons c, stEvaluatedAt = truncate_us (usEvaluatedAt sp), stCreated = False\<rparr>
    else Inl ErrOutcomeConflict)"
proof -
  let ?r = "\<lparr>c_body = c, c_state = ''uncorrelated'', c_evaluated_at = truncate_us (usEvaluatedAt sp), c_fingerprint = fp\<rparr>"
  from RecordUncorrelated_created [OF assms(1,2,4)]
  have "sql_row (\<lambda>x. (outcome_key \<circ> c_body) x = outcome_key c) (outcomes db1) = Some ?r"
    using sql_row_fresh [of "outcome_key \<circ> c_body" ?r "outcomes db"] by simp
  from outcome_table.lookup_stable [OF assms(3) this]
  have l: "sql_row (\<lambda>x. (outcome_key \<circ> c_body) x = outcome_key c) (outcomes db2) = Some ?r" .
  have len: "length fp' = 32" using canonicalizeUncorrelated_Some(5) [OF assms(5)] assms(10) by simp
  have "list_ex (\<lambda>x. (outcome_key \<circ> c_body) x = outcome_key c) (outcomes db2)"
    using sql_row_Some [OF l] unfolding list_ex_iff by blast
  then have i: "insert_once outcome_row_ok (outcome_key \<circ> c_body) \<lparr>c_body = c', c_state = ''uncorrelated'',
      c_evaluated_at = truncate_us (usEvaluatedAt sp'), c_fingerprint = fp'\<rparr> (outcomes db2) = Some (outcomes db2, 0)"
    using outcome_row_canonical [OF assms(5) len] by (simp add: insert_once_def assms(6))
  have s: "selectStoredOutcome c' db2 = Some (stored_outcome ?r, fp)"
    using l by (simp add: selectStoredOutcome_def assms(6))
  show ?thesis
    unfolding RecordUncorrelated_def using assms(5,7,8,9) by (auto simp: i s stored_outcome_def)
qed

definition demo_correlation :: correlation_db where
  "demo_correlation = \<lparr>source_normalizations = [\<lparr>n_body = \<lparr>cnWorkspaceID = ''ws1'', cnObservationID = ''obs1'', cnNormalizerName = ''sarif'',
     cnNormalizerVersion = ''1'', cnCategory = ''unknown'', cnSeverity = SeverityHigh, cnRuleKind = RuleUnknown, cnRuleID = [],
     cnLocation = unknown_location\<rparr>, n_normalized_at = 3000, n_fingerprint = demo_sha []\<rparr>], outcomes = []\<rparr>"

lemma demo_correlation_source:
  "source_normalization (usBody (demo_outcome rs)) (demo_correlation\<lparr>outcomes := x\<rparr>) = Some (hd (source_normalizations demo_correlation))"
  by (simp add: source_normalization_def demo_correlation_def demo_outcome_def normalization_key_def sql_row_def)

lemma demo_outcome_recorded:
  defines "c \<equiv> usBody (demo_outcome [ReasonTargetIdentityUnknown, ReasonAnalysisKindUnknown])"
  shows "RecordUncorrelated demo_sha (quiet_env 0) (demo_outcome [ReasonTargetIdentityUnknown, ReasonAnalysisKindUnknown]) demo_correlation =
    (demo_correlation\<lparr>outcomes := [\<lparr>c_body = c, c_state = ''uncorrelated'', c_evaluated_at = 4000, c_fingerprint = demo_sha (marshal (outcome_json c))\<rparr>]\<rparr>,
     Inr \<lparr>stWorkspaceID = ''ws1'', stObservationID = ''obs1'', stAlgorithm = ''correlation-dispatch'', stAlgorithmVersion = ''1'',
       stReasons = [ReasonTargetIdentityUnknown, ReasonAnalysisKindUnknown], stEvaluatedAt = 4000, stCreated = True\<rparr>)"
proof -
  have k: "canonicalizeUncorrelated demo_sha (demo_outcome [ReasonTargetIdentityUnknown, ReasonAnalysisKindUnknown]) = Some (c, demo_sha (marshal (outcome_json c)))"
    unfolding c_def by (rule demo_outcome_canonical) simp
  have o: "outcome_row_ok \<lparr>c_body = c, c_state = ''uncorrelated'', c_evaluated_at = 4000, c_fingerprint = demo_sha (marshal (outcome_json c))\<rparr>"
    by (rule outcome_row_canonical [OF k]) (simp add: demo_sha_def)
  have n: "source_normalization c demo_correlation = Some (hd (source_normalizations demo_correlation))"
    using demo_correlation_source [of _ "[]"] by (simp add: c_def demo_correlation_def)
  have t: "n_normalized_at (hd (source_normalizations demo_correlation)) = 3000" "outcomes demo_correlation = []"
    "usEvaluatedAt (demo_outcome [ReasonTargetIdentityUnknown, ReasonAnalysisKindUnknown]) = 4000"
    by (simp_all add: demo_correlation_def demo_outcome_def)
  have b: "ocWorkspaceID c = ''ws1''" "ocObservationID c = ''obs1''" "ocAlgorithm c = ''correlation-dispatch''" "ocAlgorithmVersion c = ''1''"
    "ocReasons c = [ReasonTargetIdentityUnknown, ReasonAnalysisKindUnknown]" by (simp_all add: c_def demo_outcome_def)
  show ?thesis
    unfolding RecordUncorrelated_def k by (simp add: n t b insert_once_def o truncate_us_def)
qed

theorem outcome_recorded_once_witness:
  "\<exists>st. RecordUncorrelated demo_sha (quiet_env 9) (demo_outcome [ReasonAnalysisKindUnknown, ReasonTargetIdentityUnknown])
       (fst (RecordUncorrelated demo_sha (quiet_env 0) (demo_outcome [ReasonTargetIdentityUnknown, ReasonAnalysisKindUnknown]) demo_correlation)) =
     (fst (RecordUncorrelated demo_sha (quiet_env 0) (demo_outcome [ReasonTargetIdentityUnknown, ReasonAnalysisKindUnknown]) demo_correlation), Inr st) \<and>
     \<not> stCreated st"
proof -
  have t: "n_normalized_at (hd (source_normalizations demo_correlation)) = 3000" "\<And>rs. usEvaluatedAt (demo_outcome rs) = 4000"
    by (simp_all add: demo_correlation_def demo_outcome_def)
  show ?thesis
    using outcome_recorded_once [OF demo_outcome_recorded _ rtranclp.rtrancl_refl
        demo_outcome_canonical [of "[ReasonTargetIdentityUnknown, ReasonAnalysisKindUnknown]"]
        demo_outcome_canonical [of "[ReasonAnalysisKindUnknown, ReasonTargetIdentityUnknown]"] refl demo_correlation_source, of "quiet_env 9"]
    by (simp add: demo_outcome_recorded t demo_sha_def)
qed

end
