(* ===== verification/Catalog.thy ===== *)
theory Catalog
  imports Observation Identity
begin

text \<open>
  The package \<open>internal/catalog\<close>: repositories are created under an idempotency key (\<open>service.go\<close>,
  \<open>postgres.go\<close>), linked to applications, and resolved as targets of an attribution (\<open>resolution.go\<close>), over
  the tables of migration 00010.  The authorizer is a parameter that returns an error or nothing; the advisory
  lock another transaction may hold is \<open>db_locked\<close> of the environment.
\<close>

datatype catalog_error =
    CatInvalid | ErrIdempotencyConflict | ErrIdempotencyInProgress | ErrWorkspaceNotFound | ErrLinkTargetNotFound
  | ErrRepositoryTargetNotFound | CatUnauthorized string | CatRandom | CatDB string cause

record CreateRepositoryRequest =
  crPrincipalID :: string
  crWorkspaceID :: string
  crIdempotencyKey :: string
  crDisplayName :: string

record Repository =
  repoID :: string
  repoWorkspaceID :: string
  repoDisplayName :: string
  repoCreatedBy :: string
  repoCreatedAt :: gotime
  repoUpdatedAt :: gotime

record RepositoryResult =
  rrRepository :: Repository
  rrCreated :: bool

record LinkRepositoryRequest =
  lrPrincipalID :: string
  lrWorkspaceID :: string
  lrApplicationID :: string
  lrRepositoryID :: string

record ApplicationRepositoryRelationship =
  relID :: string
  relWorkspaceID :: string
  relApplicationID :: string
  relRepositoryID :: string
  relLinkedBy :: string
  relValidFrom :: gotime
  relValidUntil :: "gotime option"

record RelationshipResult =
  rsRelationship :: ApplicationRepositoryRelationship
  rsCreated :: bool

record ResolvedRepositoryTarget =
  rtWorkspaceID :: string
  rtApplicationID :: string
  rtRepositoryID :: string
  rtRelationshipID :: string
  rtValidFrom :: gotime
  rtResolvedAt :: gotime

record createSpec =
  csRepository :: Repository
  csPrincipalID :: string
  csAPIMajorVersion :: int
  csOperation :: string
  csIdempotencyKey :: string
  csRequestFingerprint :: string
  csIdempotencyExpires :: gotime

definition apiMajorVersion :: int where "apiMajorVersion = 1"
definition operationCreateRepository :: string where "operationCreateRepository = ''catalog.repositories.create''"
definition minimumIdempotencyRetention :: duration where "minimumIdempotencyRetention = 24 * hour"

definition validIdempotencyKey :: "string \<Rightarrow> bool" where
  "validIdempotencyKey k \<longleftrightarrow> pat_run key_char 1 128 k"

definition validDisplayName :: "string \<Rightarrow> bool" where
  "validDisplayName v \<longleftrightarrow> utf8_valid v \<and> 1 \<le> rune_count v \<and> rune_count v \<le> 255 \<and> trimmed v \<and> \<not> has_nul v"

definition validateCreateRequest :: "CreateRepositoryRequest \<Rightarrow> bool" where
  "validateCreateRequest r \<longleftrightarrow> validOpaqueID (crPrincipalID r) \<and> validOpaqueID (crWorkspaceID r) \<and>
     validIdempotencyKey (crIdempotencyKey r) \<and> validDisplayName (crDisplayName r)"

definition validateLinkRequest :: "LinkRepositoryRequest \<Rightarrow> bool" where
  "validateLinkRequest r \<longleftrightarrow> validOpaqueID (lrPrincipalID r) \<and> validOpaqueID (lrWorkspaceID r) \<and>
     validOpaqueID (lrApplicationID r) \<and> validOpaqueID (lrRepositoryID r)"

definition fingerprintCreate :: "(string \<Rightarrow> string) \<Rightarrow> CreateRepositoryRequest \<Rightarrow> string option" where
  "fingerprintCreate sha r =
     (if \<not> validateCreateRequest r then None
      else Some (sha (marshal (JObj [(''display_name'', JStr (crDisplayName r))]))))"

definition createLockKey :: "(string \<Rightarrow> string) \<Rightarrow> createSpec \<Rightarrow> string" where
  "createLockKey sha sp = hex_of (sha (marshal (JObj
     [(''workspace_id'', JStr (repoWorkspaceID (csRepository sp))), (''principal_id'', JStr (csPrincipalID sp)),
      (''api_major_version'', JNum (itoa (csAPIMajorVersion sp))), (''operation'', JStr (csOperation sp)),
      (''idempotency_key'', JStr (csIdempotencyKey sp))])))"

section \<open>Tables\<close>

definition repository_row_ok :: "Repository \<Rightarrow> bool" where
  "repository_row_ok r \<longleftrightarrow> chars 3 128 (repoID r) \<and> chars 1 255 (repoDisplayName r) \<and> chars 3 128 (repoCreatedBy r) \<and>
     repoCreatedAt r \<le> repoUpdatedAt r"

definition relationship_row_ok :: "ApplicationRepositoryRelationship \<Rightarrow> bool" where
  "relationship_row_ok r \<longleftrightarrow> chars 3 128 (relID r) \<and> chars 3 128 (relLinkedBy r) \<and>
     (case relValidUntil r of None \<Rightarrow> True | Some u \<Rightarrow> relValidFrom r < u)"

record idempotency_row =
  ik_workspace :: string
  ik_principal :: string
  ik_api_version :: int
  ik_operation :: string
  ik_key :: string
  ik_fingerprint :: string
  ik_repository :: string
  ik_completed_at :: gotime
  ik_expires_at :: gotime

definition idempotency_row_ok :: "idempotency_row \<Rightarrow> bool" where
  "idempotency_row_ok r \<longleftrightarrow> chars 3 128 (ik_principal r) \<and> 0 < ik_api_version r \<and>
     pat_ident capability_char 63 (ik_operation r) \<and> pat_run key_char 1 128 (ik_key r) \<and>
     length (ik_fingerprint r) = 32 \<and> ik_completed_at r + 24 * hour \<le> ik_expires_at r"

definition idempotency_scope :: "idempotency_row \<Rightarrow> string \<times> string \<times> int \<times> string \<times> string" where
  "idempotency_scope r = (ik_workspace r, ik_principal r, ik_api_version r, ik_operation r, ik_key r)"

definition repository_key :: "Repository \<Rightarrow> string \<times> string" where
  "repository_key r = (repoWorkspaceID r, repoID r)"

record catalog_db =
  cat_workspaces :: "string list"
  cat_applications :: "(string \<times> string) list"
  repositories :: "Repository list"
  relationships :: "ApplicationRepositoryRelationship list"
  create_idempotency :: "idempotency_row list"

section \<open>The store\<close>

definition create_spec_valid :: "createSpec \<Rightarrow> bool" where
  "create_spec_valid sp \<longleftrightarrow>
     (let r = csRepository sp in
      validOpaqueID (repoID r) \<and> validOpaqueID (repoWorkspaceID r) \<and> validOpaqueID (repoCreatedBy r) \<and>
      validDisplayName (repoDisplayName r) \<and> repoCreatedAt r \<noteq> 0 \<and> \<not> repoUpdatedAt r < repoCreatedAt r \<and>
      csPrincipalID sp = repoCreatedBy r \<and> csAPIMajorVersion sp = apiMajorVersion \<and>
      csOperation sp = operationCreateRepository \<and> validIdempotencyKey (csIdempotencyKey sp) \<and>
      \<not> csIdempotencyExpires sp < repoCreatedAt r + minimumIdempotencyRetention)"

definition idempotency_of :: "createSpec \<Rightarrow> idempotency_row" where
  "idempotency_of sp =
     \<lparr>ik_workspace = repoWorkspaceID (csRepository sp), ik_principal = csPrincipalID sp, ik_api_version = csAPIMajorVersion sp,
      ik_operation = csOperation sp, ik_key = csIdempotencyKey sp, ik_fingerprint = csRequestFingerprint sp,
      ik_repository = repoID (csRepository sp), ik_completed_at = repoCreatedAt (csRepository sp),
      ik_expires_at = csIdempotencyExpires sp\<rparr>"

definition selectRepositoryReplay :: "createSpec \<Rightarrow> catalog_db \<Rightarrow> (Repository \<times> string) option" where
  "selectRepositoryReplay sp db =
     (case sql_row (\<lambda>r. idempotency_scope r = idempotency_scope (idempotency_of sp)) (create_idempotency db) of
        None \<Rightarrow> None
      | Some i \<Rightarrow>
          map_option (\<lambda>r. (r, ik_fingerprint i))
            (sql_row (\<lambda>r. repository_key r = (ik_workspace i, ik_repository i)) (repositories db)))"

definition store_CreateRepository ::
  "(string \<Rightarrow> string) \<Rightarrow> db_env \<Rightarrow> createSpec \<Rightarrow> catalog_db \<Rightarrow> catalog_db \<times> (catalog_error + RepositoryResult)" where
  "store_CreateRepository sha env sp db =
     (let r = csRepository sp in
      if \<not> create_spec_valid sp then (db, Inl CatInvalid)
      else
        stmt env CatDB ''begin repository creation'' [] db
        (stmt env CatDB ''resolve repository workspace'' [] db
        (if repoWorkspaceID r \<notin> set (cat_workspaces db) then (db, Inl ErrWorkspaceNotFound)
         else
           stmt env CatDB ''lock repository idempotency scope'' [] db
           (if db_locked env (''open-aspm-repository-idempotency:'' @ createLockKey sha sp) then (db, Inl ErrIdempotencyInProgress)
            else
              stmt env CatDB ''claim repository idempotency key'' [] db
              (case insert_once idempotency_row_ok idempotency_scope (idempotency_of sp) (create_idempotency db) of
                 None \<Rightarrow> (db, Inl (CatDB ''claim repository idempotency key'' (violation env ''claim repository idempotency key'')))
               | Some (rows, n) \<Rightarrow>
                   if n = 0 then
                     stmt env CatDB ''read repository replay'' [] db
                     (case selectRepositoryReplay sp db of
                        None \<Rightarrow> (db, Inl (CatDB ''read repository replay'' DriverError))
                      | Some (existing, fp) \<Rightarrow>
                          if fp \<noteq> csRequestFingerprint sp then (db, Inl ErrIdempotencyConflict)
                          else commit env CatDB ''finish repository replay'' [] db db
                            \<lparr>rrRepository = existing, rrCreated = False\<rparr>)
                   else
                     stmt env CatDB ''insert repository'' [] db
                     (case insert_once repository_row_ok repository_key r (repositories db) of
                        Some (repos, Suc _) \<Rightarrow>
                          commit env CatDB ''commit repository creation'' [] db
                            (db\<lparr>create_idempotency := rows, repositories := repos\<rparr>) \<lparr>rrRepository = r, rrCreated = True\<rparr>
                      | _ \<Rightarrow> (db, Inl (CatDB ''insert repository'' (violation env ''insert repository'')))))))))"

definition active_link :: "string \<Rightarrow> string \<Rightarrow> string \<Rightarrow> ApplicationRepositoryRelationship \<Rightarrow> bool" where
  "active_link ws app repo x \<longleftrightarrow>
     relWorkspaceID x = ws \<and> relApplicationID x = app \<and> relRepositoryID x = repo \<and> relValidUntil x = None"

definition store_LinkRepository ::
  "db_env \<Rightarrow> ApplicationRepositoryRelationship \<Rightarrow> catalog_db \<Rightarrow> catalog_db \<times> (catalog_error + RelationshipResult)" where
  "store_LinkRepository env r db =
     (if \<not> (validOpaqueID (relID r) \<and> validOpaqueID (relWorkspaceID r) \<and> validOpaqueID (relApplicationID r) \<and>
            validOpaqueID (relRepositoryID r) \<and> validOpaqueID (relLinkedBy r) \<and> relValidFrom r \<noteq> 0 \<and> relValidUntil r = None)
      then (db, Inl CatInvalid)
      else
        stmt env CatDB ''begin application repository link'' [] db
        (stmt env CatDB ''resolve application repository link'' [] db
        (if (relWorkspaceID r, relApplicationID r) \<notin> set (cat_applications db) \<or>
            (relWorkspaceID r, relRepositoryID r) \<notin> repository_key ` set (repositories db)
         then (db, Inl ErrLinkTargetNotFound)
         else
           stmt env CatDB ''insert application repository link'' [] db
           (if \<not> relationship_row_ok r
            then (db, Inl (CatDB ''insert application repository link'' (violation env ''insert application repository link'')))
            else
              (case sql_row (active_link (relWorkspaceID r) (relApplicationID r) (relRepositoryID r)) (relationships db) of
                 Some x \<Rightarrow>
                   stmt env CatDB ''read active application repository link'' [] db
                   (commit env CatDB ''finish application repository link replay'' [] db db
                      \<lparr>rsRelationship = x, rsCreated = False\<rparr>)
               | None \<Rightarrow>
                   if list_ex (\<lambda>x. relWorkspaceID x = relWorkspaceID r \<and> relID x = relID r) (relationships db)
                   then (db, Inl (CatDB ''insert application repository link'' (violation env ''insert application repository link'')))
                   else commit env CatDB ''commit application repository link'' [] db
                     (db\<lparr>relationships := relationships db @ [r]\<rparr>) \<lparr>rsRelationship = r, rsCreated = True\<rparr>)))))"

text \<open>The query reads \<open>clock_timestamp()\<close> twice, in its condition and in its result.\<close>

definition resolveActiveRepositoryTarget ::
  "db_env \<Rightarrow> string \<Rightarrow> string \<Rightarrow> string \<Rightarrow> catalog_db \<Rightarrow> catalog_error + ResolvedRepositoryTarget" where
  "resolveActiveRepositoryTarget env ws app repo db =
     (case stmt_fault env ''resolve active repository target'' [] of
        Some c \<Rightarrow> Inl (CatDB ''resolve active repository target'' c)
      | None \<Rightarrow>
          (case sql_row (\<lambda>x. active_link ws app repo x \<and> relValidFrom x \<le> db_clock env 0) (relationships db) of
             None \<Rightarrow> Inl ErrLinkTargetNotFound
           | Some x \<Rightarrow> Inr \<lparr>rtWorkspaceID = relWorkspaceID x, rtApplicationID = relApplicationID x, rtRepositoryID = relRepositoryID x,
               rtRelationshipID = relID x, rtValidFrom = relValidFrom x, rtResolvedAt = db_clock env 1\<rparr>))"

definition ResolveActiveRepositoryTarget ::
  "db_env \<Rightarrow> string \<Rightarrow> string \<Rightarrow> string \<Rightarrow> catalog_db \<Rightarrow> catalog_error + ResolvedRepositoryTarget" where
  "ResolveActiveRepositoryTarget env ws app repo db =
     (if \<not> validOpaqueID ws \<or> \<not> validOpaqueID app \<or> \<not> validOpaqueID repo then Inl CatInvalid
      else
        (case resolveActiveRepositoryTarget env ws app repo db of
           Inl ErrLinkTargetNotFound \<Rightarrow> Inl ErrRepositoryTargetNotFound
         | res \<Rightarrow> res))"

section \<open>The service\<close>

definition randomIdentifier :: "string \<Rightarrow> string option \<Rightarrow> string option" where
  "randomIdentifier prefix rnd = map_option (\<lambda>bs. random_text prefix (take 20 (bs @ replicate 20 nul_byte))) rnd"

definition create_spec :: "duration \<Rightarrow> gotime \<Rightarrow> string \<Rightarrow> string \<Rightarrow> CreateRepositoryRequest \<Rightarrow> createSpec" where
  "create_spec retention now i fp req =
     \<lparr>csRepository = \<lparr>repoID = i, repoWorkspaceID = crWorkspaceID req, repoDisplayName = crDisplayName req,
        repoCreatedBy = crPrincipalID req, repoCreatedAt = truncate_us now, repoUpdatedAt = truncate_us now\<rparr>,
      csPrincipalID = crPrincipalID req, csAPIMajorVersion = apiMajorVersion, csOperation = operationCreateRepository,
      csIdempotencyKey = crIdempotencyKey req, csRequestFingerprint = fp, csIdempotencyExpires = truncate_us now + retention\<rparr>"

definition CreateRepository ::
  "(string \<Rightarrow> string) \<Rightarrow> (string \<Rightarrow> string \<Rightarrow> string \<Rightarrow> string \<Rightarrow> string option) \<Rightarrow> duration \<Rightarrow> db_env \<Rightarrow> gotime \<Rightarrow> string option
     \<Rightarrow> CreateRepositoryRequest \<Rightarrow> catalog_db \<Rightarrow> catalog_db \<times> (catalog_error + RepositoryResult)" where
  "CreateRepository sha auth retention env now rnd req db =
     (if \<not> validateCreateRequest req then (db, Inl CatInvalid)
      else
        (case auth (crPrincipalID req) (crWorkspaceID req) [] ''catalog:repositories:create'' of
           Some e \<Rightarrow> (db, Inl (CatUnauthorized e))
         | None \<Rightarrow>
             (case fingerprintCreate sha req of
                None \<Rightarrow> (db, Inl CatInvalid)
              | Some fp \<Rightarrow>
                  (case randomIdentifier ''repo_'' rnd of
                     None \<Rightarrow> (db, Inl CatRandom)
                   | Some i \<Rightarrow> store_CreateRepository sha env (create_spec retention now i fp req) db))))"

definition LinkRepository ::
  "(string \<Rightarrow> string \<Rightarrow> string \<Rightarrow> string \<Rightarrow> string option) \<Rightarrow> db_env \<Rightarrow> gotime \<Rightarrow> string option
     \<Rightarrow> LinkRepositoryRequest \<Rightarrow> catalog_db \<Rightarrow> catalog_db \<times> (catalog_error + RelationshipResult)" where
  "LinkRepository auth env now rnd req db =
     (if \<not> validateLinkRequest req then (db, Inl CatInvalid)
      else
        (case auth (lrPrincipalID req) (lrWorkspaceID req) (lrApplicationID req) ''catalog:application-repositories:link'' of
           Some e \<Rightarrow> (db, Inl (CatUnauthorized e))
         | None \<Rightarrow>
             (case randomIdentifier ''rel_'' rnd of
                None \<Rightarrow> (db, Inl CatRandom)
              | Some i \<Rightarrow>
                  store_LinkRepository env \<lparr>relID = i, relWorkspaceID = lrWorkspaceID req, relApplicationID = lrApplicationID req,
                    relRepositoryID = lrRepositoryID req, relLinkedBy = lrPrincipalID req, relValidFrom = truncate_us now,
                    relValidUntil = None\<rparr> db)))"

section \<open>Steps\<close>

inductive catalog_step :: "(string \<Rightarrow> string) \<Rightarrow> catalog_db \<Rightarrow> catalog_db \<Rightarrow> bool" for sha :: "string \<Rightarrow> string" where
  create: "CreateRepository sha auth retention env now rnd req db = (db', res) \<Longrightarrow> catalog_step sha db db'"
| link: "LinkRepository auth env now rnd lreq db = (db', lres) \<Longrightarrow> catalog_step sha db db'"

lemma store_CreateRepository_db:
  assumes "store_CreateRepository sha env sp db = (db', res)"
  shows "db' = db \<or> (db' = db\<lparr>create_idempotency := create_idempotency db @ [idempotency_of sp], repositories := repositories db @ [csRepository sp]\<rparr> \<and>
    idempotency_scope (idempotency_of sp) \<notin> idempotency_scope ` set (create_idempotency db) \<and>
    repository_key (csRepository sp) \<notin> repository_key ` set (repositories db))"
proof (cases "db' = db")
  case False
  with assms show ?thesis
    unfolding store_CreateRepository_def Let_def
    by (auto split: option.splits prod.splits nat.splits if_splits dest!: stmt_db commit_db elim!: insert_once_cases)
qed simp

lemma store_LinkRepository_db:
  assumes "store_LinkRepository env r db = (db', res)"
  shows "db' = db \<or> (db' = db\<lparr>relationships := relationships db @ [r]\<rparr> \<and>
    sql_row (active_link (relWorkspaceID r) (relApplicationID r) (relRepositoryID r)) (relationships db) = None)"
proof (cases "db' = db")
  case False
  with assms show ?thesis
    unfolding store_LinkRepository_def
    by (auto split: option.splits if_splits dest!: stmt_db commit_db)
qed simp

lemma CreateRepository_store:
  assumes "CreateRepository sha auth retention env now rnd req db = (db', res)"
  shows "(db' = db \<and> (\<exists>e. res = Inl e)) \<or> (\<exists>i fp. randomIdentifier ''repo_'' rnd = Some i \<and> fingerprintCreate sha req = Some fp \<and>
    store_CreateRepository sha env (create_spec retention now i fp req) db = (db', res))"
  using assms by (auto simp: CreateRepository_def split: option.splits if_splits)

lemma LinkRepository_store:
  assumes "LinkRepository auth env now rnd req db = (db', res)"
  shows "(db' = db \<and> (\<exists>e. res = Inl e)) \<or> (\<exists>r. store_LinkRepository env r db = (db', res) \<and> relValidUntil r = None)"
  using assms by (auto simp: LinkRepository_def split: option.splits if_splits)

lemma catalog_step_cases:
  assumes "catalog_step sha db db'"
  obtains (same) "db' = db"
  | (created) sp where "db' = db\<lparr>create_idempotency := create_idempotency db @ [idempotency_of sp], repositories := repositories db @ [csRepository sp]\<rparr>"
      "idempotency_scope (idempotency_of sp) \<notin> idempotency_scope ` set (create_idempotency db)"
      "repository_key (csRepository sp) \<notin> repository_key ` set (repositories db)"
  | (linked) r where "db' = db\<lparr>relationships := relationships db @ [r]\<rparr>" "relValidUntil r = None"
      "sql_row (active_link (relWorkspaceID r) (relApplicationID r) (relRepositoryID r)) (relationships db) = None"
  using assms
proof cases
  case (create auth retention env now rnd req res)
  from CreateRepository_store [OF this] same created show thesis by (blast dest: store_CreateRepository_db)
next
  case (link auth env now rnd lreq lres)
  from LinkRepository_store [OF this] same linked show thesis by (blast dest: store_LinkRepository_db)
qed

interpretation idempotency_table: append_only "catalog_step sha" create_idempotency idempotency_scope for sha
  by unfold_locales (erule catalog_step_cases, auto)

interpretation repository_table: append_only "catalog_step sha" repositories repository_key for sha
  by unfold_locales (erule catalog_step_cases, auto)

lemma catalog_steps_workspaces: "(catalog_step sha)\<^sup>*\<^sup>* db db' \<Longrightarrow> cat_workspaces db' = cat_workspaces db"
  by (induction rule: rtranclp_induct) (auto elim: catalog_step_cases)

lemma catalog_steps_links: "(catalog_step sha)\<^sup>*\<^sup>* db db' \<Longrightarrow> set (relationships db) \<subseteq> set (relationships db')"
  by (induction rule: rtranclp_induct) (auto elim!: catalog_step_cases)

text \<open>The partial unique index: at most one open link between an application and a repository.\<close>

definition links_unique :: "catalog_db \<Rightarrow> bool" where
  "links_unique db \<longleftrightarrow>
     distinct (map (\<lambda>x. (relWorkspaceID x, relApplicationID x, relRepositoryID x)) (filter (\<lambda>x. relValidUntil x = None) (relationships db)))"

lemma catalog_step_links_unique: "catalog_step sha db db' \<Longrightarrow> links_unique db \<Longrightarrow> links_unique db'"
  by (erule catalog_step_cases) (auto simp: links_unique_def sql_row_None active_link_def)

lemma catalog_steps_links_unique: "(catalog_step sha)\<^sup>*\<^sup>* db db' \<Longrightarrow> links_unique db \<Longrightarrow> links_unique db'"
  by (induction rule: rtranclp_induct) (auto intro: catalog_step_links_unique)

lemma links_uniqueD:
  assumes "links_unique db" "x \<in> set (relationships db)" "y \<in> set (relationships db)" "active_link ws app repo x" "active_link ws app repo y"
  shows "x = y"
  using assms distinct_key_unique [of "\<lambda>x. (relWorkspaceID x, relApplicationID x, relRepositoryID x)" "filter (\<lambda>x. relValidUntil x = None) (relationships db)" x y]
  by (auto simp: links_unique_def active_link_def)

section \<open>Identifiers\<close>

lemma random_id_valid:
  assumes "randomIdentifier ''repo_'' rnd = Some i"
  shows "validOpaqueID i"
proof -
  from assms obtain bs where i: "i = ''repo_'' @ base32_lower bs" "length bs = 20"
    by (auto simp: randomIdentifier_def random_text_def)
  have l: "length (base32_lower bs) = 32" using i(2) by (simp add: base32_lower_length)
  have a: "list_all ascii i" "nul_byte \<notin> set i"
    using base32_lower_chars [of bs] base32_char_key by (auto simp: i(1) list_all_iff ascii_def byte_def nul_byte_def)
  have c: "last i \<in> set (base32_lower bs)" using l by (cases "base32_lower bs" rule: rev_cases) (auto simp: i(1))
  then have "base32_char (last i)" using base32_lower_chars [of bs] by (auto simp: list_all_iff)
  then have v: "32 < byte (last i)" "byte (last i) < 128" by (auto simp: class_defs byte_def)
  have "trimmed i" using v by (intro trimmed_visible) (auto simp: i(1) byte_def)
  moreover have "rune_count i = 37" using a(1) l by (simp add: rune_count_all_ascii i(1))
  moreover have "utf8_valid i" using a(1) by (rule utf8_valid_all_ascii)
  ultimately show ?thesis using a(2) by (simp add: validOpaqueID_def has_nul_def)
qed

lemma operation_format: "pat_ident capability_char 63 operationCreateRepository"
  by code_simp

lemma create_spec_fits:
  assumes "validateCreateRequest req" "validOpaqueID i" "minimumIdempotencyRetention \<le> retention" "truncate_us now \<noteq> 0" "length fp = 32"
  shows "create_spec_valid (create_spec retention now i fp req)" "idempotency_row_ok (idempotency_of (create_spec retention now i fp req))"
  using assms operation_format
  by (auto simp: create_spec_valid_def create_spec_def validateCreateRequest_def idempotency_row_ok_def idempotency_of_def
      apiMajorVersion_def minimumIdempotencyRetention_def validIdempotencyKey_def validOpaqueID_def chars_def)

lemma scope_create_spec:
  "idempotency_scope (idempotency_of (create_spec ret now i fp req)) =
     (crWorkspaceID req, crPrincipalID req, apiMajorVersion, operationCreateRepository, crIdempotencyKey req)"
  by (simp add: idempotency_scope_def idempotency_of_def create_spec_def)

lemma insert_repository_cases:
  "(case insert_once ok key r rows of Some (repos, Suc k) \<Rightarrow> f repos | _ \<Rightarrow> (db, Inl e)) = (db', Inr res) \<Longrightarrow>
     f (rows @ [r]) = (db', Inr res) \<and> key r \<notin> key ` set rows"
  by (auto simp: insert_once_def list_ex_iff split: if_splits)

lemma stmt_Inr: "stmt env w msg ps old k = (db', Inr v) \<Longrightarrow> k = (db', Inr v)"
  by (auto simp: stmt_def split: option.splits)

lemma commit_Inr: "commit env w msg ps old new v = (db', Inr x) \<Longrightarrow> db' = new \<and> x = v"
  by (auto simp: commit_def split: option.splits)

lemma store_created:
  assumes "store_CreateRepository sha env sp db = (db', Inr res)" "rrCreated res"
  shows "res = \<lparr>rrRepository = csRepository sp, rrCreated = True\<rparr>" "repoWorkspaceID (csRepository sp) \<in> set (cat_workspaces db)"
    "db' = db\<lparr>create_idempotency := create_idempotency db @ [idempotency_of sp], repositories := repositories db @ [csRepository sp]\<rparr>"
    "idempotency_scope (idempotency_of sp) \<notin> idempotency_scope ` set (create_idempotency db)"
    "repository_key (csRepository sp) \<notin> repository_key ` set (repositories db)"
proof -
  from assms(1) have w: "repoWorkspaceID (csRepository sp) \<in> set (cat_workspaces db)"
    by (auto simp: store_CreateRepository_def Let_def split: if_splits dest!: stmt_Inr)
  with assms obtain rows n where n: "insert_once idempotency_row_ok idempotency_scope (idempotency_of sp) (create_idempotency db) = Some (rows, n)" "n \<noteq> 0"
    and r: "(case insert_once repository_row_ok repository_key (csRepository sp) (repositories db) of
        Some (repos, Suc k) \<Rightarrow> commit env CatDB ''commit repository creation'' [] db
          (db\<lparr>create_idempotency := rows, repositories := repos\<rparr>) \<lparr>rrRepository = csRepository sp, rrCreated = True\<rparr>
      | _ \<Rightarrow> (db, Inl (CatDB ''insert repository'' (violation env ''insert repository'')))) = (db', Inr res)"
    unfolding store_CreateRepository_def Let_def
    by (auto split: option.split_asm prod.split_asm if_split_asm dest!: stmt_Inr commit_Inr)
  from n have i: "rows = create_idempotency db @ [idempotency_of sp]" "idempotency_scope (idempotency_of sp) \<notin> idempotency_scope ` set (create_idempotency db)"
    by (auto elim: insert_once_cases)
  from insert_repository_cases [OF r] have c: "commit env CatDB ''commit repository creation'' [] db
      (db\<lparr>create_idempotency := rows, repositories := repositories db @ [csRepository sp]\<rparr>) \<lparr>rrRepository = csRepository sp, rrCreated = True\<rparr> = (db', Inr res)"
    and k: "repository_key (csRepository sp) \<notin> repository_key ` set (repositories db)" by blast+
  from commit_Inr [OF c] i k w show "res = \<lparr>rrRepository = csRepository sp, rrCreated = True\<rparr>" "repoWorkspaceID (csRepository sp) \<in> set (cat_workspaces db)"
    "db' = db\<lparr>create_idempotency := create_idempotency db @ [idempotency_of sp], repositories := repositories db @ [csRepository sp]\<rparr>"
    "idempotency_scope (idempotency_of sp) \<notin> idempotency_scope ` set (create_idempotency db)"
    "repository_key (csRepository sp) \<notin> repository_key ` set (repositories db)" by simp_all
qed

lemma store_replay:
  assumes "create_spec_valid sp" "idempotency_row_ok (idempotency_of sp)" "calm env" "repoWorkspaceID (csRepository sp) \<in> set (cat_workspaces db)"
    and "\<not> db_locked env (''open-aspm-repository-idempotency:'' @ createLockKey sha sp)"
    and "sql_row (\<lambda>r. idempotency_scope r = idempotency_scope (idempotency_of sp)) (create_idempotency db) = Some row"
    and "sql_row (\<lambda>r. repository_key r = (ik_workspace row, ik_repository row)) (repositories db) = Some repo"
  shows "store_CreateRepository sha env sp db =
    (db, if ik_fingerprint row = csRequestFingerprint sp then Inr \<lparr>rrRepository = repo, rrCreated = False\<rparr> else Inl ErrIdempotencyConflict)"
proof -
  have "list_ex (\<lambda>x. idempotency_scope x = idempotency_scope (idempotency_of sp)) (create_idempotency db)"
    using sql_row_Some [OF assms(6)] unfolding list_ex_iff by blast
  then have "insert_once idempotency_row_ok idempotency_scope (idempotency_of sp) (create_idempotency db) = Some (create_idempotency db, 0)"
    using assms(2) by (simp add: insert_once_def)
  then show ?thesis
    unfolding store_CreateRepository_def Let_def using assms(1,3-7) by (simp add: selectRepositoryReplay_def)
qed

lemma linked_row:
  assumes "LinkRepository auth env now rnd req db = (db', Inr res)"
  shows "rsRelationship res \<in> set (relationships db') \<and>
    active_link (lrWorkspaceID req) (lrApplicationID req) (lrRepositoryID req) (rsRelationship res) \<and> validateLinkRequest req"
proof -
  from assms obtain i where i: "validateLinkRequest req" "store_LinkRepository env \<lparr>relID = i, relWorkspaceID = lrWorkspaceID req,
      relApplicationID = lrApplicationID req, relRepositoryID = lrRepositoryID req, relLinkedBy = lrPrincipalID req,
      relValidFrom = truncate_us now, relValidUntil = None\<rparr> db = (db', Inr res)"
    by (auto simp: LinkRepository_def split: option.splits if_splits)
  from i(2) have "rsRelationship res \<in> set (relationships db') \<and>
      active_link (lrWorkspaceID req) (lrApplicationID req) (lrRepositoryID req) (rsRelationship res)"
    by (auto simp: store_LinkRepository_def stmt_def commit_def active_link_def dest: sql_row_Some split: option.splits if_splits)
  with i(1) show ?thesis by blast
qed

section \<open>Properties\<close>

definition demo_create :: "string \<Rightarrow> CreateRepositoryRequest" where
  "demo_create name = \<lparr>crPrincipalID = ''prn1'', crWorkspaceID = ''ws1'', crIdempotencyKey = ''k1'', crDisplayName = name\<rparr>"

definition demo_catalog :: catalog_db where
  "demo_catalog = \<lparr>cat_workspaces = [''ws1''], cat_applications = [(''ws1'', ''app1'')],
     repositories = [\<lparr>repoID = ''repo1'', repoWorkspaceID = ''ws1'', repoDisplayName = ''r'', repoCreatedBy = ''prn1'', repoCreatedAt = 1, repoUpdatedAt = 1\<rparr>],
     relationships = [], create_idempotency = []\<rparr>"

text \<open>C35.  Creating a repository is idempotent per key: after a request created a repository, and whatever
  catalog calls follow, repeating the request returns that repository and a request for another name under the
  same key is refused as a conflict; neither changes the catalog.\<close>

theorem repository_created_once:
  assumes "CreateRepository sha auth ret env now rnd req db = (db1, Inr res)" "rrCreated res" "(catalog_step sha)\<^sup>*\<^sup>* db1 db2"
    and "validateCreateRequest req'" "crPrincipalID req' = crPrincipalID req" "crWorkspaceID req' = crWorkspaceID req"
      "crIdempotencyKey req' = crIdempotencyKey req"
    and "auth' (crPrincipalID req') (crWorkspaceID req') [] ''catalog:repositories:create'' = None"
    and "minimumIdempotencyRetention \<le> ret'" "truncate_us now' \<noteq> 0" "calm env'" "\<forall>k. \<not> db_locked env' k" "\<forall>x. length (sha x) = 32"
  shows "CreateRepository sha auth' ret' env' now' (Some bs) req' db2 = (db2,
    if fingerprintCreate sha req' = fingerprintCreate sha req then Inr \<lparr>rrRepository = rrRepository res, rrCreated = False\<rparr>
    else Inl ErrIdempotencyConflict)"
proof -
  from CreateRepository_store [OF assms(1)] obtain i fp where
    fp: "fingerprintCreate sha req = Some fp" and st: "store_CreateRepository sha env (create_spec ret now i fp req) db = (db1, Inr res)" by auto
  let ?sp = "create_spec ret now i fp req"
  note c = store_created [OF st assms(2)]
  obtain fp' where fp': "fingerprintCreate sha req' = Some fp'" "length fp' = 32" using assms(4,13) by (auto simp: fingerprintCreate_def)
  obtain i' where i': "randomIdentifier ''repo_'' (Some bs) = Some i'" by (simp add: randomIdentifier_def)
  let ?sp' = "create_spec ret' now' i' fp' req'"
  note fits = create_spec_fits [OF assms(4) random_id_valid [OF i'] assms(9,10) fp'(2)]
  have sc: "idempotency_scope (idempotency_of ?sp') = idempotency_scope (idempotency_of ?sp)" by (simp add: scope_create_spec assms(5-7))
  have "sql_row (\<lambda>r. idempotency_scope r = idempotency_scope (idempotency_of ?sp)) (create_idempotency db1) = Some (idempotency_of ?sp)"
    using sql_row_fresh [OF c(4)] c(3) by simp
  from idempotency_table.lookup_stable [OF assms(3) this]
  have l1: "sql_row (\<lambda>r. idempotency_scope r = idempotency_scope (idempotency_of ?sp')) (create_idempotency db2) = Some (idempotency_of ?sp)"
    by (simp add: sc)
  have "sql_row (\<lambda>r. repository_key r = repository_key (csRepository ?sp)) (repositories db1) = Some (csRepository ?sp)"
    using sql_row_fresh [OF c(5)] c(3) by simp
  from repository_table.lookup_stable [OF assms(3) this]
  have l2: "sql_row (\<lambda>r. repository_key r = (ik_workspace (idempotency_of ?sp), ik_repository (idempotency_of ?sp))) (repositories db2) = Some (csRepository ?sp)"
    by (simp add: repository_key_def idempotency_of_def)
  have w: "repoWorkspaceID (csRepository ?sp') \<in> set (cat_workspaces db2)"
    using c(2,3) catalog_steps_workspaces [OF assms(3)] assms(6) by (simp add: create_spec_def)
  have f: "ik_fingerprint (idempotency_of ?sp) = fp" "csRequestFingerprint ?sp' = fp'" by (simp_all add: idempotency_of_def create_spec_def)
  have "store_CreateRepository sha env' ?sp' db2 =
      (db2, if fp = fp' then Inr \<lparr>rrRepository = csRepository ?sp, rrCreated = False\<rparr> else Inl ErrIdempotencyConflict)"
    using store_replay [OF fits assms(11) w _ l1 l2] assms(12) by (simp add: f)
  then show ?thesis
    using assms(4,8) fp fp' i' c(1) by (auto simp: CreateRepository_def)
qed

lemma demo_display: "validOpaqueID ''prn1''" "validOpaqueID ''ws1''" "validIdempotencyKey ''k1''" "validDisplayName ''svc''"
  "validDisplayName ''other''" "rune_count ''svc'' = 3" "rune_count ''prn1'' = 4"
  by code_simp+

lemma demo_create_result:
  "\<exists>db1 res. CreateRepository demo_sha (\<lambda>_ _ _ _. None) (24 * hour) (quiet_env 0) 5000 (Some []) (demo_create ''svc'') demo_catalog = (db1, Inr res) \<and> rrCreated res"
proof -
  have v: "validateCreateRequest (demo_create ''svc'')" by (simp add: validateCreateRequest_def demo_create_def demo_display)
  obtain i where i: "randomIdentifier ''repo_'' (Some []) = Some i" by (simp add: randomIdentifier_def)
  note fits = create_spec_fits [OF v random_id_valid [OF i], of "24 * hour" 5000 "demo_sha (marshal (JObj [(''display_name'', JStr ''svc'')]))"]
  have k: "\<not> list_ex (\<lambda>x. repository_key x = repository_key (csRepository (create_spec (24 * hour) 5000 i fp (demo_create ''svc''))))
      (repositories demo_catalog)" for fp
    using i by (auto simp: create_spec_def repository_key_def demo_catalog_def randomIdentifier_def random_text_def demo_create_def)
  have o: "repository_row_ok (csRepository (create_spec (24 * hour) 5000 i fp (demo_create ''svc'')))" for fp
    using random_id_valid [OF i] demo_display(6,7) by (simp add: create_spec_def repository_row_ok_def demo_create_def chars_def validOpaqueID_def)
  have f: "fingerprintCreate demo_sha (demo_create ''svc'') = Some (demo_sha (marshal (JObj [(''display_name'', JStr ''svc'')])))"
    using v by (simp add: fingerprintCreate_def demo_create_def)
  have w: "repoWorkspaceID (csRepository (create_spec (24 * hour) 5000 i fp (demo_create ''svc''))) \<in> set (cat_workspaces demo_catalog)" "create_idempotency demo_catalog = []" for fp
    by (simp_all add: create_spec_def demo_create_def demo_catalog_def)
  show ?thesis
    using fits v by (simp add: CreateRepository_def f i store_CreateRepository_def Let_def w k o insert_once_def minimumIdempotencyRetention_def
        truncate_us_def demo_sha_def)
qed

theorem repository_created_once_witness:
  "\<exists>db1 repo. CreateRepository demo_sha (\<lambda>_ _ _ _. None) (24 * hour) (quiet_env 9) 7000 (Some []) (demo_create ''svc'') db1 =
     (db1, Inr \<lparr>rrRepository = repo, rrCreated = False\<rparr>)"
proof -
  obtain db1 res where c: "CreateRepository demo_sha (\<lambda>_ _ _ _. None) (24 * hour) (quiet_env 0) 5000 (Some []) (demo_create ''svc'') demo_catalog = (db1, Inr res)" "rrCreated res"
    using demo_create_result by blast
  have v: "validateCreateRequest (demo_create ''svc'')" by (simp add: validateCreateRequest_def demo_create_def demo_display)
  show ?thesis
    using repository_created_once [OF c rtranclp.rtrancl_refl v refl refl refl, of "\<lambda>_ _ _ _. None" "24 * hour" 7000 "quiet_env 9" "[]"]
    by (auto simp: minimumIdempotencyRetention_def truncate_us_def demo_sha_def)
qed

text \<open>C36.  A linked repository resolves: after a successful link, and whatever catalog calls follow, the
  target resolves to exactly the relationship the link returned once its validity has begun.\<close>

theorem link_resolves:
  assumes "LinkRepository auth env now rnd req db = (db1, Inr res)" "links_unique db" "(catalog_step sha)\<^sup>*\<^sup>* db1 db2"
    and "relValidFrom (rsRelationship res) \<le> db_clock env' 0" "calm env'"
  shows "\<exists>t. ResolveActiveRepositoryTarget env' (lrWorkspaceID req) (lrApplicationID req) (lrRepositoryID req) db2 = Inr t \<and>
    rtRelationshipID t = relID (rsRelationship res) \<and> rtValidFrom t = relValidFrom (rsRelationship res)"
proof -
  let ?P = "active_link (lrWorkspaceID req) (lrApplicationID req) (lrRepositoryID req)"
  from linked_row [OF assms(1)] have r: "rsRelationship res \<in> set (relationships db1)" "?P (rsRelationship res)" "validateLinkRequest req" by blast+
  have u: "links_unique db2"
    using catalog_steps_links_unique [OF assms(3)] catalog_step_links_unique [OF catalog_step.link [OF assms(1)] assms(2)] by blast
  have m: "rsRelationship res \<in> set (relationships db2)" using r(1) catalog_steps_links [OF assms(3)] by blast
  have "sql_row (\<lambda>x. ?P x \<and> relValidFrom x \<le> db_clock env' 0) (relationships db2) = Some (rsRelationship res)"
    using m r(2) assms(4) links_uniqueD [OF u] by (intro sql_row_unique) blast+
  with r(3) assms(5) show ?thesis
    by (simp add: ResolveActiveRepositoryTarget_def resolveActiveRepositoryTarget_def validateLinkRequest_def stmt_fault_def calm_def)
qed

definition demo_link :: LinkRepositoryRequest where
  "demo_link = \<lparr>lrPrincipalID = ''prn1'', lrWorkspaceID = ''ws1'', lrApplicationID = ''app1'', lrRepositoryID = ''repo1''\<rparr>"

lemma demo_link_result:
  "\<exists>db1 res. LinkRepository (\<lambda>_ _ _ _. None) (quiet_env 0) 5000 (Some []) demo_link demo_catalog = (db1, Inr res) \<and> relValidFrom (rsRelationship res) = 5000"
proof -
  have v: "validOpaqueID ''prn1''" "validOpaqueID ''ws1''" "validOpaqueID ''app1''" "validOpaqueID ''repo1''" by code_simp+
  obtain i where i: "randomIdentifier ''rel_'' (Some []) = Some i" by (simp add: randomIdentifier_def)
  then have "i = random_text ''rel_'' (replicate 20 nul_byte)" by (simp add: randomIdentifier_def)
  moreover have "validOpaqueID (random_text ''rel_'' (replicate 20 nul_byte))" by code_simp
  ultimately have "validOpaqueID i" by simp
  then show ?thesis
    using v by (auto simp: LinkRepository_def i demo_link_def validateLinkRequest_def store_LinkRepository_def demo_catalog_def repository_key_def
        relationship_row_ok_def sql_row_def truncate_us_def chars_def validOpaqueID_def)
qed

theorem link_resolves_witness:
  "\<exists>db1 t. ResolveActiveRepositoryTarget (quiet_env 6000) ''ws1'' ''app1'' ''repo1'' db1 = Inr t \<and> rtValidFrom t = 5000"
proof -
  obtain db1 res where l: "LinkRepository (\<lambda>_ _ _ _. None) (quiet_env 0) 5000 (Some []) demo_link demo_catalog = (db1, Inr res)"
    "relValidFrom (rsRelationship res) = 5000" using demo_link_result by blast
  have u: "links_unique demo_catalog" by (simp add: links_unique_def demo_catalog_def)
  show ?thesis
    using link_resolves [OF l(1) u rtranclp.rtrancl_refl [of "catalog_step id"], of "quiet_env 6000"] l(2) by (auto simp: demo_link_def)
qed

end
