(* ===== verification/Sql_Tx.thy ===== *)
theory Sql_Tx
  imports Sql_Store
begin

text \<open>
  Transactions of several statements.  A statement maps the state of the transaction to an error or to
  the next state; \<open>and_then\<close> runs the next one on success.  \<open>transact\<close> is \<open>BEGIN\<close>, the statements and
  \<open>COMMIT\<close>: an error rolls back to the state before \<open>BEGIN\<close>, and the value returned after the commit
  may itself be an error.
\<close>

definition and_then :: "'e + 'a \<Rightarrow> ('a \<Rightarrow> 'e + 'b) \<Rightarrow> 'e + 'b" where
  "and_then x f = (case x of Inl e \<Rightarrow> Inl e | Inr a \<Rightarrow> f a)"

text \<open>One statement with its text parameters: \<open>None\<close> is a state a constraint rejects.\<close>

definition exec :: "(string \<Rightarrow> cause \<Rightarrow> 'e) \<Rightarrow> db_env \<Rightarrow> string \<Rightarrow> string list \<Rightarrow> 'd option \<Rightarrow> 'e + 'd" where
  "exec wrap env msg ps new =
     (case stmt_fault env msg ps of
        Some c \<Rightarrow> Inl (wrap msg c)
      | None \<Rightarrow> (case new of None \<Rightarrow> Inl (wrap msg (violation env msg)) | Some d \<Rightarrow> Inr d))"

definition transact ::
  "(string \<Rightarrow> cause \<Rightarrow> 'e) \<Rightarrow> db_env \<Rightarrow> string \<Rightarrow> 'd \<Rightarrow> 'e + (string \<times> 'd \<times> ('e + 'a)) \<Rightarrow> 'd \<times> ('e + 'a)" where
  "transact wrap env msg db body =
     stmt env wrap msg [] db
     (case body of
        Inl e \<Rightarrow> (db, Inl e)
      | Inr (msg2, new, r) \<Rightarrow>
          (case commit env wrap msg2 [] db new () of
             (db', Inl e) \<Rightarrow> (db', Inl e)
           | (db', Inr _) \<Rightarrow> (db', r)))"

text \<open>An insert under foreign keys (\<open>fk\<close>), row checks and unique keys.\<close>

definition insert_row :: "bool \<Rightarrow> ('r \<Rightarrow> bool) \<Rightarrow> ('r \<Rightarrow> string list) list \<Rightarrow> 'r \<Rightarrow> 'r list \<Rightarrow> 'r list option" where
  "insert_row fk ok keys r rows =
     (if fk \<and> ok r \<and> list_all (\<lambda>k. k r \<notin> k ` set rows) keys then Some (rows @ [r]) else None)"

text \<open>\<open>INSERT ... ON CONFLICT (key) DO NOTHING\<close> with the number of rows inserted.\<close>

definition insert_new :: "bool \<Rightarrow> ('r \<Rightarrow> bool) \<Rightarrow> ('r \<Rightarrow> string list) \<Rightarrow> 'r \<Rightarrow> 'r list \<Rightarrow> ('r list \<times> nat) option" where
  "insert_new fk ok key r rows =
     (if \<not> ok r then None
      else if key r \<in> key ` set rows then Some (rows, 0)
      else if fk then Some (rows @ [r], 1) else None)"

text \<open>\<open>UPDATE\<close> under the row checks.\<close>

definition update_rows :: "('r \<Rightarrow> bool) \<Rightarrow> ('r \<Rightarrow> bool) \<Rightarrow> ('r \<Rightarrow> 'r) \<Rightarrow> 'r list \<Rightarrow> 'r list option" where
  "update_rows ok P f rows =
     (if list_all (\<lambda>r. P r \<longrightarrow> ok (f r)) rows then Some (sql_update P f rows) else None)"

section \<open>What success means\<close>

lemma and_then_Inr: "and_then x f = Inr b \<longleftrightarrow> (\<exists>a. x = Inr a \<and> f a = Inr b)"
  by (auto simp: and_then_def split: sum.splits)

lemma exec_Inr: "exec wrap env msg ps new = Inr d \<longleftrightarrow> stmt_fault env msg ps = None \<and> new = Some d"
  by (auto simp: exec_def split: option.splits)

lemma exec_calm [simp]: "calm env \<Longrightarrow> list_all db_text ps \<Longrightarrow> exec wrap env msg ps (Some d) = Inr d"
  by (simp add: exec_def stmt_fault_def calm_def)

lemma and_then_Inr_simp [simp]: "and_then (Inr a) f = f a"
  by (simp add: and_then_def)

lemma insert_row_Some:
  "insert_row fk ok keys r rows = Some rows' \<longleftrightarrow>
     fk \<and> ok r \<and> list_all (\<lambda>k. k r \<notin> k ` set rows) keys \<and> rows' = rows @ [r]"
  by (auto simp: insert_row_def)

lemma update_rows_Some:
  "update_rows ok P f rows = Some rows' \<longleftrightarrow>
     list_all (\<lambda>r. P r \<longrightarrow> ok (f r)) rows \<and> rows' = sql_update P f rows"
  by (auto simp: update_rows_def)

lemma insert_new_cases:
  assumes "insert_new fk ok key r rows = Some (rows', n)"
  obtains (present) "rows' = rows" "n = 0" "ok r" "key r \<in> key ` set rows"
  | (fresh) "rows' = rows @ [r]" "n = 1" "ok r" "fk" "key r \<notin> key ` set rows"
  using assms by (auto simp: insert_new_def split: if_splits)

lemma transact_cases:
  assumes "transact wrap env msg db body = (db', res)"
  obtains (rolled_back) e where "db' = db" "res = Inl e"
  | (committed) msg2 r where "body = Inr (msg2, db', r)" "res = r"
  | (unconfirmed) msg2 r c where "body = Inr (msg2, db', r)" "res = Inl (wrap msg2 c)"
  using assms by (auto simp: transact_def stmt_def commit_def split: option.splits sum.splits if_splits)

lemma transact_db:
  assumes "transact wrap env msg db body = (db', res)"
  shows "db' = db \<or> (\<exists>msg2 r. body = Inr (msg2, db', r))"
  using assms by (cases rule: transact_cases) auto

lemma transact_Inr:
  assumes "transact wrap env msg db body = (db', Inr v)"
  shows "\<exists>msg2. body = Inr (msg2, db', Inr v)"
  using assms by (auto simp: transact_def stmt_def commit_def split: option.splits sum.splits if_splits)

lemma transact_calm [simp]:
  "calm env \<Longrightarrow> transact wrap env msg db (Inr (msg2, new, r)) = (new, r)"
  "calm env \<Longrightarrow> transact wrap env msg db (Inl e) = (db, Inl e)"
  by (simp_all add: transact_def)

section \<open>Rows after a statement\<close>

lemma sql_row_update:
  "(\<And>r. P (f r) = P r) \<Longrightarrow> sql_row P (sql_update Q f rs) = map_option (\<lambda>r. if Q r then f r else r) (sql_row P rs)"
  by (induction rs) (auto simp: sql_row_def sql_update_def)

lemma sql_row_append: "sql_row P (rs @ ss) = (case sql_row P rs of None \<Rightarrow> sql_row P ss | Some r \<Rightarrow> Some r)"
  by (induction rs) (auto simp: sql_row_def)

lemma sql_row_single: "sql_row P [r] = (if P r then Some r else None)"
  by (simp add: sql_row_def)

lemma sql_row_key:
  "distinct (map k rs) \<Longrightarrow> r \<in> set rs \<Longrightarrow> k r = x \<Longrightarrow> sql_row (\<lambda>s. k s = x) rs = Some r"
  by (rule sql_row_unique) (auto dest: distinct_key_unique)

end
