(* ===== verification/Bootstrap.thy ===== *)
theory Bootstrap
  imports Sql_Tx Identity
begin

text \<open>
  Operator bootstrap (\<open>internal/bootstrap\<close>) with the writers it delegates to: \<open>internal/identity\<close>,
  \<open>internal/tenancy\<close> and \<open>catalog.CreateBootstrapApplication\<close>, over the tables of migrations 00012 and
  00013.  The writers run inside one serializable transaction, so each is a function from the state of
  the transaction to an error or the next state, and an error rolls back to the state before \<open>BEGIN\<close>.
  The clocks, the random source, HMAC-SHA-256 and database faults are parameters.
\<close>

section \<open>State and statements\<close>

record installation_row =
  in_id :: string
  in_workspace :: string
  in_application :: string
  in_principal :: string
  in_role :: string
  in_created_at :: gotime

record boot_db =
  workspaces :: "string list"
  identity :: identity_db
  installations :: "installation_row list"

datatype boot_error =
    BootInvalid | ErrAlreadyInitialized | ErrNotInitialized | ErrNotEmpty | IdentityInvalid | TenancyInvalid
  | CatalogInvalid | BootRandom | BootToken auth_error | BootDB string cause

definition in_identity :: "(identity_db \<Rightarrow> identity_db option) \<Rightarrow> boot_db \<Rightarrow> boot_db option" where
  "in_identity f d = map_option (\<lambda>i. d\<lparr>identity := i\<rparr>) (f (identity d))"

section \<open>Identity writers\<close>

record BootstrapPrincipal =
  bpPrincipalID :: string
  bpWorkspaceID :: string
  bpDisplayName :: string
  bpCreatedAt :: gotime

record BootstrapToken =
  btID :: string
  btPrincipalID :: string
  btWorkspaceID :: string
  btPrefix :: string
  btVerifier :: string
  btVerifierKeyID :: string
  btCapabilities :: "string list"
  btCreatedAt :: gotime
  btExpiresAt :: gotime

definition valid_display_name :: "string \<Rightarrow> bool" where
  "valid_display_name v \<longleftrightarrow> validText v 1 255 \<and> trimmed v"

definition valid_principal :: "BootstrapPrincipal \<Rightarrow> bool" where
  "valid_principal p \<longleftrightarrow> validOpaqueID (bpPrincipalID p) \<and> validOpaqueID (bpWorkspaceID p) \<and>
     valid_display_name (bpDisplayName p) \<and> bpCreatedAt p \<noteq> 0"

fun capabilities_valid :: "string list \<Rightarrow> string list \<Rightarrow> bool" where
  "capabilities_valid seen [] = True"
| "capabilities_valid seen (c # cs) = (validCapability c \<and> c \<notin> set seen \<and> capabilities_valid (c # seen) cs)"

definition validateToken :: "BootstrapToken \<Rightarrow> bool" where
  "validateToken t \<longleftrightarrow> validOpaqueID (btID t) \<and> validOpaqueID (btPrincipalID t) \<and> validOpaqueID (btWorkspaceID t) \<and>
     prefix_ok (btPrefix t) \<and> key_id_ok (btVerifierKeyID t) \<and> btCreatedAt t \<noteq> 0 \<and> btCreatedAt t < btExpiresAt t \<and>
     btCapabilities t \<noteq> [] \<and> capabilities_valid [] (btCapabilities t)"

definition CreateBootstrapPrincipal :: "db_env \<Rightarrow> BootstrapPrincipal \<Rightarrow> boot_db \<Rightarrow> boot_error + boot_db" where
  "CreateBootstrapPrincipal env p d =
     (if \<not> valid_principal p then Inl IdentityInvalid
      else exec BootDB env ''insert bootstrap principal'' []
        (in_identity (\<lambda>i. map_option (\<lambda>rows. i\<lparr>principals := rows\<rparr>)
          (insert_row True principal_row_ok [\<lambda>r. [p_id r]]
            \<lparr>p_id = bpPrincipalID p, p_kind = ''service_account'', p_state = ''active'',
             p_created_at = bpCreatedAt p, p_updated_at = bpCreatedAt p\<rparr> (principals i))) d))"

definition membership_known :: "string \<Rightarrow> string \<Rightarrow> identity_db \<Rightarrow> bool" where
  "membership_known ws prn i \<longleftrightarrow> (ws, prn) \<in> (\<lambda>m. (m_workspace m, m_principal m)) ` set (memberships i)"

definition CreateBootstrapServiceAccount :: "db_env \<Rightarrow> BootstrapPrincipal \<Rightarrow> boot_db \<Rightarrow> boot_error + boot_db" where
  "CreateBootstrapServiceAccount env p d =
     (if \<not> valid_principal p then Inl IdentityInvalid
      else exec BootDB env ''insert bootstrap service account'' []
        (in_identity (\<lambda>i. map_option (\<lambda>rows. i\<lparr>service_accounts := rows\<rparr>)
          (insert_row (membership_known (bpWorkspaceID p) (bpPrincipalID p) i) service_account_row_ok [\<lambda>r. [sa_principal r]]
            \<lparr>sa_workspace = bpWorkspaceID p, sa_principal = bpPrincipalID p, sa_display_name = bpDisplayName p,
             sa_owner = None, sa_expires_at = None, sa_created_at = bpCreatedAt p\<rparr> (service_accounts i))) d))"

text \<open>The capability loops: one insert per capability.\<close>

primrec insert_each :: "db_env \<Rightarrow> string \<Rightarrow> (string \<Rightarrow> boot_db \<Rightarrow> boot_db option) \<Rightarrow> string list \<Rightarrow> boot_db \<Rightarrow> boot_error + boot_db" where
  "insert_each env msg ins [] d = Inr d"
| "insert_each env msg ins (c # cs) d = and_then (exec BootDB env msg [] (ins c d)) (insert_each env msg ins cs)"

definition token_capability_insert :: "string \<Rightarrow> string \<Rightarrow> string \<Rightarrow> boot_db \<Rightarrow> boot_db option" where
  "token_capability_insert ws tok c =
     in_identity (\<lambda>i. map_option (\<lambda>rows. i\<lparr>token_capabilities := rows\<rparr>)
       (insert_row ((ws, tok) \<in> (\<lambda>t. (t_workspace t, t_id t)) ` set (api_tokens i)) token_capability_row_ok
         [\<lambda>r. [tc_workspace r, tc_token r, tc_capability r]]
         \<lparr>tc_workspace = ws, tc_token = tok, tc_capability = c\<rparr> (token_capabilities i)))"

text \<open>The stored expiry has the precision of \<open>timestamptz\<close>.\<close>

definition token_row :: "BootstrapToken \<Rightarrow> api_token_row" where
  "token_row t =
     \<lparr>t_workspace = btWorkspaceID t, t_id = btID t, t_principal = btPrincipalID t, t_prefix = btPrefix t,
      t_verifier = btVerifier t, t_verifier_key = btVerifierKeyID t, t_scope_mode = ''workspace'',
      t_created_at = btCreatedAt t, t_expires_at = truncate_us (btExpiresAt t), t_last_used_at = None, t_revoked_at = None\<rparr>"

definition CreateBootstrapToken :: "db_env \<Rightarrow> BootstrapToken \<Rightarrow> boot_db \<Rightarrow> boot_error + boot_db" where
  "CreateBootstrapToken env t d =
     (if \<not> validateToken t then Inl IdentityInvalid
      else and_then
        (exec BootDB env ''insert bootstrap API token'' []
          (in_identity (\<lambda>i. map_option (\<lambda>rows. i\<lparr>api_tokens := rows\<rparr>)
            (insert_row (membership_known (btWorkspaceID t) (btPrincipalID t) i) api_token_row_ok
              [\<lambda>r. [t_workspace r, t_id r], \<lambda>r. [t_prefix r]] (token_row t) (api_tokens i))) d))
        (insert_each env ''insert bootstrap token capability'' (token_capability_insert (btWorkspaceID t) (btID t))
          (btCapabilities t)))"

definition live_token :: "string \<Rightarrow> string \<Rightarrow> api_token_row \<Rightarrow> bool" where
  "live_token ws prn r \<longleftrightarrow> t_workspace r = ws \<and> t_principal r = prn \<and> t_revoked_at r = None"

definition revoke :: "string \<Rightarrow> string \<Rightarrow> gotime \<Rightarrow> api_token_row list \<Rightarrow> api_token_row list option" where
  "revoke ws prn at rows =
     (if list_all (\<lambda>r. live_token ws prn r \<longrightarrow> t_created_at r \<le> at) rows
      then Some (sql_update (live_token ws prn) (\<lambda>r. r\<lparr>t_revoked_at := Some at\<rparr>) rows) else None)"

definition RotateBootstrapToken :: "db_env \<Rightarrow> BootstrapToken \<Rightarrow> boot_db \<Rightarrow> boot_error + boot_db" where
  "RotateBootstrapToken env t d =
     (if \<not> validateToken t then Inl IdentityInvalid
      else and_then
        (exec BootDB env ''revoke previous bootstrap API tokens'' []
          (in_identity (\<lambda>i. map_option (\<lambda>rows. i\<lparr>api_tokens := rows\<rparr>)
            (revoke (btWorkspaceID t) (btPrincipalID t) (btCreatedAt t) (api_tokens i))) d))
        (CreateBootstrapToken env t))"

section \<open>Tenancy and catalog writers\<close>

record BootstrapWorkspace =
  bwWorkspaceID :: string
  bwPrincipalID :: string
  bwRoleID :: string
  bwBindingID :: string
  bwRoleName :: string
  bwCapabilities :: "string list"
  bwCreatedAt :: gotime

definition valid_role_name :: "string \<Rightarrow> bool" where
  "valid_role_name v \<longleftrightarrow> validText v 1 128 \<and> trimmed v"

definition validateBootstrap :: "BootstrapWorkspace \<Rightarrow> bool" where
  "validateBootstrap s \<longleftrightarrow> validOpaqueID (bwWorkspaceID s) \<and> validOpaqueID (bwPrincipalID s) \<and>
     validOpaqueID (bwRoleID s) \<and> validOpaqueID (bwBindingID s) \<and> valid_role_name (bwRoleName s) \<and> bwCreatedAt s \<noteq> 0 \<and>
     bwCapabilities s \<noteq> [] \<and> capabilities_valid [] (bwCapabilities s)"

definition role_known :: "string \<Rightarrow> string \<Rightarrow> identity_db \<Rightarrow> bool" where
  "role_known ws role i \<longleftrightarrow> (ws, role) \<in> (\<lambda>r. (ro_workspace r, ro_id r)) ` set (roles i)"

definition role_capability_insert :: "string \<Rightarrow> string \<Rightarrow> string \<Rightarrow> boot_db \<Rightarrow> boot_db option" where
  "role_capability_insert ws role c =
     in_identity (\<lambda>i. map_option (\<lambda>rows. i\<lparr>role_capabilities := rows\<rparr>)
       (insert_row (role_known ws role i) role_capability_row_ok [\<lambda>r. [rc_workspace r, rc_role r, rc_capability r]]
         \<lparr>rc_workspace = ws, rc_role = role, rc_capability = c\<rparr> (role_capabilities i)))"

definition active_binding :: "string \<Rightarrow> string \<Rightarrow> string \<Rightarrow> role_binding_row \<Rightarrow> bool" where
  "active_binding ws prn role b \<longleftrightarrow> rb_workspace b = ws \<and> rb_principal b = prn \<and> rb_role b = role \<and>
     rb_scope_type b = ''workspace'' \<and> rb_valid_until b = None"

definition CreateBootstrapWorkspace :: "db_env \<Rightarrow> BootstrapWorkspace \<Rightarrow> boot_db \<Rightarrow> boot_error + boot_db" where
  "CreateBootstrapWorkspace env s d =
     (let ws = bwWorkspaceID s; prn = bwPrincipalID s; role = bwRoleID s in
      if \<not> validateBootstrap s then Inl TenancyInvalid
      else
        and_then (exec BootDB env ''insert bootstrap workspace'' []
          (map_option (\<lambda>rows. d\<lparr>workspaces := rows\<rparr>) (insert_row True (in_chars 3 128) [\<lambda>w. [w]] ws (workspaces d)))) (\<lambda>d.
        and_then (exec BootDB env ''insert bootstrap membership'' []
          (in_identity (\<lambda>i. map_option (\<lambda>rows. i\<lparr>memberships := rows\<rparr>)
            (insert_row (ws \<in> set (workspaces d) \<and> prn \<in> p_id ` set (principals i)) membership_row_ok
              [\<lambda>r. [m_workspace r, m_principal r]]
              \<lparr>m_workspace = ws, m_principal = prn, m_state = ''active'', m_valid_from = bwCreatedAt s, m_valid_until = None\<rparr>
              (memberships i))) d)) (\<lambda>d.
        and_then (exec BootDB env ''insert bootstrap role'' []
          (in_identity (\<lambda>i. map_option (\<lambda>rows. i\<lparr>roles := rows\<rparr>)
            (insert_row (ws \<in> set (workspaces d)) role_row_ok [\<lambda>r. [ro_workspace r, ro_id r], \<lambda>r. [ro_workspace r, ro_name r]]
              \<lparr>ro_workspace = ws, ro_id = role, ro_name = bwRoleName s, ro_created_at = bwCreatedAt s\<rparr> (roles i))) d)) (\<lambda>d.
        and_then (insert_each env ''insert bootstrap role capability'' (role_capability_insert ws role) (bwCapabilities s) d) (\<lambda>d.
        exec BootDB env ''insert bootstrap role binding'' []
          (in_identity (\<lambda>i. map_option (\<lambda>rows. i\<lparr>role_bindings := rows\<rparr>)
            (insert_row (membership_known ws prn i \<and> role_known ws role i \<and> \<not> list_ex (active_binding ws prn role) (role_bindings i))
              role_binding_row_ok [\<lambda>r. [rb_workspace r, rb_id r]]
              \<lparr>rb_workspace = ws, rb_id = bwBindingID s, rb_principal = prn, rb_role = role, rb_scope_type = ''workspace'',
               rb_application = None, rb_valid_from = bwCreatedAt s, rb_valid_until = None\<rparr> (role_bindings i))) d))))))"

definition CreateBootstrapApplication :: "db_env \<Rightarrow> string \<Rightarrow> string \<Rightarrow> gotime \<Rightarrow> boot_db \<Rightarrow> boot_error + boot_db" where
  "CreateBootstrapApplication env ws app createdAt d =
     (if \<not> validOpaqueID ws \<or> \<not> validOpaqueID app \<or> createdAt = 0 then Inl CatalogInvalid
      else exec BootDB env ''insert bootstrap application'' []
        (in_identity (\<lambda>i. map_option (\<lambda>rows. i\<lparr>applications := rows\<rparr>)
          (insert_row (ws \<in> set (workspaces d)) (\<lambda>a. in_chars 3 128 (snd a)) [\<lambda>a. [fst a, snd a]] (ws, app) (applications i))) d))"

section \<open>The store\<close>

record BootResult =
  resWorkspaceID :: string
  resApplicationID :: string
  resPrincipalID :: string
  resTokenID :: string
  resToken :: string
  resTokenExpires :: gotime

record installationSpec =
  isResult :: BootResult
  isRoleID :: string
  isBindingID :: string
  isTokenPrefix :: string
  isVerifier :: string
  isKeyID :: string
  isCreatedAt :: gotime
  isCapabilities :: "string list"

record rotationSpec =
  rsTokenID :: string
  rsToken :: string
  rsTokenPrefix :: string
  rsVerifier :: string
  rsKeyID :: string
  rsCreatedAt :: gotime
  rsTokenExpires :: gotime
  rsCapabilities :: "string list"

definition spec_token :: "installationSpec \<Rightarrow> BootstrapToken" where
  "spec_token s =
     \<lparr>btID = resTokenID (isResult s), btPrincipalID = resPrincipalID (isResult s), btWorkspaceID = resWorkspaceID (isResult s),
      btPrefix = isTokenPrefix s, btVerifier = isVerifier s, btVerifierKeyID = isKeyID s, btCapabilities = isCapabilities s,
      btCreatedAt = isCreatedAt s, btExpiresAt = resTokenExpires (isResult s)\<rparr>"

definition installation_insert :: "installationSpec \<Rightarrow> boot_db \<Rightarrow> boot_db option" where
  "installation_insert s d =
     (let r = isResult s in
      map_option (\<lambda>rows. d\<lparr>installations := rows\<rparr>)
       (insert_row (resWorkspaceID r \<in> set (workspaces d) \<and>
           (resWorkspaceID r, resApplicationID r) \<in> set (applications (identity d)) \<and>
           resPrincipalID r \<in> p_id ` set (principals (identity d)) \<and> role_known (resWorkspaceID r) (isRoleID s) (identity d))
         (\<lambda>x. in_id x = ''initial'') [\<lambda>x. [in_id x], \<lambda>x. [in_workspace x]]
         \<lparr>in_id = ''initial'', in_workspace = resWorkspaceID r, in_application = resApplicationID r,
          in_principal = resPrincipalID r, in_role = isRoleID s, in_created_at = isCreatedAt s\<rparr> (installations d)))"

text \<open>The writes of the transaction of \<open>PostgresStore.Initialize\<close>, in the order of the code.\<close>

definition install :: "db_env \<Rightarrow> installationSpec \<Rightarrow> boot_db \<Rightarrow> boot_error + boot_db" where
  "install env s d =
     (let r = isResult s;
          prn = \<lparr>bpPrincipalID = resPrincipalID r, bpWorkspaceID = resWorkspaceID r,
                 bpDisplayName = ''Initial operator'', bpCreatedAt = isCreatedAt s\<rparr>
      in and_then (CreateBootstrapPrincipal env prn d) (\<lambda>d.
         and_then (CreateBootstrapWorkspace env
             \<lparr>bwWorkspaceID = resWorkspaceID r, bwPrincipalID = resPrincipalID r, bwRoleID = isRoleID s, bwBindingID = isBindingID s,
              bwRoleName = ''Initial operator'', bwCapabilities = isCapabilities s, bwCreatedAt = isCreatedAt s\<rparr> d) (\<lambda>d.
         and_then (CreateBootstrapServiceAccount env prn d) (\<lambda>d.
         and_then (CreateBootstrapApplication env (resWorkspaceID r) (resApplicationID r) (isCreatedAt s) d) (\<lambda>d.
         and_then (CreateBootstrapToken env (spec_token s) d) (\<lambda>d.
         exec BootDB env ''record operator bootstrap'' [] (installation_insert s d)))))))"

definition store_Initialize :: "db_env \<Rightarrow> installationSpec \<Rightarrow> boot_db \<Rightarrow> boot_db \<times> (boot_error + unit)" where
  "store_Initialize env s db =
     stmt env BootDB ''begin operator bootstrap'' [] db
     (stmt env BootDB ''inspect bootstrap state'' [] db
     (if list_ex (\<lambda>x. in_id x = ''initial'') (installations db) then (db, Inl ErrAlreadyInitialized)
      else if workspaces db \<noteq> [] \<or> principals (identity db) \<noteq> [] \<or> applications (identity db) \<noteq> [] then (db, Inl ErrNotEmpty)
      else
        (case install env s db of
           Inl e \<Rightarrow> (db, Inl e)
         | Inr d \<Rightarrow> commit env BootDB ''commit operator bootstrap'' [] db d ())))"

text \<open>\<open>clock_timestamp()\<close> is never null, so the branch for a missing time cannot be taken.\<close>

definition store_RotateToken :: "db_env \<Rightarrow> rotationSpec \<Rightarrow> boot_db \<Rightarrow> boot_db \<times> (boot_error + BootResult)" where
  "store_RotateToken env s db =
     stmt env BootDB ''begin bootstrap token rotation'' [] db
     (stmt env BootDB ''read operator bootstrap'' [] db
     (case sql_row (\<lambda>x. in_id x = ''initial'') (installations db) of
        None \<Rightarrow> (db, Inl ErrNotInitialized)
      | Some x \<Rightarrow>
          (let effectiveAt = db_clock env 0;
               expires = effectiveAt + time_sub (rsTokenExpires s) (rsCreatedAt s)
           in case RotateBootstrapToken env
                \<lparr>btID = rsTokenID s, btPrincipalID = in_principal x, btWorkspaceID = in_workspace x, btPrefix = rsTokenPrefix s,
                 btVerifier = rsVerifier s, btVerifierKeyID = rsKeyID s, btCapabilities = rsCapabilities s,
                 btCreatedAt = effectiveAt, btExpiresAt = expires\<rparr> db of
                Inl e \<Rightarrow> (db, Inl e)
              | Inr d \<Rightarrow>
                  commit env BootDB ''commit bootstrap token rotation'' [] db d
                    \<lparr>resWorkspaceID = in_workspace x, resApplicationID = in_application x, resPrincipalID = in_principal x,
                     resTokenID = rsTokenID s, resToken = rsToken s, resTokenExpires = expires\<rparr>)))"

section \<open>The service\<close>

definition minimumTokenTTL :: duration where "minimumTokenTTL = 24 * hour"
definition maximumTokenTTL :: duration where "maximumTokenTTL = 365 * 24 * hour"

definition initialCapabilities :: "string list" where
  "initialCapabilities = [''catalog:application-repositories:link'', ''catalog:repositories:create'', ''imports:create'',
     ''imports:read-own'', ''imports:upload'']"

definition NewService :: "duration \<Rightarrow> boot_error + duration" where
  "NewService ttl = (if ttl < minimumTokenTTL \<or> ttl > maximumTokenTTL then Inl BootInvalid else Inr ttl)"

definition new_identifier :: "string \<Rightarrow> string option \<Rightarrow> boot_error + string" where
  "new_identifier prefix rnd =
     (case rnd of None \<Rightarrow> Inl BootRandom | Some bs \<Rightarrow> Inr (random_text prefix (take 20 (bs @ replicate 20 nul_byte))))"

definition generated :: "auth_error + GeneratedToken \<Rightarrow> boot_error + GeneratedToken" where
  "generated g = (case g of Inl e \<Rightarrow> Inl (BootToken e) | Inr t \<Rightarrow> Inr t)"

text \<open>The six identifiers are drawn in order; \<open>rnd k\<close> is what the \<open>k\<close>-th draw yields, and \<open>gen\<close> what
  the token generator returns.\<close>

definition install_spec :: "duration \<Rightarrow> gotime \<Rightarrow> (nat \<Rightarrow> string option) \<Rightarrow> auth_error + GeneratedToken \<Rightarrow> boot_error + installationSpec" where
  "install_spec ttl now rnd gen =
     (let createdAt = truncate_us now in
      and_then (new_identifier ''wsp_'' (rnd 0)) (\<lambda>ws.
      and_then (new_identifier ''app_'' (rnd 1)) (\<lambda>app.
      and_then (new_identifier ''prn_'' (rnd 2)) (\<lambda>prn.
      and_then (new_identifier ''role_'' (rnd 3)) (\<lambda>role.
      and_then (new_identifier ''bind_'' (rnd 4)) (\<lambda>bnd.
      and_then (new_identifier ''tok_'' (rnd 5)) (\<lambda>tok.
      and_then (generated gen) (\<lambda>g.
      Inr \<lparr>isResult = \<lparr>resWorkspaceID = ws, resApplicationID = app, resPrincipalID = prn, resTokenID = tok,
             resToken = genPlaintext g, resTokenExpires = createdAt + ttl\<rparr>,
           isRoleID = role, isBindingID = bnd, isTokenPrefix = genPrefix g, isVerifier = genVerifier g,
           isKeyID = genVerifierKeyID g, isCreatedAt = createdAt, isCapabilities = initialCapabilities\<rparr>))))))))"

definition Initialize :: "duration \<Rightarrow> db_env \<Rightarrow> gotime \<Rightarrow> (nat \<Rightarrow> string option) \<Rightarrow> auth_error + GeneratedToken \<Rightarrow> boot_db \<Rightarrow> boot_db \<times> (boot_error + BootResult)" where
  "Initialize ttl env now rnd gen db =
     (case install_spec ttl now rnd gen of
        Inl e \<Rightarrow> (db, Inl e)
      | Inr s \<Rightarrow>
          (case store_Initialize env s db of
             (db', Inl e) \<Rightarrow> (db', Inl e)
           | (db', Inr _) \<Rightarrow> (db', Inr (isResult s))))"

definition RotateToken :: "duration \<Rightarrow> db_env \<Rightarrow> gotime \<Rightarrow> string option \<Rightarrow> auth_error + GeneratedToken \<Rightarrow> boot_db \<Rightarrow> boot_db \<times> (boot_error + BootResult)" where
  "RotateToken ttl env now rnd gen db =
     (case new_identifier ''tok_'' rnd of
        Inl e \<Rightarrow> (db, Inl e)
      | Inr tok \<Rightarrow>
          (case generated gen of
             Inl e \<Rightarrow> (db, Inl e)
           | Inr g \<Rightarrow>
               store_RotateToken env
                 \<lparr>rsTokenID = tok, rsToken = genPlaintext g, rsTokenPrefix = genPrefix g, rsVerifier = genVerifier g,
                  rsKeyID = genVerifierKeyID g, rsCreatedAt = truncate_us now, rsTokenExpires = truncate_us now + ttl,
                  rsCapabilities = initialCapabilities\<rparr> db))"

section \<open>What a successful transaction wrote\<close>

lemma in_identity_Some: "in_identity f d = Some d' \<longleftrightarrow> (\<exists>i. f (identity d) = Some i \<and> d' = d\<lparr>identity := i\<rparr>)"
  by (auto simp: in_identity_def)

lemmas tx_simps = and_then_Inr exec_Inr insert_row_Some in_identity_Some

lemma role_capabilities_inserted:
  "insert_each env msg (role_capability_insert ws role) cs d = Inr d' \<Longrightarrow>
     d' = d\<lparr>identity := (identity d)\<lparr>role_capabilities := role_capabilities (identity d) @
       map (\<lambda>c. \<lparr>rc_workspace = ws, rc_role = role, rc_capability = c\<rparr>) cs\<rparr>\<rparr> \<and>
     list_all validCapability cs"
proof (induction cs arbitrary: d)
  case (Cons c cs)
  from Cons.prems obtain d1 where d1: "role_capability_insert ws role c d = Some d1"
    "insert_each env msg (role_capability_insert ws role) cs d1 = Inr d'"
    by (auto simp: and_then_Inr exec_Inr)
  from Cons.IH [OF d1(2)] d1(1) show ?case
    by (auto simp: role_capability_insert_def in_identity_Some insert_row_Some role_capability_row_ok_def)
qed simp

lemma token_capabilities_inserted:
  "insert_each env msg (token_capability_insert ws tok) cs d = Inr d' \<Longrightarrow>
     d' = d\<lparr>identity := (identity d)\<lparr>token_capabilities := token_capabilities (identity d) @
       map (\<lambda>c. \<lparr>tc_workspace = ws, tc_token = tok, tc_capability = c\<rparr>) cs\<rparr>\<rparr> \<and>
     list_all validCapability cs"
proof (induction cs arbitrary: d)
  case (Cons c cs)
  from Cons.prems obtain d1 where d1: "token_capability_insert ws tok c d = Some d1"
    "insert_each env msg (token_capability_insert ws tok) cs d1 = Inr d'"
    by (auto simp: and_then_Inr exec_Inr)
  from Cons.IH [OF d1(2)] d1(1) show ?case
    by (auto simp: token_capability_insert_def in_identity_Some insert_row_Some token_capability_row_ok_def)
qed simp

lemma principal_created:
  assumes "CreateBootstrapPrincipal env p d = Inr d'" "identity_ok (identity d)"
  shows "d' = d\<lparr>identity := (identity d)\<lparr>principals := principals (identity d) @
      [\<lparr>p_id = bpPrincipalID p, p_kind = ''service_account'', p_state = ''active'',
        p_created_at = bpCreatedAt p, p_updated_at = bpCreatedAt p\<rparr>]\<rparr>\<rparr>"
    and "identity_ok (identity d')" "valid_principal p"
  using assms by (auto simp: CreateBootstrapPrincipal_def tx_simps identity_ok_def split: if_splits)

lemma service_account_created:
  assumes "CreateBootstrapServiceAccount env p d = Inr d'" "identity_ok (identity d)"
  shows "d' = d\<lparr>identity := (identity d)\<lparr>service_accounts := service_accounts (identity d) @
      [\<lparr>sa_workspace = bpWorkspaceID p, sa_principal = bpPrincipalID p, sa_display_name = bpDisplayName p,
        sa_owner = None, sa_expires_at = None, sa_created_at = bpCreatedAt p\<rparr>]\<rparr>\<rparr>"
    and "identity_ok (identity d')"
  using assms by (auto simp: CreateBootstrapServiceAccount_def tx_simps identity_ok_def split: if_splits)

lemma application_created:
  assumes "CreateBootstrapApplication env ws app t d = Inr d'" "identity_ok (identity d)"
  shows "d' = d\<lparr>identity := (identity d)\<lparr>applications := applications (identity d) @ [(ws, app)]\<rparr>\<rparr>"
    and "identity_ok (identity d')" "validOpaqueID app"
  using assms by (auto simp: CreateBootstrapApplication_def tx_simps identity_ok_def split: if_splits)

lemma token_created:
  assumes "CreateBootstrapToken env t d = Inr d'" "identity_ok (identity d)"
  shows "d' = d\<lparr>identity := (identity d)\<lparr>api_tokens := api_tokens (identity d) @ [token_row t],
      token_capabilities := token_capabilities (identity d) @
        map (\<lambda>c. \<lparr>tc_workspace = btWorkspaceID t, tc_token = btID t, tc_capability = c\<rparr>) (btCapabilities t)\<rparr>\<rparr>" (is ?d)
    and "identity_ok (identity d')" "validateToken t" "api_token_row_ok (token_row t)"
proof -
  let ?i = "identity d"
  from assms(1) obtain d1 where v: "validateToken t" and d1: "d1 = d\<lparr>identity := ?i\<lparr>api_tokens := api_tokens ?i @ [token_row t]\<rparr>\<rparr>"
    and r: "api_token_row_ok (token_row t)" "\<forall>x\<in>set (api_tokens ?i). t_prefix (token_row t) \<noteq> t_prefix x"
      "\<forall>x\<in>set (api_tokens ?i). (t_workspace (token_row t), t_id (token_row t)) \<noteq> (t_workspace x, t_id x)"
    and c: "insert_each env ''insert bootstrap token capability'' (token_capability_insert (btWorkspaceID t) (btID t))
          (btCapabilities t) d1 = Inr d'"
    by (auto simp: CreateBootstrapToken_def tx_simps split: if_splits)
  note c' = token_capabilities_inserted [OF c]
  from c' d1 show ?d by simp
  from c' d1 r assms(2) show "identity_ok (identity d')"
    by (auto simp: identity_ok_def token_capability_row_ok_def list_all_iff)
  from v r show "validateToken t" "api_token_row_ok (token_row t)" by blast+
qed

lemma workspace_created:
  assumes "CreateBootstrapWorkspace env s d = Inr d'" "identity_ok (identity d)"
  shows "d' = d\<lparr>workspaces := workspaces d @ [bwWorkspaceID s], identity := (identity d)\<lparr>
      memberships := memberships (identity d) @ [\<lparr>m_workspace = bwWorkspaceID s, m_principal = bwPrincipalID s,
        m_state = ''active'', m_valid_from = bwCreatedAt s, m_valid_until = None\<rparr>],
      roles := roles (identity d) @ [\<lparr>ro_workspace = bwWorkspaceID s, ro_id = bwRoleID s, ro_name = bwRoleName s,
        ro_created_at = bwCreatedAt s\<rparr>],
      role_capabilities := role_capabilities (identity d) @
        map (\<lambda>c. \<lparr>rc_workspace = bwWorkspaceID s, rc_role = bwRoleID s, rc_capability = c\<rparr>) (bwCapabilities s),
      role_bindings := role_bindings (identity d) @ [\<lparr>rb_workspace = bwWorkspaceID s, rb_id = bwBindingID s,
        rb_principal = bwPrincipalID s, rb_role = bwRoleID s, rb_scope_type = ''workspace'', rb_application = None,
        rb_valid_from = bwCreatedAt s, rb_valid_until = None\<rparr>]\<rparr>\<rparr>"
    and "identity_ok (identity d')"
  using assms
  by (auto simp: CreateBootstrapWorkspace_def Let_def tx_simps identity_ok_def role_capability_row_ok_def list_all_iff
      split: if_splits dest!: role_capabilities_inserted)

text \<open>The principal's live token and the role, membership and binding that authorize it.\<close>

lemma installed:
  assumes "install env s db = Inr d" "identity_ok (identity db)"
  shows "identity_ok (identity d)" "list_ex (\<lambda>x. in_id x = ''initial'') (installations d)"
    and "token_row (spec_token s) \<in> set (api_tokens (identity d))" "validateToken (spec_token s)"
    and "set (isCapabilities s) \<subseteq> {c. \<lparr>tc_workspace = resWorkspaceID (isResult s), tc_token = resTokenID (isResult s), tc_capability = c\<rparr>
      \<in> set (token_capabilities (identity d))}"
    and "set (isCapabilities s) \<subseteq> {c. \<lparr>rc_workspace = resWorkspaceID (isResult s), rc_role = isRoleID s, rc_capability = c\<rparr>
      \<in> set (role_capabilities (identity d))}"
    and "\<lparr>p_id = resPrincipalID (isResult s), p_kind = ''service_account'', p_state = ''active'', p_created_at = isCreatedAt s,
      p_updated_at = isCreatedAt s\<rparr> \<in> set (principals (identity d))"
    and "\<lparr>m_workspace = resWorkspaceID (isResult s), m_principal = resPrincipalID (isResult s), m_state = ''active'',
      m_valid_from = isCreatedAt s, m_valid_until = None\<rparr> \<in> set (memberships (identity d))"
    and "\<lparr>sa_workspace = resWorkspaceID (isResult s), sa_principal = resPrincipalID (isResult s), sa_display_name = ''Initial operator'',
      sa_owner = None, sa_expires_at = None, sa_created_at = isCreatedAt s\<rparr> \<in> set (service_accounts (identity d))"
    and "\<lparr>rb_workspace = resWorkspaceID (isResult s), rb_id = isBindingID s, rb_principal = resPrincipalID (isResult s),
      rb_role = isRoleID s, rb_scope_type = ''workspace'', rb_application = None, rb_valid_from = isCreatedAt s,
      rb_valid_until = None\<rparr> \<in> set (role_bindings (identity d))"
    and "(resWorkspaceID (isResult s), resApplicationID (isResult s)) \<in> set (applications (identity d))"
    and "validOpaqueID (resApplicationID (isResult s))"
proof -
  from assms(1) obtain d1 d2 d3 d4 d5 p w where
    d1: "CreateBootstrapPrincipal env p db = Inr d1" and d2: "CreateBootstrapWorkspace env w d1 = Inr d2"
    and d3: "CreateBootstrapServiceAccount env p d2 = Inr d3"
    and d4: "CreateBootstrapApplication env (resWorkspaceID (isResult s)) (resApplicationID (isResult s)) (isCreatedAt s) d3 = Inr d4"
    and d5: "CreateBootstrapToken env (spec_token s) d4 = Inr d5" and d: "installation_insert s d5 = Some d"
    and p: "p = \<lparr>bpPrincipalID = resPrincipalID (isResult s), bpWorkspaceID = resWorkspaceID (isResult s),
      bpDisplayName = ''Initial operator'', bpCreatedAt = isCreatedAt s\<rparr>"
    and w: "w = \<lparr>bwWorkspaceID = resWorkspaceID (isResult s), bwPrincipalID = resPrincipalID (isResult s), bwRoleID = isRoleID s,
      bwBindingID = isBindingID s, bwRoleName = ''Initial operator'', bwCapabilities = isCapabilities s, bwCreatedAt = isCreatedAt s\<rparr>"
    unfolding install_def Let_def and_then_Inr exec_Inr by blast
  note e1 = principal_created [OF d1 assms(2)]
  note e2 = workspace_created [OF d2 e1(2)]
  note e3 = service_account_created [OF d3 e2(2)]
  note e4 = application_created [OF d4 e3(2)]
  note e5 = token_created [OF d5 e4(2)]
  have d': "identity d = identity d5" "list_ex (\<lambda>x. in_id x = ''initial'') (installations d)"
    using d by (auto simp: installation_insert_def Let_def insert_row_Some)
  show "identity_ok (identity d)" "list_ex (\<lambda>x. in_id x = ''initial'') (installations d)" "validateToken (spec_token s)"
    "validOpaqueID (resApplicationID (isResult s))"
    using d' e5(2,3) e4(3) by simp_all
  have i: "identity d = identity d5" by (rule d'(1))
  show "token_row (spec_token s) \<in> set (api_tokens (identity d))"
    "set (isCapabilities s) \<subseteq> {c. \<lparr>tc_workspace = resWorkspaceID (isResult s), tc_token = resTokenID (isResult s), tc_capability = c\<rparr>
      \<in> set (token_capabilities (identity d))}"
    "set (isCapabilities s) \<subseteq> {c. \<lparr>rc_workspace = resWorkspaceID (isResult s), rc_role = isRoleID s, rc_capability = c\<rparr>
      \<in> set (role_capabilities (identity d))}"
    "\<lparr>p_id = resPrincipalID (isResult s), p_kind = ''service_account'', p_state = ''active'', p_created_at = isCreatedAt s,
      p_updated_at = isCreatedAt s\<rparr> \<in> set (principals (identity d))"
    "\<lparr>m_workspace = resWorkspaceID (isResult s), m_principal = resPrincipalID (isResult s), m_state = ''active'',
      m_valid_from = isCreatedAt s, m_valid_until = None\<rparr> \<in> set (memberships (identity d))"
    "\<lparr>sa_workspace = resWorkspaceID (isResult s), sa_principal = resPrincipalID (isResult s), sa_display_name = ''Initial operator'',
      sa_owner = None, sa_expires_at = None, sa_created_at = isCreatedAt s\<rparr> \<in> set (service_accounts (identity d))"
    "\<lparr>rb_workspace = resWorkspaceID (isResult s), rb_id = isBindingID s, rb_principal = resPrincipalID (isResult s),
      rb_role = isRoleID s, rb_scope_type = ''workspace'', rb_application = None, rb_valid_from = isCreatedAt s,
      rb_valid_until = None\<rparr> \<in> set (role_bindings (identity d))"
    "(resWorkspaceID (isResult s), resApplicationID (isResult s)) \<in> set (applications (identity d))"
    unfolding i e5(1) e4(1) e3(1) e2(1) e1(1) p w by (auto simp: spec_token_def)
qed

lemma store_Initialize_Inr:
  assumes "store_Initialize env s db = (db', Inr u)"
  shows "install env s db = Inr db'" "workspaces db = []" "principals (identity db) = []" "applications (identity db) = []"
    "\<not> list_ex (\<lambda>x. in_id x = ''initial'') (installations db)"
  using assms
  by (auto simp: store_Initialize_def stmt_def commit_def split: option.splits if_splits sum.splits)

lemma Initialize_Inr:
  assumes "Initialize ttl env now rnd gen db = (db', Inr r)"
  obtains s where "install_spec ttl now rnd gen = Inr s" "store_Initialize env s db = (db', Inr ())" "r = isResult s"
  using assms by (auto simp: Initialize_def split: sum.splits prod.splits)

lemma install_recorded:
  assumes "install env s db = Inr d"
  shows "list_ex (\<lambda>x. in_id x = ''initial'') (installations d)"
proof -
  from assms obtain d5 where "installation_insert s d5 = Some d"
    unfolding install_def Let_def and_then_Inr exec_Inr by blast
  then show ?thesis by (auto simp: installation_insert_def Let_def insert_row_Some)
qed

lemma store_Initialize_again:
  assumes "list_ex (\<lambda>x. in_id x = ''initial'') (installations db)"
  shows "\<exists>e. store_Initialize env s db = (db, Inl e) \<and> (calm env \<longrightarrow> e = ErrAlreadyInitialized)"
  using assms by (auto simp: store_Initialize_def stmt_def stmt_fault_def calm_def split: option.splits)

lemma capabilities_valid_each: "capabilities_valid seen cs \<Longrightarrow> list_all validCapability cs"
  by (induction seen cs rule: capabilities_valid.induct) auto

lemma prefix_ok_text: "prefix_ok p \<Longrightarrow> db_text p"
proof -
  assume "prefix_ok p"
  then obtain q where q: "p = ''oaspm_'' @ q" "list_all base32_char q"
    by (auto simp: prefix_ok_def pat_prefixed_def strip_prefix_Some split: option.splits)
  then have "list_all ascii p" "nul_byte \<notin> set p"
    using base32_char_key by (auto simp: list_all_iff ascii_def byte_def nul_byte_def class_defs)
  then show ?thesis using utf8_valid_all_ascii by (simp add: db_text_def has_nul_def)
qed

lemma capability_text: "cap \<in> set initialCapabilities \<Longrightarrow> db_text cap"
proof -
  have "list_all db_text initialCapabilities" by code_simp
  then show "cap \<in> set initialCapabilities \<Longrightarrow> db_text cap" by (simp add: list_all_iff)
qed

lemma boot_allowed:
  assumes "token_row (spec_token s) \<in> set (api_tokens i)"
    and "set (isCapabilities s) \<subseteq> {c. \<lparr>tc_workspace = resWorkspaceID (isResult s), tc_token = resTokenID (isResult s), tc_capability = c\<rparr>
      \<in> set (token_capabilities i)}"
    and "set (isCapabilities s) \<subseteq> {c. \<lparr>rc_workspace = resWorkspaceID (isResult s), rc_role = isRoleID s, rc_capability = c\<rparr>
      \<in> set (role_capabilities i)}"
    and p: "\<lparr>p_id = resPrincipalID (isResult s), p_kind = ''service_account'', p_state = ''active'', p_created_at = isCreatedAt s,
      p_updated_at = isCreatedAt s\<rparr> \<in> set (principals i)"
    and m: "\<lparr>m_workspace = resWorkspaceID (isResult s), m_principal = resPrincipalID (isResult s), m_state = ''active'',
      m_valid_from = isCreatedAt s, m_valid_until = None\<rparr> \<in> set (memberships i)"
    and sa: "\<lparr>sa_workspace = resWorkspaceID (isResult s), sa_principal = resPrincipalID (isResult s), sa_display_name = ''Initial operator'',
      sa_owner = None, sa_expires_at = None, sa_created_at = isCreatedAt s\<rparr> \<in> set (service_accounts i)"
    and rb: "\<lparr>rb_workspace = resWorkspaceID (isResult s), rb_id = isBindingID s, rb_principal = resPrincipalID (isResult s),
      rb_role = isRoleID s, rb_scope_type = ''workspace'', rb_application = None, rb_valid_from = isCreatedAt s,
      rb_valid_until = None\<rparr> \<in> set (role_bindings i)"
    and a: "(resWorkspaceID (isResult s), resApplicationID (isResult s)) \<in> set (applications i)"
    and "cap \<in> set (isCapabilities s)" "app \<in> {[], resApplicationID (isResult s)}"
      "isCreatedAt s \<le> now" "now < truncate_us (resTokenExpires (isResult s))"
  shows "allowed \<lparr>reqPrincipalID = resPrincipalID (isResult s), reqWorkspaceID = resWorkspaceID (isResult s), reqCapability = cap,
      reqApplicationID = app, reqTokenID = resTokenID (isResult s)\<rparr> now i" (is "allowed ?q now i")
proof -
  have tc: "\<lparr>tc_workspace = resWorkspaceID (isResult s), tc_token = resTokenID (isResult s), tc_capability = cap\<rparr> \<in> set (token_capabilities i)"
    and rc: "\<lparr>rc_workspace = resWorkspaceID (isResult s), rc_role = isRoleID s, rc_capability = cap\<rparr> \<in> set (role_capabilities i)"
    using assms(2,3,9) by blast+
  have "account_live ?q now i" unfolding account_live_def list_ex_iff by (rule bexI [OF _ sa]) simp
  then have 1: "list_ex (\<lambda>p. p_id p = reqPrincipalID ?q \<and> p_state p = ''active'' \<and>
      (p_kind p \<noteq> ''service_account'' \<or> account_live ?q now i)) (principals i)"
    unfolding list_ex_iff by (intro bexI [OF _ p]) simp
  have 2: "list_ex (member_active ?q now) (memberships i)"
    unfolding list_ex_iff using assms(11) by (intro bexI [OF _ m]) (simp add: member_active_def open_interval_def)
  have 3: "application_known ?q i" using a assms(10) by (auto simp: application_known_def list_ex_iff)
  have 4: "list_ex (binding_grants ?q now i) (role_bindings i)"
    unfolding list_ex_iff binding_grants_def using assms(11)
    by (intro bexI [OF _ rb]) (auto simp: open_interval_def intro: bexI [OF _ rc])
  have 5: "list_ex (token_grants ?q now i) (api_tokens i)"
    unfolding list_ex_iff token_grants_def using assms(11,12)
    by (intro bexI [OF _ assms(1)]) (auto simp: token_row_def spec_token_def intro: bexI [OF _ tc])
  from 1 2 3 4 5 show ?thesis unfolding allowed_def by blast
qed

lemma revoked_row_ok: "api_token_row_ok r \<Longrightarrow> t_created_at r \<le> at \<Longrightarrow> api_token_row_ok (r\<lparr>t_revoked_at := Some at\<rparr>)"
  by (cases r) (simp add: api_token_row_ok_def not_before_def)

lemma token_rotated:
  assumes "RotateBootstrapToken env t d = Inr d'" "identity_ok (identity d)"
  shows "identity_ok (identity d')"
    and "filter (live_token (btWorkspaceID t) (btPrincipalID t)) (api_tokens (identity d')) = [token_row t]"
proof -
  let ?i = "identity d" and ?live = "live_token (btWorkspaceID t) (btPrincipalID t)"
  let ?rows = "sql_update ?live (\<lambda>r. r\<lparr>t_revoked_at := Some (btCreatedAt t)\<rparr>) (api_tokens ?i)"
  from assms(1) obtain d1 where d1: "d1 = d\<lparr>identity := ?i\<lparr>api_tokens := ?rows\<rparr>\<rparr>" "CreateBootstrapToken env t d1 = Inr d'"
    and late: "list_all (\<lambda>r. ?live r \<longrightarrow> t_created_at r \<le> btCreatedAt t) (api_tokens ?i)"
    by (auto simp: RotateBootstrapToken_def tx_simps revoke_def split: if_splits)
  have "list_all api_token_row_ok ?rows"
    using late assms(2) revoked_row_ok by (intro list_all_sql_update) (simp_all add: identity_ok_def list_all_iff)
  moreover have "map t_prefix ?rows = map t_prefix (api_tokens ?i)"
    "map (\<lambda>r. (t_workspace r, t_id r)) ?rows = map (\<lambda>r. (t_workspace r, t_id r)) (api_tokens ?i)"
    by (simp_all add: sql_update_def)
  ultimately have "identity_ok (identity d1)" using assms(2) by (simp add: d1(1) identity_ok_def)
  note c = token_created [OF d1(2) this]
  from c(2) show "identity_ok (identity d')" .
  have "filter ?live ?rows = []" by (auto simp: sql_update_def filter_empty_conv live_token_def)
  then show "filter ?live (api_tokens (identity d')) = [token_row t]"
    by (simp add: c(1) d1(1) live_token_def token_row_def)
qed

lemma RotateToken_Inr:
  assumes "RotateToken ttl env now rnd gen db = (db', Inr r)"
  shows "\<exists>t. RotateBootstrapToken env t db = Inr db' \<and> btWorkspaceID t = resWorkspaceID r \<and>
    btPrincipalID t = resPrincipalID r \<and> btID t = resTokenID r \<and> btExpiresAt t = resTokenExpires r"
proof -
  from assms obtain s where "store_RotateToken env s db = (db', Inr r)"
    by (auto simp: RotateToken_def split: sum.splits)
  then show ?thesis
    by (auto simp: store_RotateToken_def stmt_def commit_def Let_def split: option.splits sum.splits if_splits)
qed

section \<open>Properties\<close>

definition demo_boot :: boot_db where
  "demo_boot = \<lparr>workspaces = [], identity = \<lparr>applications = [], principals = [], memberships = [], service_accounts = [], roles = [],
     role_capabilities = [], role_bindings = [], api_tokens = [], token_capabilities = [], token_scopes = []\<rparr>, installations = []\<rparr>"

definition demo_installed :: "boot_db \<times> (boot_error + BootResult)" where
  "demo_installed = Initialize (24 * hour) (quiet_env 0) 1000 (\<lambda>_. Some []) (Generate demo_hmac demo_keys (Some []) (Some [])) demo_boot"

definition id_of :: "string \<Rightarrow> string" where
  "id_of p = p @ replicate 32 CHR ''a''"

lemma demo_installed_result:
  "snd demo_installed = Inr \<lparr>resWorkspaceID = id_of ''wsp_'', resApplicationID = id_of ''app_'', resPrincipalID = id_of ''prn_'',
     resTokenID = id_of ''tok_'', resToken = demo_plain, resTokenExpires = 86400000001000\<rparr>"
  by code_simp

lemma demo_boot_ok: "identity_ok (identity demo_boot)"
  by code_simp

lemma demo_installed_ok: "identity_ok (identity (fst demo_installed))"
  by code_simp

lemma demo_installed_eq:
  "Initialize (24 * hour) (quiet_env 0) 1000 (\<lambda>_. Some []) (Generate demo_hmac demo_keys (Some []) (Some [])) demo_boot =
     (fst demo_installed, Inr \<lparr>resWorkspaceID = id_of ''wsp_'', resApplicationID = id_of ''app_'', resPrincipalID = id_of ''prn_'',
     resTokenID = id_of ''tok_'', resToken = demo_plain, resTokenExpires = 86400000001000\<rparr>)"
  using demo_installed_result by (metis demo_installed_def prod.collapse)

definition demo_rotated :: "boot_db \<times> (boot_error + BootResult)" where
  "demo_rotated = RotateToken (24 * hour) (quiet_env 5000) 4000 (Some ''x'') (Generate demo_hmac demo_keys (Some ''x'') (Some [])) (fst demo_installed)"

lemma demo_rotated_result:
  "(case snd demo_rotated of Inl _ \<Rightarrow> False | Inr r \<Rightarrow> resWorkspaceID r = id_of ''wsp_'' \<and> resPrincipalID r = id_of ''prn_'')"
  by code_simp

text \<open>C37.  Bootstrap happens once: it succeeds only on a database without workspaces, principals and
  applications, and after it every later run fails with the database unchanged, reporting
  \<open>ErrAlreadyInitialized\<close> unless its random source, token generator or database fails.\<close>

theorem bootstrap_once:
  assumes "Initialize ttl env now rnd gen db = (db', Inr r)"
  shows "workspaces db = [] \<and> principals (identity db) = [] \<and> applications (identity db) = [] \<and>
    (\<exists>e. Initialize ttl2 env2 now2 rnd2 gen2 db' = (db', Inl e) \<and>
      (calm env2 \<and> (\<exists>s. install_spec ttl2 now2 rnd2 gen2 = Inr s) \<longrightarrow> e = ErrAlreadyInitialized))"
proof -
  from assms obtain s where s: "store_Initialize env s db = (db', Inr ())" by (rule Initialize_Inr)
  note b = store_Initialize_Inr [OF s]
  from install_recorded [OF b(1)] have r: "list_ex (\<lambda>x. in_id x = ''initial'') (installations db')" .
  have "\<exists>e. Initialize ttl2 env2 now2 rnd2 gen2 db' = (db', Inl e) \<and>
      (calm env2 \<and> (\<exists>s. install_spec ttl2 now2 rnd2 gen2 = Inr s) \<longrightarrow> e = ErrAlreadyInitialized)"
  proof (cases "install_spec ttl2 now2 rnd2 gen2")
    case (Inr s2)
    with store_Initialize_again [OF r, of env2 s2] show ?thesis by (auto simp: Initialize_def)
  qed (simp add: Initialize_def)
  with b show ?thesis by blast
qed

theorem bootstrap_once_witness:
  "\<exists>e. Initialize hour (quiet_env 5) 7 (\<lambda>_. None) (Inl AuthInvalid) (fst demo_installed) = (fst demo_installed, Inl e)"
  using bootstrap_once [of "24 * hour" "quiet_env 0" 1000 "\<lambda>_. Some []" "Generate demo_hmac demo_keys (Some []) (Some [])" demo_boot
      "fst demo_installed" _ hour "quiet_env 5" 7 "\<lambda>_. None" "Inl AuthInvalid"]
    demo_installed_result by (metis demo_installed_def prod.collapse)

text \<open>C38.  The bootstrapped operator can work: until it expires, the token that bootstrap returns
  authenticates as the new principal, and that principal is authorized for each initial capability, in
  the workspace and on the new application.\<close>

theorem bootstrap_operator_authorized:
  assumes "Initialize ttl env now rnd (Generate hmac c (Some pb) (Some sb)) db = (db', Inr r)"
    and "validateConfig c" "\<forall>k t. length (hmac k t) = 32" "identity_ok (identity db)" "calm env2"
    and "truncate_us now \<le> truncate_us at" "truncate_us at < truncate_us (resTokenExpires r)" "0 < truncate_us at"
    and "cap \<in> set initialCapabilities" "app \<in> {[], resApplicationID r}"
  shows "snd (Authenticate hmac env2 c at (resToken r) (identity db')) =
      Inr \<lparr>subTokenID = resTokenID r, subPrincipalID = resPrincipalID r, subWorkspaceID = resWorkspaceID r\<rparr> \<and>
    Authorize env2 at \<lparr>reqPrincipalID = resPrincipalID r, reqWorkspaceID = resWorkspaceID r, reqCapability = cap,
      reqApplicationID = app, reqTokenID = resTokenID r\<rparr> (identity db') = None"
proof -
  from assms(1) obtain s where sp: "install_spec ttl now rnd (Generate hmac c (Some pb) (Some sb)) = Inr s"
    and st: "store_Initialize env s db = (db', Inr ())" and r: "r = isResult s" by (rule Initialize_Inr)
  note f = installed [OF store_Initialize_Inr(1) [OF st] assms(4)]
  obtain g where g: "Generate hmac c (Some pb) (Some sb) = Inr g" by (auto simp: Generate_def Let_def)
  from sp have q: "isTokenPrefix s = genPrefix g" "isVerifier s = genVerifier g" "isKeyID s = genVerifierKeyID g"
    "resToken (isResult s) = genPlaintext g" "isCreatedAt s = truncate_us now" "isCapabilities s = initialCapabilities"
    unfolding g by (auto simp: install_spec_def Let_def and_then_Inr generated_def)
  from f(4) have v: "validOpaqueID (resTokenID r)" "validOpaqueID (resPrincipalID r)" "validOpaqueID (resWorkspaceID r)"
    "prefix_ok (isTokenPrefix s)" "list_all validCapability (isCapabilities s)"
    unfolding r by (auto simp: validateToken_def spec_token_def capabilities_valid_each)
  have ne: "x \<noteq> [] \<and> db_text x" if "validOpaqueID x" for x using that by (auto simp: validOpaqueID_def db_text_def)
  have a: "snd (Authenticate hmac env2 c at (genPlaintext g) (identity db')) =
      Inr \<lparr>subTokenID = t_id (token_row (spec_token s)), subPrincipalID = t_principal (token_row (spec_token s)),
           subWorkspaceID = t_workspace (token_row (spec_token s))\<rparr>"
    using assms(6,7,8) ne [OF v(1)] ne [OF v(2)] ne [OF v(3)] prefix_ok_text [OF v(4)] q r
    by (intro generated_authenticates [OF g assms(2,3) f(1,3)]) (auto simp: token_row_def spec_token_def assms(5))
  let ?q = "\<lparr>reqPrincipalID = resPrincipalID r, reqWorkspaceID = resWorkspaceID r, reqCapability = cap,
      reqApplicationID = app, reqTokenID = resTokenID r\<rparr>"
  have w: "validateRequest ?q" using v f(12) assms(9,10) q(6) by (auto simp: validateRequest_def list_all_iff r)
  have "allowed ?q (truncate_us at) (identity db')"
    using boot_allowed [OF f(3,5-11), of cap app "truncate_us at"] assms(6,7,9,10) q(5,6) r by simp
  moreover have "list_all db_text [reqPrincipalID ?q, reqWorkspaceID ?q, reqCapability ?q, reqApplicationID ?q, reqTokenID ?q]"
    using ne [OF v(1)] ne [OF v(2)] ne [OF v(3)] ne [OF f(12)] assms(9,10) capability_text by (auto simp: r db_text_Nil)
  ultimately have "Authorize env2 at ?q (identity db') = None"
    using w assms(5,8) by (simp add: Authorize_def IsAllowed_def stmt_fault_def calm_def)
  with a q(4) show ?thesis by (simp add: r token_row_def spec_token_def)
qed

theorem bootstrap_operator_authorized_witness:
  "snd (Authenticate demo_hmac (quiet_env 5) demo_keys 2000 demo_plain (identity (fst demo_installed))) =
      Inr \<lparr>subTokenID = id_of ''tok_'', subPrincipalID = id_of ''prn_'', subWorkspaceID = id_of ''wsp_''\<rparr> \<and>
    Authorize (quiet_env 5) 2000 \<lparr>reqPrincipalID = id_of ''prn_'', reqWorkspaceID = id_of ''wsp_'', reqCapability = ''imports:upload'',
      reqApplicationID = [], reqTokenID = id_of ''tok_''\<rparr> (identity (fst demo_installed)) = None"
  using bootstrap_operator_authorized [OF demo_installed_eq demo_tok_facts(4) _ demo_boot_ok calm_quiet, of 2000 "''imports:upload''" "[]" 5]
  by (simp add: demo_hmac_length truncate_us_def initialCapabilities_def)

text \<open>C39.  Rotation leaves exactly one live token: after it the only unrevoked token of the bootstrap
  principal is the returned one, with the returned expiry, the identity tables stay well formed, and no
  request under another token of that principal is allowed.\<close>

theorem rotation_revokes:
  assumes "RotateToken ttl env now rnd gen db = (db', Inr r)" "identity_ok (identity db)"
  shows "identity_ok (identity db') \<and>
    (\<exists>x. filter (live_token (resWorkspaceID r) (resPrincipalID r)) (api_tokens (identity db')) = [x] \<and>
      t_id x = resTokenID r \<and> t_expires_at x = truncate_us (resTokenExpires r)) \<and>
    (\<forall>q at. reqWorkspaceID q = resWorkspaceID r \<and> reqPrincipalID q = resPrincipalID r \<and>
      reqTokenID q \<notin> {[], resTokenID r} \<longrightarrow> \<not> allowed q at (identity db'))"
proof -
  from RotateToken_Inr [OF assms(1)] obtain t where t: "RotateBootstrapToken env t db = Inr db'"
    "btWorkspaceID t = resWorkspaceID r" "btPrincipalID t = resPrincipalID r" "btID t = resTokenID r" "btExpiresAt t = resTokenExpires r"
    by blast
  note k = token_rotated [OF t(1) assms(2)]
  let ?live = "live_token (resWorkspaceID r) (resPrincipalID r)"
  have f: "filter ?live (api_tokens (identity db')) = [token_row t]" using k(2) t by simp
  have "\<not> allowed q at (identity db')" if q: "reqWorkspaceID q = resWorkspaceID r" "reqPrincipalID q = resPrincipalID r"
    "reqTokenID q \<notin> {[], resTokenID r}" for q at
  proof
    assume "allowed q at (identity db')"
    with q(3) obtain x where x: "x \<in> set (api_tokens (identity db'))" "token_grants q at (identity db') x"
      by (auto simp: allowed_def list_ex_iff)
    with q have "x \<in> set (filter ?live (api_tokens (identity db')))" by (auto simp: token_grants_def live_token_def)
    then have "x = token_row t" by (simp add: f)
    with x(2) q(3) t(4) show False by (auto simp: token_grants_def token_row_def)
  qed
  with f k(1) t show ?thesis by (auto simp: token_row_def)
qed

theorem rotation_revokes_witness:
  "\<exists>x. filter (live_token (id_of ''wsp_'') (id_of ''prn_'')) (api_tokens (identity (fst demo_rotated))) = [x]"
proof -
  from demo_rotated_result obtain r where r: "snd demo_rotated = Inr r" "resWorkspaceID r = id_of ''wsp_''" "resPrincipalID r = id_of ''prn_''"
    by (auto split: sum.splits)
  then have "RotateToken (24 * hour) (quiet_env 5000) 4000 (Some ''x'') (Generate demo_hmac demo_keys (Some ''x'') (Some []))
      (fst demo_installed) = (fst demo_rotated, Inr r)" by (metis demo_rotated_def prod.collapse)
  from rotation_revokes [OF this demo_installed_ok] r show ?thesis by auto
qed

end
