(* ===== verification/Ingestion.thy ===== *)
theory Ingestion
  imports Sql_Tx Catalog Job_Queue Blob_Stream
begin

text \<open>
  Import reservation, upload and completion at the store (\<open>internal/ingestion/types.go\<close>,
  \<open>internal/ingestion/postgres.go\<close>) over the tables of migrations 00003, 00004, 00005 and 00011.  The
  queue's tables are a component of the state, so that completion enqueues its job in the same
  transaction.  SHA-256, \<open>jsonb\<close> normalization, random bytes and database faults are parameters.
\<close>

section \<open>Types\<close>

datatype ingest_error =
    ErrApplicationNotFound | ErrAnalysisTargetNotFound | IngIdempotencyConflict | IngIdempotencyInProgress
  | ErrImportNotFound | IngInvalid | IngTooLarge | ErrCompletionConflict | ErrUploadConflict | ErrUploadExpired
  | ErrUploadInProgress | ErrUploadLeaseLost | ErrUploadMismatch | ErrUploadStorage | ErrProcessingConflict
  | ErrProcessingNotFound | ErrParseOutputConflict | IngIntegrity string | IngRandom | TargetInconsistent
  | IngUnauthorized string | IngCatalog catalog_error | IngBlob string blob_error | IngQueue queue_error
  | IngDB string cause | IngJoin ingest_error ingest_error

datatype ImportState =
    ImportAwaitingUpload | ImportUploading | ImportUploaded | ImportQueued | ImportProcessing | ImportSucceeded
  | ImportFailed | ImportRejected | ImportAbandoned

datatype artifact_state =
    ArtifactPending | ArtifactUploading | ArtifactCommitted | ArtifactRejected | ArtifactAbandoned
  | ArtifactDeletionPending | ArtifactDeleted

datatype OperationState = OperationQueued | OperationRunning | OperationSucceeded | OperationFailed | OperationCancelled

record ReportFormat =
  rfName :: string
  rfVersion :: string

record AnalysisContextRequest =
  acrKind :: string
  acrTargetType :: string
  acrTargetID :: string

record AnalysisContext =
  acKind :: string
  acTargetType :: string
  acTargetID :: string
  acTargetRelationshipID :: string
  acAssertionSource :: string
  acAssertedBy :: string
  acAcceptedAt :: gotime

record ReserveRequest =
  rqPrincipalID :: string
  rqWorkspaceID :: string
  rqApplicationID :: string
  rqIdempotencyKey :: string
  rqReportFormat :: ReportFormat
  rqOriginalFilename :: string
  rqExpectedSize :: "int option"
  rqExpectedSHA256 :: string
  rqAnalysisContext :: "AnalysisContextRequest option"

record Import =
  impID :: string
  impWorkspaceID :: string
  impApplicationID :: string
  impCreatedBy :: string
  impState :: ImportState
  impReportFormat :: ReportFormat
  impOriginalFilename :: string
  impExpectedSize :: "int option"
  impExpectedSHA256 :: string
  impMaxBytes :: int
  impUploadExpiresAt :: gotime
  impCreatedAt :: gotime
  impUpdatedAt :: gotime
  impAnalysisContext :: "AnalysisContext option"

record Reservation =
  resvImport :: Import
  resvCreated :: bool

record UploadReceipt =
  urImportID :: string
  urState :: ImportState
  urSizeBytes :: int
  urSHA256 :: string
  urUploadedAt :: gotime

record Operation =
  opID :: string
  opWorkspaceID :: string
  opImportID :: string
  opCreatedBy :: string
  opKind :: string
  opState :: OperationState
  opCreatedAt :: gotime
  opUpdatedAt :: gotime

record CompleteRequest =
  cqPrincipalID :: string
  cqWorkspaceID :: string
  cqApplicationID :: string
  cqImportID :: string
  cqIdempotencyKey :: string

record Completion =
  coOperation :: Operation
  coCreated :: bool

record reserveSpec =
  rvImport :: Import
  rvArtifactID :: string
  rvStorageBackend :: string
  rvStorageKey :: string
  rvPrincipalID :: string
  rvAPIMajorVersion :: int
  rvOperation :: string
  rvIdempotencyKey :: string
  rvRequestFingerprint :: string
  rvRequestExceedsLimit :: bool
  rvIdempotencyExpiresAt :: gotime

record reservationReplaySpec =
  rpWorkspaceID :: string
  rpPrincipalID :: string
  rpAPIMajorVersion :: int
  rpOperation :: string
  rpIdempotencyKey :: string
  rpRequestFingerprint :: string

record beginUploadSpec =
  buPrincipalID :: string
  buWorkspaceID :: string
  buApplicationID :: string
  buImportID :: string
  buArtifactID :: string
  buStorageBackend :: string
  buStorageKey :: string
  buAttemptID :: string
  buStartedAt :: gotime
  buLeaseExpiresAt :: gotime

record uploadSession =
  usWorkspaceID :: string
  usImportID :: string
  usArtifactID :: string
  usStorageBackend :: string
  usStorageKey :: string
  usAttemptID :: string
  usMaxBytes :: int
  usExpectedSize :: "int option"
  usExpectedSHA256 :: string
  usCommitted :: "UploadReceipt option"

record commitUploadSpec =
  cuWorkspaceID :: string
  cuImportID :: string
  cuArtifactID :: string
  cuAttemptID :: string
  cuSizeBytes :: int
  cuSHA256 :: string
  cuStorageVersion :: string
  cuBackendVersion :: string
  cuCommittedAt :: gotime

record endUploadSpec =
  euWorkspaceID :: string
  euImportID :: string
  euArtifactID :: string
  euAttemptID :: string
  euEndedAt :: gotime
  euRejectCode :: string

record completeSpec =
  cpOperation :: Operation
  cpApplicationID :: string
  cpPrincipalID :: string
  cpAPIMajorVersion :: int
  cpIdempotencyOperation :: string
  cpIdempotencyKey :: string
  cpRequestFingerprint :: string
  cpIdempotencyExpiresAt :: gotime
  cpProcessMaxAttempts :: int

section \<open>Constants and validation\<close>

definition CapabilityImportsCreate :: string where "CapabilityImportsCreate = ''imports:create''"
definition CapabilityImportsUpload :: string where "CapabilityImportsUpload = ''imports:upload''"
definition CapabilityImportsProcess :: string where "CapabilityImportsProcess = ''imports:process''"
definition operationCreateImport :: string where "operationCreateImport = ''imports.create''"
definition operationCompleteImport :: string where "operationCompleteImport = ''imports.complete''"
definition importProcessKind :: string where "importProcessKind = ''import.process''"
definition importProcessQueue :: string where "importProcessQueue = ''ingestion''"
definition rawArtifactMediaType :: string where "rawArtifactMediaType = ''application/octet-stream''"

definition idempotencyKeyPattern :: "string \<Rightarrow> bool" where
  "idempotencyKeyPattern k \<longleftrightarrow> pat_run key_char 1 128 k"

definition storageBackendPattern :: "string \<Rightarrow> bool" where
  "storageBackendPattern b \<longleftrightarrow> pat_ident name_char 63 b"

definition validateAuthorizationScope :: "ReserveRequest \<Rightarrow> bool" where
  "validateAuthorizationScope r \<longleftrightarrow> validOpaqueID (rqPrincipalID r) \<and> validOpaqueID (rqWorkspaceID r) \<and>
     validOpaqueID (rqApplicationID r) \<and> idempotencyKeyPattern (rqIdempotencyKey r)"

definition validateAnalysisContext :: "AnalysisContextRequest option \<Rightarrow> bool" where
  "validateAnalysisContext c \<longleftrightarrow>
     (case c of
        None \<Rightarrow> True
      | Some a \<Rightarrow> acrKind a = ''sast'' \<and> acrTargetType a = ''repository'' \<and> validOpaqueID (acrTargetID a))"

definition validateCompleteRequest :: "CompleteRequest \<Rightarrow> bool" where
  "validateCompleteRequest r \<longleftrightarrow> validOpaqueID (cqPrincipalID r) \<and> validOpaqueID (cqWorkspaceID r) \<and>
     validOpaqueID (cqApplicationID r) \<and> validOpaqueID (cqImportID r) \<and> idempotencyKeyPattern (cqIdempotencyKey r)"

definition fingerprintCompletion :: "(string \<Rightarrow> string) \<Rightarrow> CompleteRequest \<Rightarrow> string option" where
  "fingerprintCompletion sha r =
     (if \<not> validateCompleteRequest r then None
      else Some (sha (marshal (JObj [(''import_id'', JStr (cqImportID r))]))))"

text \<open>\<open>hex.DecodeString\<close>, which accepts digits of either case.\<close>

fun hex_decode :: "string \<Rightarrow> string option" where
  "hex_decode [] = Some []"
| "hex_decode [c] = None"
| "hex_decode (a # b # r) =
     (case (hex_val a, hex_val b, hex_decode r) of
        (Some x, Some y, Some t) \<Rightarrow> Some (char_of (16 * x + y) # t)
      | _ \<Rightarrow> None)"

definition expected_digest_ok :: "string \<Rightarrow> bool" where
  "expected_digest_ok v \<longleftrightarrow>
     v = [] \<or> (case hex_decode v of None \<Rightarrow> False | Some d \<Rightarrow> length d = 32 \<and> list_all (\<lambda>c. \<not> is_upper c) v)"

definition opt_field :: "string \<Rightarrow> string \<Rightarrow> (string \<times> json) list" where
  "opt_field k v = (if v = [] then [] else [(k, JStr v)])"

definition fingerprintRequest :: "(string \<Rightarrow> string) \<Rightarrow> ReserveRequest \<Rightarrow> string option" where
  "fingerprintRequest sha r =
     (if \<not> validateAnalysisContext (rqAnalysisContext r) then None
      else if rfName (rqReportFormat r) \<noteq> ''sarif'' \<or> rfVersion (rqReportFormat r) \<notin> {[], ''2.1.0''} then None
      else if rqOriginalFilename r \<noteq> [] \<and>
        (\<not> utf8_valid (rqOriginalFilename r) \<or> has_nul (rqOriginalFilename r) \<or> rune_count (rqOriginalFilename r) > 255) then None
      else if (case rqExpectedSize r of None \<Rightarrow> False | Some n \<Rightarrow> n < 0) then None
      else if \<not> expected_digest_ok (rqExpectedSHA256 r) then None
      else Some (sha (marshal (JObj (
        [(''application_id'', JStr (rqApplicationID r)),
         (''report_format'', JObj ((''name'', JStr (rfName (rqReportFormat r))) # opt_field ''version'' (rfVersion (rqReportFormat r))))] @
        opt_field ''original_filename'' (rqOriginalFilename r) @
        (case rqExpectedSize r of None \<Rightarrow> [] | Some n \<Rightarrow> [(''expected_size_bytes'', JNum (itoa n))]) @
        opt_field ''expected_sha256'' (rqExpectedSHA256 r) @
        (case rqAnalysisContext r of
           None \<Rightarrow> []
         | Some a \<Rightarrow> [(''analysis_context'', JObj [(''analysis_kind'', JStr (acrKind a)),
             (''target'', JObj [(''type'', JStr (acrTargetType a)), (''id'', JStr (acrTargetID a))])])]))))))"

definition lock_key :: "(string \<Rightarrow> string) \<Rightarrow> string \<Rightarrow> string \<Rightarrow> int \<Rightarrow> string \<Rightarrow> string \<Rightarrow> string" where
  "lock_key sha ws prn version operation key = hex_of (sha (marshal (JObj
     [(''workspace_id'', JStr ws), (''principal_id'', JStr prn), (''api_major_version'', JNum (itoa version)),
      (''operation'', JStr operation), (''idempotency_key'', JStr key)])))"

definition idempotencyLockKey :: "(string \<Rightarrow> string) \<Rightarrow> reserveSpec \<Rightarrow> string" where
  "idempotencyLockKey sha sp =
     lock_key sha (impWorkspaceID (rvImport sp)) (rvPrincipalID sp) (rvAPIMajorVersion sp) (rvOperation sp) (rvIdempotencyKey sp)"

definition completionLockKey :: "(string \<Rightarrow> string) \<Rightarrow> completeSpec \<Rightarrow> string" where
  "completionLockKey sha sp =
     lock_key sha (opWorkspaceID (cpOperation sp)) (cpPrincipalID sp) (cpAPIMajorVersion sp) (cpIdempotencyOperation sp)
       (cpIdempotencyKey sp)"

section \<open>Tables\<close>

text \<open>A nullable text column written with \<open>NULLIF(value, '')\<close>.\<close>

definition nullif :: "string \<Rightarrow> string option" where
  "nullif v = (if v = [] then None else Some v)"

definition null_or :: "('a \<Rightarrow> bool) \<Rightarrow> 'a option \<Rightarrow> bool" where
  "null_or P v = (case v of None \<Rightarrow> True | Some x \<Rightarrow> P x)"

record import_row =
  im_workspace :: string
  im_id :: string
  im_application :: string
  im_principal :: string
  im_state :: ImportState
  im_format_name :: string
  im_format_version :: "string option"
  im_filename :: "string option"
  im_expected_size :: "int option"
  im_expected_sha256 :: "string option"
  im_max_bytes :: int
  im_upload_expires_at :: gotime
  im_created_at :: gotime
  im_updated_at :: gotime

definition import_row_ok :: "import_row \<Rightarrow> bool" where
  "import_row_ok r \<longleftrightarrow> chars 3 128 (im_id r) \<and> chars 3 128 (im_principal r) \<and> chars 1 32 (im_format_name r) \<and>
     null_or (chars 1 32) (im_format_version r) \<and> null_or (chars 1 255) (im_filename r) \<and>
     null_or (\<lambda>n. 0 \<le> n \<and> n \<le> im_max_bytes r) (im_expected_size r) \<and> null_or (\<lambda>d. length d = 32) (im_expected_sha256 r) \<and>
     0 < im_max_bytes r \<and> im_created_at r < im_upload_expires_at r \<and> im_created_at r \<le> im_updated_at r"

definition import_key :: "import_row \<Rightarrow> string \<times> string" where
  "import_key r = (im_workspace r, im_id r)"

record context_row =
  ctx_workspace :: string
  ctx_import :: string
  ctx_application :: string
  ctx_body :: AnalysisContext

definition context_row_ok :: "context_row \<Rightarrow> bool" where
  "context_row_ok r \<longleftrightarrow> acKind (ctx_body r) = ''sast'' \<and> acTargetType (ctx_body r) = ''repository'' \<and>
     acAssertionSource (ctx_body r) = ''api_client'' \<and> chars 3 128 (acAssertedBy (ctx_body r)) \<and>
     chars 0 128 (acTargetID (ctx_body r)) \<and> chars 0 128 (acTargetRelationshipID (ctx_body r))"

record artifact_row =
  ar_workspace :: string
  ar_id :: string
  ar_import :: string
  ar_state :: artifact_state
  ar_media_type :: string
  ar_backend :: string
  ar_key :: string
  ar_attempt :: "string option"
  ar_lease :: "gotime option"
  ar_size :: "int option"
  ar_sha256 :: "string option"
  ar_version :: "string option"
  ar_backend_version :: "string option"
  ar_rejection :: "string option"
  ar_created_at :: gotime
  ar_updated_at :: gotime
  ar_committed_at :: "gotime option"

definition artifact_row_ok :: "artifact_row \<Rightarrow> bool" where
  "artifact_row_ok r \<longleftrightarrow> chars 3 128 (ar_id r) \<and> chars 1 128 (ar_media_type r) \<and> storageBackendPattern (ar_backend r) \<and>
     Key_Valid (ar_key r) \<and> null_or (chars 0 128) (ar_attempt r) \<and>
     (ar_state r = ArtifactUploading) = (ar_attempt r \<noteq> None \<and> ar_lease r \<noteq> None) \<and>
     null_or (\<lambda>n. 0 \<le> n) (ar_size r) \<and> null_or (\<lambda>d. length d = 32) (ar_sha256 r) \<and>
     null_or (chars 0 128) (ar_version r) \<and> null_or (chars 0 1024) (ar_backend_version r) \<and> null_or (chars 0 64) (ar_rejection r) \<and>
     (ar_state r \<in> {ArtifactCommitted, ArtifactDeletionPending, ArtifactDeleted}) =
       (ar_size r \<noteq> None \<and> ar_sha256 r \<noteq> None \<and> ar_version r \<noteq> None \<and> ar_committed_at r \<noteq> None) \<and>
     (ar_state r = ArtifactRejected) = (ar_rejection r \<noteq> None) \<and>
     ar_created_at r \<le> ar_updated_at r \<and> null_or (\<lambda>t. ar_created_at r \<le> t) (ar_committed_at r)"

definition artifact_import :: "artifact_row \<Rightarrow> string \<times> string" where
  "artifact_import r = (ar_workspace r, ar_import r)"

record operation_row =
  or_workspace :: string
  or_id :: string
  or_import :: string
  or_principal :: string
  or_kind :: string
  or_state :: OperationState
  or_result :: "string option"
  or_failure_code :: "string option"
  or_failure_title :: "string option"
  or_failure_detail :: "string option"
  or_created_at :: gotime
  or_updated_at :: gotime
  or_started_at :: "gotime option"
  or_finished_at :: "gotime option"

text \<open>\<open>pg_column_size\<close> of the short result documents the code writes is far below its bound, and they
  are objects.\<close>

definition operation_row_ok :: "operation_row \<Rightarrow> bool" where
  "operation_row_ok r \<longleftrightarrow> chars 3 128 (or_id r) \<and> chars 3 128 (or_principal r) \<and> or_kind r = importProcessKind \<and>
     (or_state r = OperationSucceeded) = (or_result r \<noteq> None) \<and>
     (or_state r = OperationFailed) = (or_failure_code r \<noteq> None \<and> or_failure_title r \<noteq> None) \<and>
     (or_state r = OperationFailed \<or> or_failure_code r = None \<and> or_failure_title r = None \<and> or_failure_detail r = None) \<and>
     null_or (pat_ident failure_char 127) (or_failure_code r) \<and> null_or (chars 0 255) (or_failure_title r) \<and>
     null_or (chars 0 2048) (or_failure_detail r) \<and>
     (or_state r \<noteq> OperationRunning \<or> or_started_at r \<noteq> None) \<and>
     (or_state r \<in> {OperationSucceeded, OperationFailed, OperationCancelled}) = (or_finished_at r \<noteq> None) \<and>
     or_created_at r \<le> or_updated_at r \<and> null_or (\<lambda>t. or_created_at r \<le> t) (or_started_at r) \<and>
     null_or (\<lambda>t. or_created_at r \<le> t \<and> null_or (\<lambda>s. s \<le> t) (or_started_at r)) (or_finished_at r)"

definition operation_import :: "operation_row \<Rightarrow> string \<times> string" where
  "operation_import r = (or_workspace r, or_import r)"

text \<open>Both idempotency tables have the same columns and checks; \<open>ky_target\<close> is the import or the operation.\<close>

record key_row =
  ky_workspace :: string
  ky_principal :: string
  ky_version :: int
  ky_operation :: string
  ky_key :: string
  ky_fingerprint :: string
  ky_target :: string
  ky_completed_at :: gotime
  ky_expires_at :: gotime

definition key_row_ok :: "key_row \<Rightarrow> bool" where
  "key_row_ok r \<longleftrightarrow> chars 3 128 (ky_principal r) \<and> 0 < ky_version r \<and> pat_ident capability_char 63 (ky_operation r) \<and>
     idempotencyKeyPattern (ky_key r) \<and> length (ky_fingerprint r) = 32 \<and> ky_completed_at r + 24 * hour \<le> ky_expires_at r"

definition key_scope :: "key_row \<Rightarrow> string list" where
  "key_scope r = [ky_workspace r, ky_principal r, itoa (ky_version r), ky_operation r, ky_key r]"

record ParseWarning =
  pwCode :: string
  pwSourcePointer :: string
  pwFieldCount :: int
  pwFields :: "string list"
  pwFieldsTruncated :: bool

record parse_output_row =
  po_workspace :: string
  po_import :: string
  po_artifact :: string
  po_format_name :: string
  po_format_version :: string
  po_parser_name :: string
  po_parser_version :: string
  po_warnings :: "ParseWarning list"
  po_warnings_truncated :: bool
  po_recorded_at :: gotime
  po_fingerprint :: string

record ingest_db =
  ing_workspaces :: "string list"
  ing_applications :: "(string \<times> string) list"
  ing_links :: "(string \<times> string \<times> string \<times> string) list"
  import_rows :: "import_row list"
  import_contexts :: "context_row list"
  raw_artifacts :: "artifact_row list"
  operations :: "operation_row list"
  create_keys :: "key_row list"
  complete_keys :: "key_row list"
  parse_outputs :: "parse_output_row list"
  job_queue :: queue_db

section \<open>Reservation\<close>

definition optionalDigest :: "string \<Rightarrow> ingest_error + string option" where
  "optionalDigest v =
     (if v = [] then Inr None
      else (case hex_decode v of None \<Rightarrow> Inl IngInvalid | Some d \<Rightarrow> if length d \<noteq> 32 then Inl IngInvalid else Inr (Some d)))"

definition import_row_of :: "Import \<Rightarrow> string option \<Rightarrow> import_row" where
  "import_row_of i d =
     \<lparr>im_workspace = impWorkspaceID i, im_id = impID i, im_application = impApplicationID i, im_principal = impCreatedBy i,
      im_state = impState i, im_format_name = rfName (impReportFormat i), im_format_version = nullif (rfVersion (impReportFormat i)),
      im_filename = nullif (impOriginalFilename i), im_expected_size = impExpectedSize i, im_expected_sha256 = d,
      im_max_bytes = impMaxBytes i, im_upload_expires_at = truncate_us (impUploadExpiresAt i),
      im_created_at = truncate_us (impCreatedAt i), im_updated_at = truncate_us (impUpdatedAt i)\<rparr>"

definition text_of :: "string option \<Rightarrow> string" where
  "text_of v = (case v of None \<Rightarrow> [] | Some s \<Rightarrow> s)"

definition scanImport :: "import_row \<Rightarrow> context_row option \<Rightarrow> Import" where
  "scanImport r c =
     \<lparr>impID = im_id r, impWorkspaceID = im_workspace r, impApplicationID = im_application r, impCreatedBy = im_principal r,
      impState = im_state r, impReportFormat = \<lparr>rfName = im_format_name r, rfVersion = text_of (im_format_version r)\<rparr>,
      impOriginalFilename = text_of (im_filename r), impExpectedSize = im_expected_size r,
      impExpectedSHA256 = hex_of (text_of (im_expected_sha256 r)), impMaxBytes = im_max_bytes r,
      impUploadExpiresAt = im_upload_expires_at r, impCreatedAt = im_created_at r, impUpdatedAt = im_updated_at r,
      impAnalysisContext = map_option ctx_body c\<rparr>"

definition selectReservation :: "string list \<Rightarrow> ingest_db \<Rightarrow> (Import \<times> string) option" where
  "selectReservation scope db =
     (case sql_row (\<lambda>k. key_scope k = scope) (create_keys db) of
        None \<Rightarrow> None
      | Some k \<Rightarrow>
          map_option (\<lambda>r. (scanImport r (sql_row (\<lambda>c. (ctx_workspace c, ctx_import c) = import_key r) (import_contexts db)),
              ky_fingerprint k))
            (sql_row (\<lambda>r. import_key r = (ky_workspace k, ky_target k)) (import_rows db)))"

definition ReplayReservation :: "db_env \<Rightarrow> reservationReplaySpec \<Rightarrow> ingest_db \<Rightarrow> ingest_error + Reservation option" where
  "ReplayReservation env sp db =
     (if \<not> validOpaqueID (rpWorkspaceID sp) \<or> \<not> validOpaqueID (rpPrincipalID sp) \<or> rpAPIMajorVersion sp \<noteq> apiMajorVersion \<or>
         rpOperation sp \<noteq> operationCreateImport \<or> \<not> idempotencyKeyPattern (rpIdempotencyKey sp) then Inl IngInvalid
      else
        (case stmt_fault env ''read import reservation replay'' [rpWorkspaceID sp, rpPrincipalID sp] of
           Some c \<Rightarrow> Inl (IngDB ''read import reservation replay'' c)
         | None \<Rightarrow>
             (case selectReservation [rpWorkspaceID sp, rpPrincipalID sp, itoa (rpAPIMajorVersion sp), rpOperation sp,
                 rpIdempotencyKey sp] db of
                None \<Rightarrow> Inr None
              | Some (i, fp) \<Rightarrow>
                  if fp \<noteq> rpRequestFingerprint sp then Inl IngIdempotencyConflict
                  else Inr (Some \<lparr>resvImport = i, resvCreated = False\<rparr>))))"

definition create_key :: "reserveSpec \<Rightarrow> key_row" where
  "create_key sp =
     \<lparr>ky_workspace = impWorkspaceID (rvImport sp), ky_principal = rvPrincipalID sp, ky_version = rvAPIMajorVersion sp,
      ky_operation = rvOperation sp, ky_key = rvIdempotencyKey sp, ky_fingerprint = rvRequestFingerprint sp,
      ky_target = impID (rvImport sp), ky_completed_at = truncate_us (impCreatedAt (rvImport sp)),
      ky_expires_at = truncate_us (rvIdempotencyExpiresAt sp)\<rparr>"

definition new_artifact :: "reserveSpec \<Rightarrow> artifact_row" where
  "new_artifact sp =
     \<lparr>ar_workspace = impWorkspaceID (rvImport sp), ar_id = rvArtifactID sp, ar_import = impID (rvImport sp),
      ar_state = ArtifactPending, ar_media_type = rawArtifactMediaType, ar_backend = rvStorageBackend sp,
      ar_key = rvStorageKey sp, ar_attempt = None, ar_lease = None, ar_size = None, ar_sha256 = None, ar_version = None,
      ar_backend_version = None, ar_rejection = None, ar_created_at = truncate_us (impCreatedAt (rvImport sp)),
      ar_updated_at = truncate_us (impCreatedAt (rvImport sp)), ar_committed_at = None\<rparr>"

definition insert_artifact :: "artifact_row \<Rightarrow> ingest_db \<Rightarrow> ingest_db option" where
  "insert_artifact a db =
     map_option (\<lambda>rows. db\<lparr>raw_artifacts := rows\<rparr>)
       (insert_row (artifact_import a \<in> import_key ` set (import_rows db)) artifact_row_ok
         [\<lambda>r. [ar_workspace r, ar_id r], \<lambda>r. [ar_workspace r, ar_import r], \<lambda>r. [ar_backend r, ar_key r]] a (raw_artifacts db))"

definition insert_context :: "Import \<Rightarrow> ingest_db \<Rightarrow> ingest_db option" where
  "insert_context i db =
     (case impAnalysisContext i of
        None \<Rightarrow> Some db
      | Some c \<Rightarrow>
          map_option (\<lambda>rows. db\<lparr>import_contexts := rows\<rparr>)
            (insert_row ((impWorkspaceID i, impID i, impApplicationID i) \<in> (\<lambda>r. (im_workspace r, im_id r, im_application r)) ` set (import_rows db) \<and>
                (impWorkspaceID i, impApplicationID i, acTargetID c, acTargetRelationshipID c) \<in> set (ing_links db))
              context_row_ok [\<lambda>r. [ctx_workspace r, ctx_import r]]
              \<lparr>ctx_workspace = impWorkspaceID i, ctx_import = impID i, ctx_application = impApplicationID i,
               ctx_body = c\<lparr>acAcceptedAt := truncate_us (acAcceptedAt c)\<rparr>\<rparr> (import_contexts db)))"

text \<open>\<open>classifyPostgresError\<close>: a missing application is the only violation with an error of its own.\<close>

definition insert_import :: "db_env \<Rightarrow> import_row \<Rightarrow> ingest_db \<Rightarrow> ingest_error + ingest_db" where
  "insert_import env r db =
     (case insert_row True import_row_ok [\<lambda>r. [im_workspace r, im_id r]] r (import_rows db) of
        Some rows \<Rightarrow>
          if (im_workspace r, im_application r) \<notin> set (ing_applications db)
          then (case stmt_fault env ''insert import reservation'' [im_application r] of
                  None \<Rightarrow> Inl ErrApplicationNotFound | Some c \<Rightarrow> Inl (IngDB ''insert import reservation'' c))
          else exec IngDB env ''insert import reservation'' (im_application r # text_of (im_filename r) # [])
            (Some (db\<lparr>import_rows := rows\<rparr>))
      | None \<Rightarrow> exec IngDB env ''insert import reservation'' [] None)"

definition store_Reserve ::
  "(string \<Rightarrow> string) \<Rightarrow> db_env \<Rightarrow> reserveSpec \<Rightarrow> ingest_db \<Rightarrow> ingest_db \<times> (ingest_error + Reservation)" where
  "store_Reserve sha env sp db =
     (let i = rvImport sp in
      transact IngDB env ''begin import reservation'' db
      (and_then (exec IngDB env ''lock import idempotency scope'' [] (Some ())) (\<lambda>_.
       if db_locked env (''open-aspm-import-idempotency:'' @ idempotencyLockKey sha sp) then Inl IngIdempotencyInProgress
       else
         and_then (exec IngDB env ''claim import idempotency key'' [impWorkspaceID i, rvPrincipalID sp]
           (insert_new (impWorkspaceID i \<in> set (ing_workspaces db)) key_row_ok key_scope (create_key sp) (create_keys db))) (\<lambda>(keys, n).
         and_then (exec IngDB env ''read idempotency claim result'' [] (Some ())) (\<lambda>_.
         if n = 0 then
           and_then (exec IngDB env ''read import reservation replay'' [] (selectReservation (key_scope (create_key sp)) db)) (\<lambda>(r, fp).
           if fp \<noteq> rvRequestFingerprint sp then Inl IngIdempotencyConflict
           else Inr (''finish import reservation replay'', db, Inr \<lparr>resvImport = r, resvCreated = False\<rparr>))
         else if rvRequestExceedsLimit sp then Inl IngTooLarge
         else
           and_then (optionalDigest (impExpectedSHA256 i)) (\<lambda>digest.
           and_then (insert_import env (import_row_of i digest) (db\<lparr>create_keys := keys\<rparr>)) (\<lambda>d1.
           and_then (exec IngDB env ''insert import analysis context'' [] (insert_context i d1)) (\<lambda>d2.
           and_then (exec IngDB env ''insert raw artifact reservation'' [] (insert_artifact (new_artifact sp) d2)) (\<lambda>d3.
           Inr (''commit import reservation'', d3, Inr \<lparr>resvImport = i, resvCreated = True\<rparr>))))))))))"

section \<open>Upload attempts\<close>

definition owned :: "string \<Rightarrow> string \<Rightarrow> string \<Rightarrow> string \<Rightarrow> import_row \<Rightarrow> bool" where
  "owned ws i app prn r \<longleftrightarrow> im_workspace r = ws \<and> im_id r = i \<and> im_application r = app \<and> im_principal r = prn"

definition artifact_of :: "string \<Rightarrow> string \<Rightarrow> ingest_db \<Rightarrow> artifact_row option" where
  "artifact_of ws i db = sql_row (\<lambda>a. artifact_import a = (ws, i)) (raw_artifacts db)"

definition set_import :: "string \<Rightarrow> string \<Rightarrow> (ImportState \<Rightarrow> bool) \<Rightarrow> ImportState \<Rightarrow> gotime \<Rightarrow> ingest_db \<Rightarrow> ingest_db option" where
  "set_import ws i P s t db =
     map_option (\<lambda>rows. db\<lparr>import_rows := rows\<rparr>)
       (update_rows import_row_ok (\<lambda>r. import_key r = (ws, i) \<and> P (im_state r))
         (\<lambda>r. r\<lparr>im_state := s, im_updated_at := truncate_us t\<rparr>) (import_rows db))"

definition set_artifact :: "(artifact_row \<Rightarrow> bool) \<Rightarrow> (artifact_row \<Rightarrow> artifact_row) \<Rightarrow> ingest_db \<Rightarrow> ingest_db option" where
  "set_artifact P f db = map_option (\<lambda>rows. db\<lparr>raw_artifacts := rows\<rparr>) (update_rows artifact_row_ok P f (raw_artifacts db))"

definition abandoned_artifact :: "gotime \<Rightarrow> artifact_row \<Rightarrow> artifact_row" where
  "abandoned_artifact t a = a\<lparr>ar_state := ArtifactAbandoned, ar_attempt := None, ar_lease := None, ar_updated_at := truncate_us t\<rparr>"

definition leased_artifact :: "beginUploadSpec \<Rightarrow> artifact_row \<Rightarrow> artifact_row" where
  "leased_artifact sp a =
     a\<lparr>ar_state := ArtifactUploading, ar_attempt := Some (buAttemptID sp), ar_lease := Some (truncate_us (buLeaseExpiresAt sp)),
       ar_updated_at := truncate_us (buStartedAt sp)\<rparr>"

definition fresh_artifact :: "beginUploadSpec \<Rightarrow> artifact_row" where
  "fresh_artifact sp =
     \<lparr>ar_workspace = buWorkspaceID sp, ar_id = buArtifactID sp, ar_import = buImportID sp, ar_state = ArtifactUploading,
      ar_media_type = rawArtifactMediaType, ar_backend = buStorageBackend sp, ar_key = buStorageKey sp,
      ar_attempt = Some (buAttemptID sp), ar_lease = Some (truncate_us (buLeaseExpiresAt sp)), ar_size = None, ar_sha256 = None,
      ar_version = None, ar_backend_version = None, ar_rejection = None, ar_created_at = truncate_us (buStartedAt sp),
      ar_updated_at = truncate_us (buStartedAt sp), ar_committed_at = None\<rparr>"

definition session_of :: "beginUploadSpec \<Rightarrow> import_row \<Rightarrow> string \<Rightarrow> string \<Rightarrow> string \<Rightarrow> string \<Rightarrow> UploadReceipt option \<Rightarrow> uploadSession" where
  "session_of sp r artifact backend key attempt receipt =
     \<lparr>usWorkspaceID = buWorkspaceID sp, usImportID = buImportID sp, usArtifactID = artifact, usStorageBackend = backend,
      usStorageKey = key, usAttemptID = attempt, usMaxBytes = im_max_bytes r, usExpectedSize = im_expected_size r,
      usExpectedSHA256 = hex_of (text_of (im_expected_sha256 r)), usCommitted = receipt\<rparr>"

definition replay_session :: "beginUploadSpec \<Rightarrow> import_row \<Rightarrow> artifact_row option \<Rightarrow> uploadSession option" where
  "replay_session sp r art =
     (case art of
        None \<Rightarrow> None
      | Some a \<Rightarrow>
          (case (ar_size a, ar_sha256 a, ar_committed_at a) of
             (Some n, Some d, Some t) \<Rightarrow>
               if ar_state a \<noteq> ArtifactCommitted \<or> length d \<noteq> 32 then None
               else Some (session_of sp r (ar_id a) (ar_backend a) (ar_key a) []
                 (Some \<lparr>urImportID = buImportID sp, urState = ImportUploaded, urSizeBytes = n, urSHA256 = hex_of d, urUploadedAt = t\<rparr>))
           | _ \<Rightarrow> None))"

definition expire_upload :: "db_env \<Rightarrow> beginUploadSpec \<Rightarrow> artifact_row option \<Rightarrow> ingest_db \<Rightarrow> ingest_error + ingest_db" where
  "expire_upload env sp art db =
     and_then
       (if art \<noteq> None then
          exec IngDB env ''abandon expired raw artifact'' []
            (set_artifact (\<lambda>a. artifact_import a = (buWorkspaceID sp, buImportID sp) \<and> ar_state a \<noteq> ArtifactCommitted)
              (abandoned_artifact (buStartedAt sp)) db)
        else Inr db) (\<lambda>d.
     exec IngDB env ''abandon expired import upload'' []
       (set_import (buWorkspaceID sp) (buImportID sp) (\<lambda>_. True) ImportAbandoned (buStartedAt sp) d))"

definition lease_upload ::
  "db_env \<Rightarrow> beginUploadSpec \<Rightarrow> import_row \<Rightarrow> artifact_row option \<Rightarrow> ingest_db \<Rightarrow> ingest_error + (ingest_db \<times> uploadSession)" where
  "lease_upload env sp r art db =
     (case art of
        None \<Rightarrow>
          and_then (exec IngDB env ''reserve raw artifact'' [] (insert_artifact (fresh_artifact sp) db)) (\<lambda>d.
          Inr (d, session_of sp r (buArtifactID sp) (buStorageBackend sp) (buStorageKey sp) (buAttemptID sp) None))
      | Some a \<Rightarrow>
          if ar_state a = ArtifactUploading \<and> (case ar_lease a of None \<Rightarrow> False | Some l \<Rightarrow> buStartedAt sp < l)
          then Inl ErrUploadInProgress
          else if ar_state a \<noteq> ArtifactUploading \<and> ar_state a \<noteq> ArtifactPending then Inl ErrUploadConflict
          else
            (let sel = (\<lambda>x. ar_workspace x = buWorkspaceID sp \<and> ar_id x = ar_id a \<and> ar_import x = buImportID sp \<and>
                          (ar_state x = ArtifactPending \<or> ar_state x = ArtifactUploading)) in
             and_then (exec IngDB env ''renew raw artifact upload lease'' [] (set_artifact sel (leased_artifact sp) db)) (\<lambda>d.
             if stmt_fault env ''read upload lease result'' [] \<noteq> None \<or> sql_count sel (raw_artifacts db) \<noteq> 1
             then Inl ErrUploadLeaseLost
             else Inr (d, session_of sp r (ar_id a) (ar_backend a) (ar_key a) (buAttemptID sp) None))))"

definition BeginUpload :: "db_env \<Rightarrow> beginUploadSpec \<Rightarrow> ingest_db \<Rightarrow> ingest_db \<times> (ingest_error + uploadSession)" where
  "BeginUpload env sp db =
     transact IngDB env ''begin raw artifact upload'' db
     (and_then (exec IngDB env ''read import upload reservation''
         [buWorkspaceID sp, buImportID sp, buApplicationID sp, buPrincipalID sp] (Some ())) (\<lambda>_.
      case sql_row (owned (buWorkspaceID sp) (buImportID sp) (buApplicationID sp) (buPrincipalID sp)) (import_rows db) of
        None \<Rightarrow> Inl ErrImportNotFound
      | Some r \<Rightarrow>
          (let art = artifact_of (buWorkspaceID sp) (buImportID sp) db in
           if im_state r = ImportUploaded then
             (case replay_session sp r art of
                None \<Rightarrow> Inl (IngIntegrity ''read committed raw artifact'')
              | Some s \<Rightarrow> Inr (''finish upload replay lookup'', db, Inr s))
           else if im_state r \<noteq> ImportAwaitingUpload \<and> im_state r \<noteq> ImportUploading then Inl ErrUploadConflict
           else if \<not> buStartedAt sp < im_upload_expires_at r then
             and_then (expire_upload env sp art db) (\<lambda>d.
             Inr (''commit expired import upload'', d, Inl ErrUploadExpired))
           else
             and_then (lease_upload env sp r art db) (\<lambda>(d, s).
             and_then (exec IngDB env ''mark import uploading'' []
               (set_import (buWorkspaceID sp) (buImportID sp) (\<lambda>_. True) ImportUploading (buStartedAt sp) d)) (\<lambda>d'.
             Inr (''commit raw artifact upload lease'', d', Inr s))))))"

definition current_attempt :: "string \<Rightarrow> string \<Rightarrow> string \<Rightarrow> string \<Rightarrow> artifact_row \<Rightarrow> bool" where
  "current_attempt ws i artifact attempt a \<longleftrightarrow> ar_workspace a = ws \<and> ar_import a = i \<and> ar_id a = artifact \<and>
     ar_state a = ArtifactUploading \<and> ar_attempt a = Some attempt"

text \<open>An update of the artifact followed by an update of an import that is \<open>uploading\<close>, each required to
  affect exactly one row: the common shape of \<open>CommitUpload\<close> and \<open>EndUpload\<close>.\<close>

definition finish_attempt ::
  "db_env \<Rightarrow> string \<Rightarrow> string \<Rightarrow> string list \<Rightarrow> (artifact_row \<Rightarrow> bool) \<Rightarrow> (artifact_row \<Rightarrow> artifact_row) \<Rightarrow> string \<Rightarrow> string \<Rightarrow> ImportState \<Rightarrow> gotime
     \<Rightarrow> ingest_db \<Rightarrow> ingest_error + ingest_db" where
  "finish_attempt env msgA msgI ps sel f ws i s t db =
     and_then (exec IngDB env msgA ps (set_artifact sel f db)) (\<lambda>d1.
     if stmt_fault env (msgA @ '' result'') [] \<noteq> None \<or> sql_count sel (raw_artifacts db) \<noteq> 1 then Inl ErrUploadLeaseLost
     else
       and_then (exec IngDB env msgI [] (set_import ws i (\<lambda>x. x = ImportUploading) s t d1)) (\<lambda>d2.
       if stmt_fault env (msgI @ '' result'') [] \<noteq> None \<or>
          sql_count (\<lambda>r. import_key r = (ws, i) \<and> im_state r = ImportUploading) (import_rows d1) \<noteq> 1 then Inl ErrUploadLeaseLost
       else Inr d2))"

definition committed_artifact :: "commitUploadSpec \<Rightarrow> string \<Rightarrow> artifact_row \<Rightarrow> artifact_row" where
  "committed_artifact sp digest a =
     a\<lparr>ar_state := ArtifactCommitted, ar_attempt := None, ar_lease := None, ar_size := Some (cuSizeBytes sp), ar_sha256 := Some digest,
       ar_version := Some (cuStorageVersion sp), ar_backend_version := nullif (cuBackendVersion sp),
       ar_updated_at := truncate_us (cuCommittedAt sp), ar_committed_at := Some (truncate_us (cuCommittedAt sp))\<rparr>"

definition CommitUpload :: "db_env \<Rightarrow> commitUploadSpec \<Rightarrow> ingest_db \<Rightarrow> ingest_db \<times> (ingest_error + UploadReceipt)" where
  "CommitUpload env sp db =
     (case hex_decode (cuSHA256 sp) of
        None \<Rightarrow> (db, Inl IngInvalid)
      | Some digest \<Rightarrow>
          if length digest \<noteq> 32 \<or> cuSizeBytes sp < 0 \<or> cuStorageVersion sp = [] \<or> cuCommittedAt sp = 0 then (db, Inl IngInvalid)
          else
            transact IngDB env ''begin raw artifact commit'' db
            (and_then (finish_attempt env ''commit raw artifact record'' ''publish uploaded import''
                [cuStorageVersion sp, cuBackendVersion sp]
                (\<lambda>a. current_attempt (cuWorkspaceID sp) (cuImportID sp) (cuArtifactID sp) (cuAttemptID sp) a \<and>
                   (case ar_lease a of None \<Rightarrow> False | Some l \<Rightarrow> truncate_us (cuCommittedAt sp) \<le> l))
                (committed_artifact sp digest) (cuWorkspaceID sp) (cuImportID sp) ImportUploaded (cuCommittedAt sp) db) (\<lambda>d.
             Inr (''commit uploaded import'', d, Inr \<lparr>urImportID = cuImportID sp, urState = ImportUploaded,
               urSizeBytes = cuSizeBytes sp, urSHA256 = cuSHA256 sp, urUploadedAt = cuCommittedAt sp\<rparr>))))"

definition ended_artifact :: "endUploadSpec \<Rightarrow> artifact_row \<Rightarrow> artifact_row" where
  "ended_artifact sp a =
     a\<lparr>ar_state := (if euRejectCode sp \<noteq> [] then ArtifactRejected else ArtifactPending), ar_attempt := None, ar_lease := None,
       ar_rejection := nullif (euRejectCode sp), ar_updated_at := truncate_us (euEndedAt sp)\<rparr>"

definition EndUpload :: "db_env \<Rightarrow> endUploadSpec \<Rightarrow> ingest_db \<Rightarrow> ingest_db \<times> (ingest_error + unit)" where
  "EndUpload env sp db =
     transact IngDB env ''begin ending raw artifact upload'' db
     (and_then (finish_attempt env ''end raw artifact upload'' ''end import upload'' []
         (current_attempt (euWorkspaceID sp) (euImportID sp) (euArtifactID sp) (euAttemptID sp)) (ended_artifact sp)
         (euWorkspaceID sp) (euImportID sp) (if euRejectCode sp \<noteq> [] then ImportRejected else ImportAwaitingUpload)
         (euEndedAt sp) db) (\<lambda>d.
      Inr (''commit end of raw artifact upload'', d, Inr ())))"

section \<open>Completion\<close>

definition complete_key :: "completeSpec \<Rightarrow> key_row" where
  "complete_key sp =
     \<lparr>ky_workspace = opWorkspaceID (cpOperation sp), ky_principal = cpPrincipalID sp, ky_version = cpAPIMajorVersion sp,
      ky_operation = cpIdempotencyOperation sp, ky_key = cpIdempotencyKey sp, ky_fingerprint = cpRequestFingerprint sp,
      ky_target = opID (cpOperation sp), ky_completed_at = truncate_us (opCreatedAt (cpOperation sp)),
      ky_expires_at = truncate_us (cpIdempotencyExpiresAt sp)\<rparr>"

definition operation_row_of :: "Operation \<Rightarrow> operation_row" where
  "operation_row_of x =
     \<lparr>or_workspace = opWorkspaceID x, or_id = opID x, or_import = opImportID x, or_principal = opCreatedBy x, or_kind = opKind x,
      or_state = opState x, or_result = None, or_failure_code = None, or_failure_title = None, or_failure_detail = None,
      or_created_at = truncate_us (opCreatedAt x), or_updated_at = truncate_us (opUpdatedAt x), or_started_at = None, or_finished_at = None\<rparr>"

definition insert_operation :: "Operation \<Rightarrow> ingest_db \<Rightarrow> ingest_db option" where
  "insert_operation x db =
     map_option (\<lambda>rows. db\<lparr>operations := rows\<rparr>)
       (insert_row ((opWorkspaceID x, opImportID x) \<in> import_key ` set (import_rows db)) operation_row_ok
         [\<lambda>r. [or_workspace r, or_id r], \<lambda>r. [or_workspace r, or_import r, or_kind r]] (operation_row_of x) (operations db))"

definition selectCompletion :: "completeSpec \<Rightarrow> ingest_db \<Rightarrow> (Operation \<times> string) option" where
  "selectCompletion sp db =
     (case sql_row (\<lambda>k. key_scope k = key_scope (complete_key sp)) (complete_keys db) of
        None \<Rightarrow> None
      | Some k \<Rightarrow>
          (case sql_row (\<lambda>x. or_workspace x = ky_workspace k \<and> or_id x = ky_target k) (operations db) of
             None \<Rightarrow> None
           | Some x \<Rightarrow>
               if list_ex (owned (or_workspace x) (or_import x) (cpApplicationID sp) (cpPrincipalID sp)) (import_rows db)
               then Some (\<lparr>opID = or_id x, opWorkspaceID = or_workspace x, opImportID = or_import x, opCreatedBy = or_principal x,
                 opKind = or_kind x, opState = OperationQueued, opCreatedAt = or_created_at x, opUpdatedAt = ky_completed_at k\<rparr>,
                 ky_fingerprint k)
               else None))"

definition process_job :: "completeSpec \<Rightarrow> Spec" where
  "process_job sp =
     \<lparr>specWorkspaceID = opWorkspaceID (cpOperation sp), specOperationID = opID (cpOperation sp),
      specInitiatingPrincipalID = cpPrincipalID sp, specSystemCapability = CapabilityImportsProcess, specQueue = importProcessQueue,
      specKind = importProcessKind, specSchemaVersion = 1,
      specPayload = marshal (JObj [(''import_id'', JStr (opImportID (cpOperation sp)))]), specIdempotencyKey = opID (cpOperation sp),
      specPriority = 0, specAvailableAt = 0, specMaxAttempts = cpProcessMaxAttempts sp\<rparr>"

definition queue_import ::
  "(string \<Rightarrow> string) \<Rightarrow> (string \<Rightarrow> string option) \<Rightarrow> db_env \<Rightarrow> string option \<Rightarrow> completeSpec \<Rightarrow> ingest_db \<Rightarrow> ingest_error + ingest_db" where
  "queue_import sha jsonb env rnd sp db =
     (let x = cpOperation sp in
      and_then (exec IngDB env ''insert import operation'' [] (insert_operation x db)) (\<lambda>d1.
      and_then (case EnqueueTx sha jsonb env rnd (process_job sp) (job_queue d1) of
          Inl e \<Rightarrow> Inl (IngQueue e) | Inr (q, _) \<Rightarrow> Inr (d1\<lparr>job_queue := q\<rparr>)) (\<lambda>d2.
      and_then (exec IngDB env ''queue import processing'' []
        (set_import (opWorkspaceID x) (opImportID x) (\<lambda>s. s = ImportUploaded) ImportQueued (opUpdatedAt x) d2)) (\<lambda>d3.
      and_then (exec IngDB env ''read import queue transition result'' [] (Some ())) (\<lambda>_.
      if sql_count (\<lambda>r. import_key r = (opWorkspaceID x, opImportID x) \<and> im_state r = ImportUploaded) (import_rows d2) \<noteq> 1
      then Inl ErrCompletionConflict else Inr d3)))))"

definition store_Complete ::
  "(string \<Rightarrow> string) \<Rightarrow> (string \<Rightarrow> string option) \<Rightarrow> db_env \<Rightarrow> string option \<Rightarrow> completeSpec \<Rightarrow> ingest_db
     \<Rightarrow> ingest_db \<times> (ingest_error + Completion)" where
  "store_Complete sha jsonb env rnd sp db =
     (let x = cpOperation sp in
      transact IngDB env ''begin import completion'' db
      (and_then (exec IngDB env ''lock import completion idempotency scope'' [] (Some ())) (\<lambda>_.
       if db_locked env (''open-aspm-import-idempotency:'' @ completionLockKey sha sp) then Inl IngIdempotencyInProgress
       else
         and_then (exec IngDB env ''claim import completion idempotency key'' [opWorkspaceID x, cpPrincipalID sp]
           (insert_new (opWorkspaceID x \<in> set (ing_workspaces db)) key_row_ok key_scope (complete_key sp) (complete_keys db))) (\<lambda>(keys, n).
         and_then (exec IngDB env ''read import completion claim result'' [] (Some ())) (\<lambda>_.
         if n = 0 then
           (case stmt_fault env ''read import completion replay'' [cpApplicationID sp] of
              Some c \<Rightarrow> Inl (IngDB ''read import completion replay'' c)
            | None \<Rightarrow>
                (case selectCompletion sp db of
                   None \<Rightarrow> Inl ErrImportNotFound
                 | Some (prev, fp) \<Rightarrow>
                     if fp \<noteq> cpRequestFingerprint sp then Inl IngIdempotencyConflict
                     else Inr (''finish import completion replay'', db, Inr \<lparr>coOperation = prev, coCreated = False\<rparr>)))
         else
           and_then (exec IngDB env ''read import for completion'' [opImportID x, cpApplicationID sp] (Some ())) (\<lambda>_.
           case sql_row (owned (opWorkspaceID x) (opImportID x) (cpApplicationID sp) (cpPrincipalID sp)) (import_rows db) of
             None \<Rightarrow> Inl ErrImportNotFound
           | Some r \<Rightarrow>
               if im_state r \<noteq> ImportUploaded \<or>
                  map_option ar_state (artifact_of (opWorkspaceID x) (opImportID x) db) \<noteq> Some ArtifactCommitted
               then Inl ErrCompletionConflict
               else
                 and_then (queue_import sha jsonb env rnd sp (db\<lparr>complete_keys := keys\<rparr>)) (\<lambda>d.
                 Inr (''commit import completion'', d, Inr \<lparr>coOperation = x, coCreated = True\<rparr>))))))))"

end
