(* ===== verification/Processing.thy ===== *)
theory Processing
  imports Ingestion
begin

text \<open>
  Processing of a completed import at the store (\<open>internal/ingestion/processing.go\<close>,
  \<open>internal/ingestion/processing_postgres.go\<close>, migration 00007): the scope lookup that precedes
  authorization, the transitions of import and operation, and the retained parser diagnostics.
\<close>

section \<open>Types and validation\<close>

record ProcessingIdentity =
  piWorkspaceID :: string
  piOperationID :: string
  piImportID :: string
  piPrincipalID :: string
  piJobCapability :: string

record ProcessingTarget =
  ptWorkspaceID :: string
  ptOperationID :: string
  ptImportID :: string
  ptApplicationID :: string
  ptState :: OperationState
  ptFailureCode :: string

record ProcessingSource = ProcessingTarget +
  psAnalysisContext :: "AnalysisContext option"
  psRawArtifactID :: string
  psReportFormat :: ReportFormat
  psStorageBackend :: string
  psStorageKey :: string
  psStorageVersion :: string
  psBackendVersion :: string
  psSizeBytes :: int
  psSHA256 :: string
  psMaxBytes :: int
  psReceivedAt :: gotime

record ProcessingFailure =
  pfCode :: string
  pfTitle :: string
  pfDetail :: string

record ParseOutputSpec =
  poWorkspaceID :: string
  poImportID :: string
  poRawArtifactID :: string
  poFormatName :: string
  poFormatVersion :: string
  poParserName :: string
  poParserVersion :: string
  poWarnings :: "ParseWarning list"
  poWarningsTruncated :: bool
  poRecordedAt :: gotime

definition validateProcessingIdentity :: "ProcessingIdentity \<Rightarrow> bool" where
  "validateProcessingIdentity p \<longleftrightarrow> validOpaqueID (piWorkspaceID p) \<and> validOpaqueID (piOperationID p) \<and>
     validOpaqueID (piImportID p) \<and> validOpaqueID (piPrincipalID p) \<and> piJobCapability p = CapabilityImportsProcess"

definition domainNamePattern :: "string \<Rightarrow> bool" where
  "domainNamePattern v \<longleftrightarrow> pat_ident name_char 127 v"

definition warning_valid :: "ParseWarning \<Rightarrow> bool" where
  "warning_valid w \<longleftrightarrow> domainNamePattern (pwCode w) \<and> length (pwCode w) \<le> 64 \<and> validText (pwSourcePointer w) 0 1024 \<and>
     0 < pwFieldCount w \<and> length (pwFields w) \<le> 64 \<and> int (length (pwFields w)) \<le> pwFieldCount w \<and>
     list_all (\<lambda>f. f \<noteq> [] \<and> utf8_valid f \<and> length f \<le> 1048576 \<and> \<not> has_nul f) (pwFields w)"

definition warning_json :: "ParseWarning \<Rightarrow> json" where
  "warning_json w = JObj [(''code'', JStr (pwCode w)), (''source_pointer'', JStr (pwSourcePointer w)),
     (''field_count'', JNum (itoa (pwFieldCount w))), (''fields'', JArr (map JStr (pwFields w))),
     (''fields_truncated'', JBool (pwFieldsTruncated w))]"

definition canonicalizeParseOutput :: "(string \<Rightarrow> string) \<Rightarrow> ParseOutputSpec \<Rightarrow> (ParseWarning list \<times> string) option" where
  "canonicalizeParseOutput sha sp =
     (if \<not> validOpaqueID (poWorkspaceID sp) \<or> \<not> validOpaqueID (poImportID sp) \<or> \<not> validOpaqueID (poRawArtifactID sp) \<or>
         \<not> validText (poFormatName sp) 1 32 \<or> \<not> validText (poFormatVersion sp) 1 32 \<or> \<not> domainNamePattern (poParserName sp) \<or>
         \<not> validText (poParserVersion sp) 1 64 \<or> poRecordedAt sp = 0 \<or> length (poWarnings sp) > 1000 then None
      else if \<not> list_all warning_valid (poWarnings sp) then None
      else Some (poWarnings sp, sha (marshal (JObj
        [(''workspace_id'', JStr (poWorkspaceID sp)), (''import_id'', JStr (poImportID sp)),
         (''raw_artifact_id'', JStr (poRawArtifactID sp)), (''format_name'', JStr (poFormatName sp)),
         (''format_version'', JStr (poFormatVersion sp)), (''parser_name'', JStr (poParserName sp)),
         (''parser_version'', JStr (poParserVersion sp)), (''warnings'', JArr (map warning_json (poWarnings sp))),
         (''warnings_truncated'', JBool (poWarningsTruncated sp))]))))"

definition validFailure :: "ProcessingFailure \<Rightarrow> bool" where
  "validFailure f \<longleftrightarrow> pat_ident failure_char 127 (pfCode f) \<and> validText (pfTitle f) 1 255 \<and>
     (pfDetail f = [] \<or> length (pfDetail f) \<le> 2048 \<and> \<not> has_nul (pfDetail f))"

section \<open>Reading the work\<close>

definition its_operation :: "ProcessingIdentity \<Rightarrow> operation_row \<Rightarrow> bool" where
  "its_operation p x \<longleftrightarrow> or_workspace x = piWorkspaceID p \<and> or_id x = piOperationID p \<and> or_import x = piImportID p \<and>
     or_principal x = piPrincipalID p \<and> or_kind x = importProcessKind"

definition import_of :: "string \<Rightarrow> string \<Rightarrow> ingest_db \<Rightarrow> import_row option" where
  "import_of ws i db = sql_row (\<lambda>r. import_key r = (ws, i)) (import_rows db)"

text \<open>\<open>operations JOIN imports\<close>, the source of every processing statement.\<close>

definition work_item :: "ProcessingIdentity \<Rightarrow> ingest_db \<Rightarrow> (operation_row \<times> import_row) option" where
  "work_item p db =
     (case sql_row (its_operation p) (operations db) of
        None \<Rightarrow> None
      | Some x \<Rightarrow> map_option (Pair x) (import_of (or_workspace x) (or_import x) db))"

definition ResolveProcessingTarget :: "db_env \<Rightarrow> ProcessingIdentity \<Rightarrow> ingest_db \<Rightarrow> ingest_error + ProcessingTarget" where
  "ResolveProcessingTarget env p db =
     (if \<not> validateProcessingIdentity p then Inl IngInvalid
      else
        (case stmt_fault env ''resolve import processing target'' [] of
           Some c \<Rightarrow> Inl (IngDB ''resolve import processing target'' c)
         | None \<Rightarrow>
             (case work_item p db of
                None \<Rightarrow> Inl ErrProcessingNotFound
              | Some (x, r) \<Rightarrow> Inr \<lparr>ptWorkspaceID = or_workspace x, ptOperationID = or_id x, ptImportID = or_import x,
                  ptApplicationID = im_application r, ptState = or_state x, ptFailureCode = text_of (or_failure_code x)\<rparr>)))"

definition terminal_operation :: "OperationState \<Rightarrow> bool" where
  "terminal_operation s \<longleftrightarrow> s = OperationSucceeded \<or> s = OperationFailed \<or> s = OperationCancelled"

text \<open>The columns scanned before the state is examined; format version, backend version, digest and
  context are filled in afterwards.\<close>

definition scanned_source :: "operation_row \<Rightarrow> import_row \<Rightarrow> artifact_row \<Rightarrow> ProcessingSource" where
  "scanned_source x r a =
     \<lparr>ptWorkspaceID = or_workspace x, ptOperationID = or_id x, ptImportID = or_import x, ptApplicationID = im_application r,
      ptState = or_state x, ptFailureCode = text_of (or_failure_code x), psAnalysisContext = None, psRawArtifactID = ar_id a,
      psReportFormat = \<lparr>rfName = im_format_name r, rfVersion = []\<rparr>, psStorageBackend = ar_backend a, psStorageKey = ar_key a,
      psStorageVersion = text_of (ar_version a), psBackendVersion = [], psSizeBytes = (case ar_size a of None \<Rightarrow> 0 | Some n \<Rightarrow> n),
      psSHA256 = [], psMaxBytes = im_max_bytes r, psReceivedAt = (case ar_committed_at a of None \<Rightarrow> 0 | Some t \<Rightarrow> t)\<rparr>"

definition full_source :: "operation_row \<Rightarrow> import_row \<Rightarrow> artifact_row \<Rightarrow> context_row option \<Rightarrow> ProcessingSource" where
  "full_source x r a c =
     (scanned_source x r a)\<lparr>psReportFormat := \<lparr>rfName = im_format_name r, rfVersion = text_of (im_format_version r)\<rparr>,
       psBackendVersion := text_of (ar_backend_version a), psSHA256 := hex_of (text_of (ar_sha256 a)),
       psAnalysisContext := map_option ctx_body c\<rparr>"

definition set_operation :: "string \<Rightarrow> string \<Rightarrow> (OperationState \<Rightarrow> bool) \<Rightarrow> (operation_row \<Rightarrow> operation_row) \<Rightarrow> ingest_db \<Rightarrow> ingest_db option" where
  "set_operation ws i P f db =
     map_option (\<lambda>rows. db\<lparr>operations := rows\<rparr>)
       (update_rows operation_row_ok (\<lambda>x. or_workspace x = ws \<and> or_id x = i \<and> P (or_state x)) f (operations db))"

section \<open>Transitions\<close>

definition running_operation :: "gotime \<Rightarrow> operation_row \<Rightarrow> operation_row" where
  "running_operation t x =
     x\<lparr>or_state := OperationRunning, or_started_at := Some (case or_started_at x of None \<Rightarrow> truncate_us t | Some s \<Rightarrow> s),
       or_updated_at := truncate_us t\<rparr>"

definition BeginProcessing :: "db_env \<Rightarrow> ProcessingIdentity \<Rightarrow> gotime \<Rightarrow> ingest_db \<Rightarrow> ingest_db \<times> (ingest_error + ProcessingSource)" where
  "BeginProcessing env p startedAt db =
     (if \<not> validateProcessingIdentity p \<or> startedAt = 0 then (db, Inl IngInvalid)
      else
        transact IngDB env ''begin import processing'' db
        (and_then (exec IngDB env ''lock import processing source'' [] (Some ())) (\<lambda>_.
         case work_item p db of
           None \<Rightarrow> Inl ErrProcessingNotFound
         | Some (x, r) \<Rightarrow>
             (case sql_row (\<lambda>a. artifact_import a = import_key r \<and> ar_state a = ArtifactCommitted) (raw_artifacts db) of
                None \<Rightarrow> Inl ErrProcessingNotFound
              | Some a \<Rightarrow>
                  if terminal_operation (or_state x) then
                    Inr (''finish terminal import processing lookup'', db, Inr (scanned_source x r a))
                  else if (or_state x \<noteq> OperationQueued \<and> or_state x \<noteq> OperationRunning) \<or>
                    (im_state r \<noteq> ImportQueued \<and> im_state r \<noteq> ImportProcessing) \<or> ar_id a = [] \<or>
                    psSizeBytes (scanned_source x r a) < 0 \<or> length (text_of (ar_sha256 a)) \<noteq> 32 then Inl ErrProcessingConflict
                  else
                    and_then (exec IngDB env ''mark operation running'' []
                      (set_operation (piWorkspaceID p) (piOperationID p) (\<lambda>s. s = OperationQueued \<or> s = OperationRunning)
                        (running_operation startedAt) db)) (\<lambda>d1.
                    and_then (exec IngDB env ''mark import processing'' []
                      (set_import (piWorkspaceID p) (piImportID p) (\<lambda>s. s = ImportQueued \<or> s = ImportProcessing) ImportProcessing
                        startedAt d1)) (\<lambda>d2.
                    Inr (''commit import processing start'', d2,
                      Inr ((full_source x r a (sql_row (\<lambda>c. (ctx_workspace c, ctx_import c) = import_key r) (import_contexts db)))
                        \<lparr>ptState := OperationRunning\<rparr>)))))))) "

definition output_key :: "parse_output_row \<Rightarrow> string list" where
  "output_key r = [po_workspace r, po_import r, po_parser_name r, po_parser_version r]"

definition warning_row_ok :: "ParseWarning \<Rightarrow> bool" where
  "warning_row_ok w \<longleftrightarrow> pat_ident name_char 63 (pwCode w) \<and> chars 0 1024 (pwSourcePointer w) \<and> 0 < pwFieldCount w \<and>
     pwFieldCount w < 2 ^ 31 \<and> length (pwFields w) \<le> 64 \<and> list_all db_text (pwFields w)"

definition parse_output_ok :: "parse_output_row \<Rightarrow> bool" where
  "parse_output_ok r \<longleftrightarrow> chars 1 32 (po_format_name r) \<and> chars 1 32 (po_format_version r) \<and>
     pat_ident name_char 63 (po_parser_name r) \<and> chars 1 64 (po_parser_version r) \<and> length (po_fingerprint r) = 32"

definition output_row_of :: "ParseOutputSpec \<Rightarrow> ParseWarning list \<Rightarrow> string \<Rightarrow> parse_output_row" where
  "output_row_of sp ws fp =
     \<lparr>po_workspace = poWorkspaceID sp, po_import = poImportID sp, po_artifact = poRawArtifactID sp, po_format_name = poFormatName sp,
      po_format_version = poFormatVersion sp, po_parser_name = poParserName sp, po_parser_version = poParserVersion sp,
      po_warnings = ws, po_warnings_truncated = poWarningsTruncated sp, po_recorded_at = truncate_us (poRecordedAt sp), po_fingerprint = fp\<rparr>"

text \<open>The output row carries its warnings, which are inserted by one statement each in the same transaction.\<close>

definition RecordParseOutput :: "(string \<Rightarrow> string) \<Rightarrow> db_env \<Rightarrow> ParseOutputSpec \<Rightarrow> ingest_db \<Rightarrow> ingest_db \<times> (ingest_error + unit)" where
  "RecordParseOutput sha env sp db =
     (case canonicalizeParseOutput sha sp of
        None \<Rightarrow> (db, Inl IngInvalid)
      | Some (ws, fp) \<Rightarrow>
          transact IngDB env ''begin recording parser output'' db
          (and_then (exec IngDB env ''insert parser output'' []
             (insert_new ((poWorkspaceID sp, poRawArtifactID sp, poImportID sp) \<in>
                 (\<lambda>a. (ar_workspace a, ar_id a, ar_import a)) ` set (raw_artifacts db)) parse_output_ok output_key
               (output_row_of sp ws fp) (parse_outputs db))) (\<lambda>(rows, n).
           and_then (exec IngDB env ''read parser output insert result'' [] (Some ())) (\<lambda>_.
           if n = 0 then
             and_then (exec IngDB env ''read existing parser output'' []
               (sql_row (\<lambda>r. output_key r = output_key (output_row_of sp ws fp)) (parse_outputs db))) (\<lambda>r.
             if po_fingerprint r \<noteq> fp then Inl ErrParseOutputConflict else Inr (''commit'', db, Inr ()))
           else
             and_then (exec IngDB env ''insert parser warning'' []
               (if list_all warning_row_ok ws then Some (db\<lparr>parse_outputs := rows\<rparr>) else None)) (\<lambda>d.
             Inr (''commit parser output'', d, Inr ()))))))"

definition result_document :: "string \<Rightarrow> int \<Rightarrow> string" where
  "result_document i n = marshal (JObj [(''import_id'', JStr i), (''import_state'', JStr ''succeeded''), (''scans_created'', JNum (itoa n))])"

text \<open>\<open>json.Unmarshal\<close> of a stored document into the three fields and their comparison: a member sets the
  field whose name it equals up to case, later members override earlier ones, \<open>null\<close> changes nothing, and
  a value of another type is an error.  Keys fold to upper case; the Kelvin sign folds to K and the long
  s to S.\<close>

fun fold_name :: "string \<Rightarrow> string" where
  "fold_name (a # b # c # r) =
     (if [a, b, c] = [CHR 0xE2, CHR 0x84, CHR 0xAA] then CHR ''K'' # fold_name r
      else if [a, b] = [CHR 0xC5, CHR 0xBF] then CHR ''S'' # fold_name (c # r)
      else (if is_lower a then char_of (byte a - 32) else a) # fold_name (b # c # r))"
| "fold_name [a, b] =
     (if [a, b] = [CHR 0xC5, CHR 0xBF] then ''S'' else [if is_lower a then char_of (byte a - 32) else a,
        if is_lower b then char_of (byte b - 32) else b])"
| "fold_name [a] = [if is_lower a then char_of (byte a - 32) else a]"
| "fold_name [] = []"

definition digits_value :: "string \<Rightarrow> int option" where
  "digits_value ds =
     (if ds \<noteq> [] \<and> list_all is_digit ds then Some (foldl (\<lambda>n c. 10 * n + int (byte c - 48)) 0 ds) else None)"

definition atoi64 :: "string \<Rightarrow> int option" where
  "atoi64 lit =
     (case (case lit of CHR ''-'' # ds \<Rightarrow> map_option uminus (digits_value ds) | _ \<Rightarrow> digits_value lit) of
        None \<Rightarrow> None
      | Some n \<Rightarrow> if - (2 ^ 63) \<le> n \<and> n < 2 ^ 63 then Some n else None)"

fun result_fields :: "(string \<times> json) list \<Rightarrow> string \<times> string \<times> int \<Rightarrow> (string \<times> string \<times> int) option" where
  "result_fields [] acc = Some acc"
| "result_fields ((k, v) # ms) (i, st, n) =
     (if fold_name k = ''IMPORT_ID'' then
        (case v of JStr s \<Rightarrow> result_fields ms (s, st, n) | JNull \<Rightarrow> result_fields ms (i, st, n) | _ \<Rightarrow> None)
      else if fold_name k = ''IMPORT_STATE'' then
        (case v of JStr s \<Rightarrow> result_fields ms (i, s, n) | JNull \<Rightarrow> result_fields ms (i, st, n) | _ \<Rightarrow> None)
      else if fold_name k = ''SCANS_CREATED'' then
        (case v of
           JNum lit \<Rightarrow> (case atoi64 lit of None \<Rightarrow> None | Some m \<Rightarrow> result_fields ms (i, st, m))
         | JNull \<Rightarrow> result_fields ms (i, st, n) | _ \<Rightarrow> None)
      else result_fields ms (i, st, n))"

definition same_result :: "string \<Rightarrow> string \<Rightarrow> int \<Rightarrow> bool" where
  "same_result raw i n =
     (case json_parse raw of
        Some (JObj ms) \<Rightarrow> result_fields ms ([], [], 0) = Some (i, ''succeeded'', n)
      | _ \<Rightarrow> False)"

definition CompleteProcessing ::
  "(string \<Rightarrow> string option) \<Rightarrow> db_env \<Rightarrow> ProcessingIdentity \<Rightarrow> int \<Rightarrow> gotime \<Rightarrow> ingest_db
     \<Rightarrow> ingest_db \<times> (ingest_error + unit)" where
  "CompleteProcessing jsonb env p n finishedAt db =
     (if \<not> validateProcessingIdentity p \<or> n < 0 \<or> finishedAt = 0 then (db, Inl IngInvalid)
      else
        transact IngDB env ''begin completing import processing'' db
        (and_then (exec IngDB env ''lock successful import processing'' [] (Some ())) (\<lambda>_.
         case work_item p db of
           None \<Rightarrow> Inl ErrProcessingNotFound
         | Some (x, r) \<Rightarrow>
             if or_state x = OperationSucceeded then
               (if \<not> same_result (text_of (or_result x)) (piImportID p) n \<or> im_state r \<noteq> ImportSucceeded then Inl ErrProcessingConflict
                else Inr (''commit'', db, Inr ()))
             else if or_state x \<noteq> OperationRunning \<or> im_state r \<noteq> ImportProcessing then Inl ErrProcessingConflict
             else
               and_then (exec IngDB env ''complete processed import'' []
                 (set_import (piWorkspaceID p) (piImportID p) (\<lambda>s. s = ImportProcessing) ImportSucceeded finishedAt db)) (\<lambda>d1.
               and_then (exec IngDB env ''complete import operation'' []
                 (case jsonb (result_document (piImportID p) n) of
                    None \<Rightarrow> None
                  | Some doc \<Rightarrow>
                      set_operation (piWorkspaceID p) (piOperationID p) (\<lambda>s. s = OperationRunning)
                        (\<lambda>x. x\<lparr>or_state := OperationSucceeded, or_result := Some doc, or_updated_at := truncate_us finishedAt,
                           or_finished_at := Some (truncate_us finishedAt)\<rparr>) d1)) (\<lambda>d2.
               Inr (''commit successful import processing'', d2, Inr ()))))))"

definition failed_operation :: "ProcessingFailure \<Rightarrow> gotime \<Rightarrow> operation_row \<Rightarrow> operation_row" where
  "failed_operation f t x =
     x\<lparr>or_state := OperationFailed, or_result := None, or_failure_code := Some (pfCode f), or_failure_title := Some (pfTitle f),
       or_failure_detail := nullif (pfDetail f), or_updated_at := truncate_us t, or_finished_at := Some (truncate_us t)\<rparr>"

definition FailProcessing :: "db_env \<Rightarrow> ProcessingIdentity \<Rightarrow> ProcessingFailure \<Rightarrow> gotime \<Rightarrow> ingest_db \<Rightarrow> ingest_db \<times> (ingest_error + unit)" where
  "FailProcessing env p f finishedAt db =
     (if \<not> validateProcessingIdentity p \<or> \<not> validFailure f \<or> finishedAt = 0 then (db, Inl IngInvalid)
      else
        transact IngDB env ''begin failing import processing'' db
        (and_then (exec IngDB env ''lock failed import processing'' [] (Some ())) (\<lambda>_.
         case work_item p db of
           None \<Rightarrow> Inl ErrProcessingNotFound
         | Some (x, r) \<Rightarrow>
             if or_state x = OperationFailed then
               (if text_of (or_failure_code x) \<noteq> pfCode f \<or> im_state r \<noteq> ImportFailed then Inl ErrProcessingConflict
                else Inr (''commit'', db, Inr ()))
             else if (or_state x \<noteq> OperationQueued \<and> or_state x \<noteq> OperationRunning) \<or>
               (im_state r \<noteq> ImportQueued \<and> im_state r \<noteq> ImportProcessing) then Inl ErrProcessingConflict
             else
               and_then (exec IngDB env ''fail processed import'' []
                 (set_import (piWorkspaceID p) (piImportID p) (\<lambda>s. s = ImportQueued \<or> s = ImportProcessing) ImportFailed finishedAt db)) (\<lambda>d1.
               and_then (exec IngDB env ''fail import operation'' [pfDetail f]
                 (set_operation (piWorkspaceID p) (piOperationID p) (\<lambda>s. s = OperationQueued \<or> s = OperationRunning)
                   (failed_operation f finishedAt) d1)) (\<lambda>d2.
               Inr (''commit failed import processing'', d2, Inr ()))))))"

end
