(* ===== verification/Import_Lifecycle.thy ===== *)
theory Import_Lifecycle
  imports Processing Job_Queue_Refine
begin

text \<open>
  The life of an import.  The abstract machine has one state per import: the state of the import, of its
  raw artifact and of its operation.  Every call of the store, whatever faults it meets, is one step of
  that machine for one import, or changes nothing the machine sees; committed evidence never changes.
\<close>

section \<open>The abstract machine\<close>

type_synonym life = "ImportState \<times> artifact_state option \<times> OperationState option"

inductive life_step :: "life option \<Rightarrow> life \<Rightarrow> bool" where
  reserve: "life_step None (ImportAwaitingUpload, Some ArtifactPending, None)"
| lease: "s \<in> {ImportAwaitingUpload, ImportUploading} \<Longrightarrow> a \<in> {ArtifactPending, ArtifactUploading} \<Longrightarrow>
    life_step (Some (s, Some a, None)) (ImportUploading, Some ArtifactUploading, None)"
| expire: "s \<in> {ImportAwaitingUpload, ImportUploading} \<Longrightarrow> a \<in> {ArtifactPending, ArtifactUploading} \<Longrightarrow>
    life_step (Some (s, Some a, None)) (ImportAbandoned, Some ArtifactAbandoned, None)"
| commit: "life_step (Some (ImportUploading, Some ArtifactUploading, None)) (ImportUploaded, Some ArtifactCommitted, None)"
| release: "life_step (Some (ImportUploading, Some ArtifactUploading, None)) (ImportAwaitingUpload, Some ArtifactPending, None)"
| reject: "life_step (Some (ImportUploading, Some ArtifactUploading, None)) (ImportRejected, Some ArtifactRejected, None)"
| complete: "life_step (Some (ImportUploaded, Some ArtifactCommitted, None)) (ImportQueued, Some ArtifactCommitted, Some OperationQueued)"
| start: "s \<in> {ImportQueued, ImportProcessing} \<Longrightarrow> x \<in> {OperationQueued, OperationRunning} \<Longrightarrow>
    life_step (Some (s, Some ArtifactCommitted, Some x)) (ImportProcessing, Some ArtifactCommitted, Some OperationRunning)"
| succeed: "life_step (Some (ImportProcessing, Some ArtifactCommitted, Some OperationRunning))
    (ImportSucceeded, Some ArtifactCommitted, Some OperationSucceeded)"
| fail: "s \<in> {ImportQueued, ImportProcessing} \<Longrightarrow> x \<in> {OperationQueued, OperationRunning} \<Longrightarrow>
    life_step (Some (s, Some ArtifactCommitted, Some x)) (ImportFailed, Some ArtifactCommitted, Some OperationFailed)"

inductive_cases life_stepE: "life_step v v'"

definition legal :: "life \<Rightarrow> bool" where
  "legal v \<longleftrightarrow> v \<in> {(ImportAwaitingUpload, Some ArtifactPending, None), (ImportUploading, Some ArtifactUploading, None),
     (ImportAbandoned, Some ArtifactAbandoned, None), (ImportUploaded, Some ArtifactCommitted, None),
     (ImportRejected, Some ArtifactRejected, None), (ImportQueued, Some ArtifactCommitted, Some OperationQueued),
     (ImportProcessing, Some ArtifactCommitted, Some OperationRunning),
     (ImportSucceeded, Some ArtifactCommitted, Some OperationSucceeded), (ImportFailed, Some ArtifactCommitted, Some OperationFailed)}"

lemma life_step_legal: "life_step v v' \<Longrightarrow> legal v'"
  by (induction rule: life_step.induct) (simp_all add: legal_def)

section \<open>The view of one import\<close>

definition operation_of :: "string \<Rightarrow> string \<Rightarrow> ingest_db \<Rightarrow> operation_row option" where
  "operation_of ws i db = sql_row (\<lambda>x. operation_import x = (ws, i)) (operations db)"

definition life_of :: "ingest_db \<Rightarrow> string \<times> string \<Rightarrow> life option" where
  "life_of db k =
     map_option (\<lambda>r. (im_state r, map_option ar_state (artifact_of (fst k) (snd k) db), map_option or_state (operation_of (fst k) (snd k) db)))
       (import_of (fst k) (snd k) db)"

definition keys_ok :: "ingest_db \<Rightarrow> bool" where
  "keys_ok db \<longleftrightarrow> distinct (map import_key (import_rows db)) \<and> distinct (map artifact_import (raw_artifacts db)) \<and>
     distinct (map operation_import (operations db)) \<and> distinct (map (\<lambda>x. (or_workspace x, or_id x)) (operations db)) \<and>
     artifact_import ` set (raw_artifacts db) \<subseteq> import_key ` set (import_rows db) \<and>
     operation_import ` set (operations db) \<subseteq> import_key ` set (import_rows db)"

text \<open>Evidence is retained: committed artifacts stay as they are.\<close>

definition evidence :: "ingest_db \<Rightarrow> artifact_row set" where
  "evidence db = {a \<in> set (raw_artifacts db). ar_state a = ArtifactCommitted}"

definition advances :: "ingest_db \<Rightarrow> ingest_db \<Rightarrow> string \<times> string \<Rightarrow> life \<Rightarrow> bool" where
  "advances db db' k v' \<longleftrightarrow> life_step (life_of db k) v' \<and> life_of db' = (life_of db)(k := Some v') \<and>
     keys_ok db' \<and> evidence db \<subseteq> evidence db'"

section \<open>Effects of single statements on the view\<close>

lemma import_of_set_import:
  "set_import ws i P s t db = Some d \<Longrightarrow>
     import_of w j d = map_option (\<lambda>r. if (w, j) = (ws, i) \<and> P (im_state r) then r\<lparr>im_state := s, im_updated_at := truncate_us t\<rparr> else r)
       (import_of w j db) \<and>
     raw_artifacts d = raw_artifacts db \<and> operations d = operations db \<and>
     map import_key (import_rows d) = map import_key (import_rows db)"
  unfolding set_import_def import_of_def
  by (auto simp: update_rows_Some sql_row_update import_key_def map_sql_update intro!: option.map_cong0
      dest!: sql_row_Some split: if_splits)


lemma artifact_of_set_artifact:
  assumes "set_artifact P f db = Some d" "\<And>a. artifact_import (f a) = artifact_import a"
  shows "artifact_of w j d = map_option (\<lambda>a. if P a then f a else a) (artifact_of w j db)"
    and "import_rows d = import_rows db" "operations d = operations db"
    and "map artifact_import (raw_artifacts d) = map artifact_import (raw_artifacts db)"
    and "(\<And>a. P a \<Longrightarrow> ar_state a \<noteq> ArtifactCommitted) \<Longrightarrow> evidence db \<subseteq> evidence d"
proof -
  have d: "d = db\<lparr>raw_artifacts := sql_update P f (raw_artifacts db)\<rparr>"
    using assms(1) by (auto simp: set_artifact_def update_rows_Some)
  show "artifact_of w j d = map_option (\<lambda>a. if P a then f a else a) (artifact_of w j db)"
    unfolding d by (simp add: artifact_of_def sql_row_update assms(2))
  show "import_rows d = import_rows db" "operations d = operations db"
    "map artifact_import (raw_artifacts d) = map artifact_import (raw_artifacts db)"
    unfolding d by (simp_all add: map_sql_update assms(2))
  assume u: "\<And>a. P a \<Longrightarrow> ar_state a \<noteq> ArtifactCommitted"
  show "evidence db \<subseteq> evidence d"
  proof
    fix a
    assume a: "a \<in> evidence db"
    with u have "\<not> P a" "a \<in> set (raw_artifacts db)" by (auto simp: evidence_def)
    then have "a \<in> set (sql_update P f (raw_artifacts db))" unfolding in_sql_update by force
    with a show "a \<in> evidence d" by (simp add: evidence_def d)
  qed
qed

lemma operation_of_set_operation:
  assumes "set_operation ws o' P f db = Some d" "\<And>x. operation_import (f x) = operation_import x" "\<And>x. or_id (f x) = or_id x"
    "\<And>x. or_workspace (f x) = or_workspace x"
  shows "operation_of w j d = map_option (\<lambda>x. if or_workspace x = ws \<and> or_id x = o' \<and> P (or_state x) then f x else x) (operation_of w j db)"
    and "import_rows d = import_rows db" "raw_artifacts d = raw_artifacts db"
    and "map operation_import (operations d) = map operation_import (operations db)"
    and "map (\<lambda>x. (or_workspace x, or_id x)) (operations d) = map (\<lambda>x. (or_workspace x, or_id x)) (operations db)"
  using assms
  by (auto simp: set_operation_def operation_of_def update_rows_Some sql_row_update map_sql_update)

lemma import_of_cong: "import_rows d = import_rows db \<Longrightarrow> import_of w j d = import_of w j db"
  by (simp add: import_of_def)

lemma artifact_of_cong: "raw_artifacts d = raw_artifacts db \<Longrightarrow> artifact_of w j d = artifact_of w j db"
  by (simp add: artifact_of_def)

lemma operation_of_cong: "operations d = operations db \<Longrightarrow> operation_of w j d = operation_of w j db"
  by (simp add: operation_of_def)

lemma artifact_of_key: "artifact_of w j db = Some a \<Longrightarrow> artifact_import a = (w, j)"
  by (auto simp: artifact_of_def dest!: sql_row_Some)

lemma operation_of_key: "operation_of w j db = Some x \<Longrightarrow> operation_import x = (w, j)"
  by (auto simp: operation_of_def dest!: sql_row_Some)

lemma keys_ok_same:
  "keys_ok db \<Longrightarrow> map import_key (import_rows d) = map import_key (import_rows db) \<Longrightarrow>
     map artifact_import (raw_artifacts d) = map artifact_import (raw_artifacts db) \<Longrightarrow>
     map operation_import (operations d) = map operation_import (operations db) \<Longrightarrow>
     map (\<lambda>x. (or_workspace x, or_id x)) (operations d) = map (\<lambda>x. (or_workspace x, or_id x)) (operations db) \<Longrightarrow> keys_ok d"
  unfolding keys_ok_def set_map [symmetric] by (simp only:)

text \<open>An artifact statement and an import statement on the same import, as in all upload transactions.\<close>

lemma upload_updates:
  assumes "set_artifact P f db = Some d1" "set_import ws i Q s t d1 = Some d2"
    and "\<And>a. artifact_import (f a) = artifact_import a" "\<And>a. P a \<Longrightarrow> artifact_import a = (ws, i) \<and> ar_state a \<noteq> ArtifactCommitted"
    and "keys_ok db" "import_of ws i db = Some r" "Q (im_state r)" "artifact_of ws i db = Some a" "P a" "operation_of ws i db = None"
  shows "life_of d2 = (life_of db)((ws, i) := Some (s, Some (ar_state (f a)), None))" "keys_ok d2" "evidence db \<subseteq> evidence d2"
proof -
  note A = artifact_of_set_artifact [OF assms(1,3)]
  note I = import_of_set_import [OF assms(2)]
  show "life_of d2 = (life_of db)((ws, i) := Some (s, Some (ar_state (f a)), None))"
  proof (rule ext)
    fix k :: "string \<times> string"
    obtain w j where k: "k = (w, j)" by (cases k)
    have i2: "import_of w j d2 = map_option (\<lambda>r. if (w, j) = (ws, i) \<and> Q (im_state r) then r\<lparr>im_state := s, im_updated_at := truncate_us t\<rparr> else r)
        (import_of w j db)" using I [THEN conjunct1] unfolding import_of_cong [OF A(2)] by blast
    have a2: "artifact_of w j d2 = map_option (\<lambda>a. if P a then f a else a) (artifact_of w j db)"
      using A(1) I artifact_of_cong [of d2 d1] by simp
    have o2: "operation_of w j d2 = operation_of w j db" using operation_of_cong [of d2 db] I A(3) by simp
    show "life_of d2 k = ((life_of db)((ws, i) := Some (s, Some (ar_state (f a)), None))) k"
    proof (cases "k = (ws, i)")
      case True
      with k i2 a2 o2 assms(6-10) show ?thesis by (simp add: life_of_def)
    next
      case False
      have "map_option (\<lambda>a. if P a then f a else a) (artifact_of w j db) = artifact_of w j db"
        using False k assms(4) artifact_of_key [of w j db] by (cases "artifact_of w j db") auto
      with False k i2 a2 o2 show ?thesis by (auto simp: life_of_def option.map_ident)
    qed
  qed
  show "keys_ok d2" using keys_ok_same [OF assms(5)] I A(2-4) by simp
  have "evidence db \<subseteq> evidence d1" by (rule A(5)) (use assms(4) in blast)
  with I show "evidence db \<subseteq> evidence d2" by (simp add: evidence_def)
qed

lemma work_updates:
  assumes "set_operation ws o' P f db = Some d1" "set_import ws i Q s t d1 = Some d2"
    and "\<And>x. operation_import (f x) = operation_import x" "\<And>x. or_id (f x) = or_id x" "\<And>x. or_workspace (f x) = or_workspace x"
    and "keys_ok db" "import_of ws i db = Some r" "Q (im_state r)" "operation_of ws i db = Some x" "or_id x = o'" "P (or_state x)"
      "x \<in> set (operations db)"
  shows "life_of d2 = (life_of db)((ws, i) := Some (s, map_option ar_state (artifact_of ws i db), Some (or_state (f x))))"
    "keys_ok d2" "evidence db \<subseteq> evidence d2"
proof -
  note O = operation_of_set_operation [OF assms(1,3-5)]
  note I = import_of_set_import [OF assms(2)]
  have ws: "or_workspace x = ws" using operation_of_key [OF assms(9)] by (simp add: operation_import_def)
  show "life_of d2 = (life_of db)((ws, i) := Some (s, map_option ar_state (artifact_of ws i db), Some (or_state (f x))))"
  proof (rule ext)
    fix k :: "string \<times> string"
    obtain w j where k: "k = (w, j)" by (cases k)
    have i2: "import_of w j d2 = map_option (\<lambda>r. if (w, j) = (ws, i) \<and> Q (im_state r) then r\<lparr>im_state := s, im_updated_at := truncate_us t\<rparr> else r)
        (import_of w j db)" using I [THEN conjunct1] unfolding import_of_cong [OF O(2)] by blast
    have a2: "artifact_of w j d2 = artifact_of w j db" using artifact_of_cong [of d2 db] I O(3) by simp
    have o2: "operation_of w j d2 = map_option (\<lambda>x. if or_workspace x = ws \<and> or_id x = o' \<and> P (or_state x) then f x else x) (operation_of w j db)"
      using O(1) I operation_of_cong [of d2 d1] by simp
    show "life_of d2 k = ((life_of db)((ws, i) := Some (s, map_option ar_state (artifact_of ws i db), Some (or_state (f x))))) k"
    proof (cases "k = (ws, i)")
      case True
      with k i2 a2 o2 assms(7-11) ws show ?thesis by (simp add: life_of_def)
    next
      case False
      have "map_option (\<lambda>x. if or_workspace x = ws \<and> or_id x = o' \<and> P (or_state x) then f x else x) (operation_of w j db) = operation_of w j db"
      proof (cases "operation_of w j db")
        case (Some y)
        then have "y \<in> set (operations db)" "operation_import y = (w, j)" by (auto simp: operation_of_def dest!: sql_row_Some)
        with False k assms(6,9,10,12) ws have "\<not> (or_workspace y = ws \<and> or_id y = o')"
          using distinct_key_unique [of "\<lambda>x. (or_workspace x, or_id x)" "operations db" y x] operation_of_key [OF assms(9)]
          by (auto simp: keys_ok_def)
        with Some show ?thesis by auto
      qed simp
      with False k i2 a2 o2 show ?thesis by (auto simp: life_of_def option.map_ident)
    qed
  qed
  show "keys_ok d2" using keys_ok_same [OF assms(6)] I O(2-5) by simp
  show "evidence db \<subseteq> evidence d2" using O(3) I by (simp add: evidence_def)
qed


section \<open>Each call is a step\<close>

definition lives :: "ingest_db \<Rightarrow> bool" where
  "lives db \<longleftrightarrow> keys_ok db \<and> (\<forall>k v. life_of db k = Some v \<longrightarrow> legal v)"

definition simulated :: "ingest_db \<Rightarrow> ingest_db \<Rightarrow> bool" where
  "simulated db db' \<longleftrightarrow> (life_of db' = life_of db \<and> keys_ok db' \<and> evidence db \<subseteq> evidence db') \<or> (\<exists>k v'. advances db db' k v')"

lemma simulated_refl: "lives db \<Longrightarrow> simulated db db"
  by (simp add: simulated_def lives_def)

lemma import_of_found: "keys_ok db \<Longrightarrow> r \<in> set (import_rows db) \<Longrightarrow> import_key r = (ws, i) \<Longrightarrow> import_of ws i db = Some r"
  unfolding import_of_def by (rule sql_row_key) (simp_all add: keys_ok_def)

lemma artifact_of_found: "keys_ok db \<Longrightarrow> a \<in> set (raw_artifacts db) \<Longrightarrow> artifact_import a = (ws, i) \<Longrightarrow> artifact_of ws i db = Some a"
  unfolding artifact_of_def by (rule sql_row_key) (simp_all add: keys_ok_def)

lemma operation_of_found: "keys_ok db \<Longrightarrow> x \<in> set (operations db) \<Longrightarrow> operation_import x = (ws, i) \<Longrightarrow> operation_of ws i db = Some x"
  unfolding operation_of_def by (rule sql_row_key) (simp_all add: keys_ok_def)

lemma life_of_found:
  "import_of ws i db = Some r \<Longrightarrow>
     life_of db (ws, i) = Some (im_state r, map_option ar_state (artifact_of ws i db), map_option or_state (operation_of ws i db))"
  by (simp add: life_of_def)

lemma legal_found:
  "lives db \<Longrightarrow> import_of ws i db = Some r \<Longrightarrow>
     legal (im_state r, map_option ar_state (artifact_of ws i db), map_option or_state (operation_of ws i db))"
  unfolding lives_def using life_of_found by blast

lemma finish_attempt_life:
  assumes "finish_attempt env mA mI ps sel f ws i s t db = Inr d" "lives db"
    and "\<And>a. artifact_import (f a) = artifact_import a"
    and "\<And>a. sel a \<Longrightarrow> artifact_import a = (ws, i) \<and> ar_state a = ArtifactUploading"
  shows "\<exists>a\<in>set (raw_artifacts db). sel a \<and> artifact_of ws i db = Some a \<and>
    life_of db (ws, i) = Some (ImportUploading, Some ArtifactUploading, None) \<and>
    life_of d = (life_of db)((ws, i) := Some (s, Some (ar_state (f a)), None)) \<and> artifact_of ws i d = Some (f a) \<and> keys_ok d \<and> evidence db \<subseteq> evidence d"
proof -
  from assms(1) obtain d1 where d1: "set_artifact sel f db = Some d1"
    and d2: "set_import ws i (\<lambda>x. x = ImportUploading) s t d1 = Some d"
    and c: "sql_count sel (raw_artifacts db) = 1"
      "sql_count (\<lambda>r. import_key r = (ws, i) \<and> im_state r = ImportUploading) (import_rows d1) = 1"
    by (auto simp: finish_attempt_def and_then_Inr exec_Inr split: if_splits)
  note A = artifact_of_set_artifact [OF d1 assms(3)]
  have k: "keys_ok db" using assms(2) by (simp add: lives_def)
  from sql_count_pos [OF c(1)] obtain a where a: "a \<in> set (raw_artifacts db)" "sel a" by blast
  from sql_count_pos [OF c(2)] obtain r where r: "r \<in> set (import_rows db)" "import_key r = (ws, i)" "im_state r = ImportUploading"
    unfolding A(2) by blast
  note af = artifact_of_found [OF k a(1)] and rf = import_of_found [OF k r(1,2)]
  have av: "artifact_of ws i db = Some a" "ar_state a = ArtifactUploading" using af assms(4) [OF a(2)] by auto
  have "operation_of ws i db = None" using legal_found [OF assms(2) rf] r(3) av by (auto simp: legal_def)
  note u = upload_updates [OF d1 d2 assms(3) _ k rf _ av(1) a(2) this]
  have "artifact_of ws i d = Some (f a)"
    using A(1) [of ws i] av(1) a(2) import_of_set_import [OF d2] by (simp add: artifact_of_def)
  with u a av r(3) life_of_found [OF rf] \<open>operation_of ws i db = None\<close> assms(4) show ?thesis by auto
qed

lemma CommitUpload_simulated:
  assumes "CommitUpload env sp db = (db', res)" "lives db"
  shows "simulated db db'"
proof (cases "db' = db")
  case False
  with assms(1) obtain digest where
    "finish_attempt env ''commit raw artifact record'' ''publish uploaded import'' [cuStorageVersion sp, cuBackendVersion sp]
      (\<lambda>a. current_attempt (cuWorkspaceID sp) (cuImportID sp) (cuArtifactID sp) (cuAttemptID sp) a \<and>
         (case ar_lease a of None \<Rightarrow> False | Some l \<Rightarrow> truncate_us (cuCommittedAt sp) \<le> l))
      (committed_artifact sp digest) (cuWorkspaceID sp) (cuImportID sp) ImportUploaded (cuCommittedAt sp) db = Inr db'"
    by (auto simp: CommitUpload_def and_then_Inr dest!: transact_db split: option.splits if_splits)
  from finish_attempt_life [OF this assms(2)] have "advances db db' (cuWorkspaceID sp, cuImportID sp) (ImportUploaded, Some ArtifactCommitted, None)"
    by (auto simp: advances_def committed_artifact_def artifact_import_def current_attempt_def life_step.commit)
  then show ?thesis by (auto simp: simulated_def)
qed (use assms(2) simulated_refl in blast)

lemma EndUpload_simulated:
  assumes "EndUpload env sp db = (db', res)" "lives db"
  shows "simulated db db'"
proof (cases "db' = db")
  case False
  let ?s = "if euRejectCode sp \<noteq> [] then ImportRejected else ImportAwaitingUpload"
  let ?a = "if euRejectCode sp \<noteq> [] then ArtifactRejected else ArtifactPending"
  from assms(1) False have
    "finish_attempt env ''end raw artifact upload'' ''end import upload'' []
         (current_attempt (euWorkspaceID sp) (euImportID sp) (euArtifactID sp) (euAttemptID sp)) (ended_artifact sp)
         (euWorkspaceID sp) (euImportID sp) ?s (euEndedAt sp) db = Inr db'"
    by (auto simp: EndUpload_def and_then_Inr dest!: transact_db)
  from finish_attempt_life [OF this assms(2)] have "advances db db' (euWorkspaceID sp, euImportID sp) (?s, Some ?a, None)"
    by (auto simp: advances_def ended_artifact_def artifact_import_def current_attempt_def life_step.release life_step.reject)
  then show ?thesis by (auto simp: simulated_def)
qed (use assms(2) simulated_refl in blast)


lemma simulated_advance:
  "life_step (life_of db k) v' \<Longrightarrow> life_of db' = (life_of db)(k := Some v') \<Longrightarrow> keys_ok db' \<Longrightarrow> evidence db \<subseteq> evidence db' \<Longrightarrow>
     simulated db db'"
  unfolding simulated_def advances_def by blast

lemma BeginUpload_simulated:
  assumes "BeginUpload env sp db = (db', res)" "lives db"
  shows "simulated db db'"
proof (cases "db' = db")
  case False
  let ?ws = "buWorkspaceID sp" and ?i = "buImportID sp"
  have k: "keys_ok db" using assms(2) by (simp add: lives_def)
  from assms(1) False obtain r where r: "sql_row (owned ?ws ?i (buApplicationID sp) (buPrincipalID sp)) (import_rows db) = Some r"
    and s: "im_state r = ImportAwaitingUpload \<or> im_state r = ImportUploading"
    and b: "expire_upload env sp (artifact_of ?ws ?i db) db = Inr db' \<or>
      (\<exists>d ses. lease_upload env sp r (artifact_of ?ws ?i db) db = Inr (d, ses) \<and> set_import ?ws ?i (\<lambda>_. True) ImportUploading (buStartedAt sp) d = Some db')"
    by (auto simp: BeginUpload_def and_then_Inr exec_Inr Let_def dest!: transact_db split: option.splits if_splits prod.splits)
  from sql_row_Some [OF r] have rf: "import_of ?ws ?i db = Some r"
    by (intro import_of_found [OF k]) (auto simp: owned_def import_key_def)
  from legal_found [OF assms(2) rf] s obtain a where a: "artifact_of ?ws ?i db = Some a" "ar_state a = ArtifactPending \<or> ar_state a = ArtifactUploading"
    and o: "operation_of ?ws ?i db = None" by (auto simp: legal_def)
  have ai: "artifact_import a = (?ws, ?i)" by (rule artifact_of_key [OF a(1)])
  from life_of_found [OF rf] a o have l: "life_of db (?ws, ?i) = Some (im_state r, Some (ar_state a), None)" by simp
  from b show ?thesis
  proof
    assume "expire_upload env sp (artifact_of ?ws ?i db) db = Inr db'"
    then obtain d1 where d: "set_artifact (\<lambda>a. artifact_import a = (?ws, ?i) \<and> ar_state a \<noteq> ArtifactCommitted)
        (abandoned_artifact (buStartedAt sp)) db = Some d1" "set_import ?ws ?i (\<lambda>_. True) ImportAbandoned (buStartedAt sp) d1 = Some db'"
      using a(1) by (auto simp: expire_upload_def and_then_Inr exec_Inr)
    note u = upload_updates [OF d _ _ k rf _ a(1) _ o]
    show ?thesis
      by (rule simulated_advance [OF _ u]) (use s a ai in \<open>auto simp: l abandoned_artifact_def artifact_import_def intro: life_step.expire\<close>)
  next
    assume "\<exists>d ses. lease_upload env sp r (artifact_of ?ws ?i db) db = Inr (d, ses) \<and> set_import ?ws ?i (\<lambda>_. True) ImportUploading (buStartedAt sp) d = Some db'"
    then obtain d1 where d: "set_artifact (\<lambda>x. ar_workspace x = ?ws \<and> ar_id x = ar_id a \<and> ar_import x = ?i \<and>
          (ar_state x = ArtifactPending \<or> ar_state x = ArtifactUploading)) (leased_artifact sp) db = Some d1"
      "set_import ?ws ?i (\<lambda>_. True) ImportUploading (buStartedAt sp) d1 = Some db'"
      using a(1) by (auto simp: lease_upload_def Let_def and_then_Inr exec_Inr split: if_splits)
    note u = upload_updates [OF d _ _ k rf _ a(1) _ o]
    show ?thesis
      by (rule simulated_advance [OF _ u]) (use s a ai in \<open>auto simp: l leased_artifact_def artifact_import_def intro: life_step.lease\<close>)
  qed
qed (use assms(2) simulated_refl in blast)

lemma work_item_found:
  assumes "work_item p db = Some (x, r)" "keys_ok db"
  shows "import_of (piWorkspaceID p) (piImportID p) db = Some r" "operation_of (piWorkspaceID p) (piImportID p) db = Some x"
    "x \<in> set (operations db)" "or_id x = piOperationID p"
  using assms sql_row_Some [of "its_operation p" "operations db" x]
  by (auto simp: work_item_def its_operation_def operation_import_def intro!: operation_of_found split: option.splits)

lemma BeginProcessing_simulated:
  assumes "BeginProcessing env p t db = (db', res)" "lives db"
  shows "simulated db db'"
proof (cases "db' = db")
  case False
  let ?ws = "piWorkspaceID p" and ?i = "piImportID p"
  have k: "keys_ok db" using assms(2) by (simp add: lives_def)
  from assms(1) False obtain x r d1 where w: "work_item p db = Some (x, r)"
    and st: "or_state x = OperationQueued \<or> or_state x = OperationRunning" "im_state r = ImportQueued \<or> im_state r = ImportProcessing"
    and d: "set_operation ?ws (piOperationID p) (\<lambda>s. s = OperationQueued \<or> s = OperationRunning) (running_operation t) db = Some d1"
      "set_import ?ws ?i (\<lambda>s. s = ImportQueued \<or> s = ImportProcessing) ImportProcessing t d1 = Some db'"
    by (auto simp: BeginProcessing_def and_then_Inr exec_Inr dest!: transact_db split: option.splits if_splits)
  note f = work_item_found [OF w k]
  have a: "map_option ar_state (artifact_of ?ws ?i db) = Some ArtifactCommitted" using legal_found [OF assms(2) f(1)] st f(2) by (auto simp: legal_def)
  note u = work_updates [OF d _ _ _ k f(1) _ f(2,4) _ f(3)]
  show ?thesis
    by (rule simulated_advance [OF _ u])
      (use st a in \<open>auto simp: life_of_found [OF f(1)] f(2) running_operation_def operation_import_def intro: life_step.start\<close>)
qed (use assms(2) simulated_refl in blast)

text \<open>The two final transactions write the import first; the order does not matter to the view.\<close>

lemma set_import_operation_commute:
  assumes "set_import ws i Q s t db = Some d1" "set_operation w o' P f d1 = Some d2"
  shows "\<exists>d. set_operation w o' P f db = Some d \<and> set_import ws i Q s t d = Some d2"
  using assms by (auto simp: set_import_def set_operation_def)

lemma CompleteProcessing_simulated:
  assumes "CompleteProcessing jsonb env p n t db = (db', res)" "lives db"
  shows "simulated db db'"
proof (cases "db' = db")
  case False
  let ?ws = "piWorkspaceID p" and ?i = "piImportID p"
  have k: "keys_ok db" using assms(2) by (simp add: lives_def)
  from assms(1) False obtain x r d1 doc where w: "work_item p db = Some (x, r)"
    and st: "or_state x = OperationRunning" "im_state r = ImportProcessing"
    and d1: "set_import ?ws ?i (\<lambda>s. s = ImportProcessing) ImportSucceeded t db = Some d1"
      "set_operation ?ws (piOperationID p) (\<lambda>s. s = OperationRunning)
        (\<lambda>x. x\<lparr>or_state := OperationSucceeded, or_result := Some doc, or_updated_at := truncate_us t, or_finished_at := Some (truncate_us t)\<rparr>) d1 = Some db'"
    by (auto simp: CompleteProcessing_def and_then_Inr exec_Inr dest!: transact_db split: option.splits if_splits)
  from set_import_operation_commute [OF d1] obtain d where
    d: "set_operation ?ws (piOperationID p) (\<lambda>s. s = OperationRunning)
        (\<lambda>x. x\<lparr>or_state := OperationSucceeded, or_result := Some doc, or_updated_at := truncate_us t, or_finished_at := Some (truncate_us t)\<rparr>) db = Some d"
      "set_import ?ws ?i (\<lambda>s. s = ImportProcessing) ImportSucceeded t d = Some db'" by blast
  note f = work_item_found [OF w k]
  have a: "map_option ar_state (artifact_of ?ws ?i db) = Some ArtifactCommitted" using legal_found [OF assms(2) f(1)] st f(2) by (auto simp: legal_def)
  note u = work_updates [OF d _ _ _ k f(1) _ f(2,4) _ f(3)]
  show ?thesis
    by (rule simulated_advance [OF _ u])
      (use st a in \<open>auto simp: life_of_found [OF f(1)] f(2) operation_import_def intro: life_step.succeed\<close>)
qed (use assms(2) simulated_refl in blast)

lemma FailProcessing_simulated:
  assumes "FailProcessing env p fl t db = (db', res)" "lives db"
  shows "simulated db db'"
proof (cases "db' = db")
  case False
  let ?ws = "piWorkspaceID p" and ?i = "piImportID p"
  have k: "keys_ok db" using assms(2) by (simp add: lives_def)
  from assms(1) False obtain x r d1 where w: "work_item p db = Some (x, r)"
    and st: "or_state x = OperationQueued \<or> or_state x = OperationRunning" "im_state r = ImportQueued \<or> im_state r = ImportProcessing"
    and d1: "set_import ?ws ?i (\<lambda>s. s = ImportQueued \<or> s = ImportProcessing) ImportFailed t db = Some d1"
      "set_operation ?ws (piOperationID p) (\<lambda>s. s = OperationQueued \<or> s = OperationRunning) (failed_operation fl t) d1 = Some db'"
    by (auto simp: FailProcessing_def and_then_Inr exec_Inr dest!: transact_db split: option.splits if_splits)
  from set_import_operation_commute [OF d1] obtain d where
    d: "set_operation ?ws (piOperationID p) (\<lambda>s. s = OperationQueued \<or> s = OperationRunning) (failed_operation fl t) db = Some d"
      "set_import ?ws ?i (\<lambda>s. s = ImportQueued \<or> s = ImportProcessing) ImportFailed t d = Some db'" by blast
  note f = work_item_found [OF w k]
  have a: "map_option ar_state (artifact_of ?ws ?i db) = Some ArtifactCommitted" using legal_found [OF assms(2) f(1)] st f(2) by (auto simp: legal_def)
  note u = work_updates [OF d _ _ _ k f(1) _ f(2,4) _ f(3)]
  show ?thesis
    by (rule simulated_advance [OF _ u])
      (use st a in \<open>auto simp: life_of_found [OF f(1)] f(2) failed_operation_def operation_import_def intro: life_step.fail\<close>)
qed (use assms(2) simulated_refl in blast)

lemma life_of_cong:
  "import_rows d = import_rows db \<Longrightarrow> raw_artifacts d = raw_artifacts db \<Longrightarrow> operations d = operations db \<Longrightarrow>
     life_of d = life_of db \<and> keys_ok d = keys_ok db \<and> evidence d = evidence db"
  by (auto simp: life_of_def import_of_def artifact_of_def operation_of_def keys_ok_def evidence_def)

lemma RecordParseOutput_simulated:
  assumes "RecordParseOutput sha env sp db = (db', res)" "lives db"
  shows "simulated db db'"
proof -
  have "import_rows db' = import_rows db \<and> raw_artifacts db' = raw_artifacts db \<and> operations db' = operations db"
    using assms(1) by (auto simp: RecordParseOutput_def and_then_Inr exec_Inr dest!: transact_db split: option.splits if_splits prod.splits)
  with life_of_cong [of db' db] assms(2) show ?thesis by (simp add: simulated_def lives_def)
qed


lemma insert_import_Inr:
  assumes "insert_import env r db = Inr d"
  shows "d = db\<lparr>import_rows := import_rows db @ [r]\<rparr>" "import_key r \<notin> import_key ` set (import_rows db)"
  using assms by (auto simp: insert_import_def exec_Inr insert_row_Some import_key_def exec_def split: option.splits if_splits)

lemma insert_artifact_Some:
  assumes "insert_artifact a db = Some d"
  shows "d = db\<lparr>raw_artifacts := raw_artifacts db @ [a]\<rparr>" "artifact_import a \<in> import_key ` set (import_rows db)"
    "artifact_import a \<notin> artifact_import ` set (raw_artifacts db)" "artifact_row_ok a"
  using assms by (auto simp: insert_artifact_def insert_row_Some artifact_import_def)

text \<open>The context row an import is reserved with, if any.\<close>

definition new_contexts :: "Import \<Rightarrow> context_row list" where
  "new_contexts i =
     (case impAnalysisContext i of
        None \<Rightarrow> []
      | Some c \<Rightarrow> [\<lparr>ctx_workspace = impWorkspaceID i, ctx_import = impID i, ctx_application = impApplicationID i,
          ctx_body = c\<lparr>acAcceptedAt := truncate_us (acAcceptedAt c)\<rparr>\<rparr>])"

lemma insert_context_Some: "insert_context i db = Some d \<Longrightarrow> d = db\<lparr>import_contexts := import_contexts db @ new_contexts i\<rparr>"
  by (auto simp: insert_context_def new_contexts_def insert_row_Some split: option.splits)

lemma sql_row_absent: "x \<notin> k ` set rs \<Longrightarrow> sql_row (\<lambda>s. k s = x) rs = None"
  by (auto simp: sql_row_None)

lemma reserve_view:
  assumes "import_rows d = import_rows db @ [r]" "raw_artifacts d = raw_artifacts db @ [a]" "operations d = operations db"
    and "import_key r = k" "artifact_import a = k" "k \<notin> import_key ` set (import_rows db)" "keys_ok db" "ar_state a \<noteq> ArtifactCommitted"
  shows "life_of d = (life_of db)(k := Some (im_state r, Some (ar_state a), None))" "keys_ok d" "evidence db \<subseteq> evidence d" "life_of db k = None"
proof -
  have n: "k \<notin> artifact_import ` set (raw_artifacts db)" "k \<notin> operation_import ` set (operations db)"
    using assms(6,7) unfolding keys_ok_def by blast+
  show "life_of d = (life_of db)(k := Some (im_state r, Some (ar_state a), None))"
  proof (rule ext)
    fix j
    show "life_of d j = ((life_of db)(k := Some (im_state r, Some (ar_state a), None))) j"
    proof (cases "j = k")
      case True
      with assms n show ?thesis
        by (simp add: life_of_def import_of_def artifact_of_def operation_of_def sql_row_append sql_row_single sql_row_absent)
    next
      case False
      with assms(1-5) show ?thesis
        by (auto simp: life_of_def import_of_def artifact_of_def operation_of_def sql_row_append sql_row_single split: option.splits)
    qed
  qed
  show "keys_ok d" using assms(1-7) n unfolding keys_ok_def by auto
  show "evidence db \<subseteq> evidence d" using assms(2) by (auto simp: evidence_def)
  show "life_of db k = None" using assms(6) by (simp add: life_of_def import_of_def sql_row_absent)
qed

text \<open>What a transaction of \<open>Reserve\<close> that changes the database wrote.\<close>

lemma store_Reserve_wrote:
  assumes "store_Reserve sha env sp db = (db', res)" "db' \<noteq> db"
  obtains r where "import_rows db' = import_rows db @ [r]" "raw_artifacts db' = raw_artifacts db @ [new_artifact sp]"
    "operations db' = operations db" "im_state r = impState (rvImport sp)"
    "import_key r = (impWorkspaceID (rvImport sp), impID (rvImport sp))" "import_key r \<notin> import_key ` set (import_rows db)"
    "create_keys db' = create_keys db @ [create_key sp]" "complete_keys db' = complete_keys db" "job_queue db' = job_queue db"
    "key_scope (create_key sp) \<notin> key_scope ` set (create_keys db)"
    "import_contexts db' = import_contexts db @ new_contexts (rvImport sp)"
proof -
  from assms obtain keys n digest d1 d2 where
    n: "insert_new (impWorkspaceID (rvImport sp) \<in> set (ing_workspaces db)) key_row_ok key_scope (create_key sp) (create_keys db) = Some (keys, n)" "n \<noteq> 0"
    and d1: "insert_import env (import_row_of (rvImport sp) digest) (db\<lparr>create_keys := keys\<rparr>) = Inr d1"
    and d2: "insert_context (rvImport sp) d1 = Some d2" and d3: "insert_artifact (new_artifact sp) d2 = Some db'"
    by (auto simp: store_Reserve_def Let_def and_then_Inr exec_Inr dest!: transact_db split: option.splits if_splits prod.splits)
  note i = insert_import_Inr [OF d1] and c = insert_context_Some [OF d2] and a = insert_artifact_Some [OF d3]
  from n have keys: "keys = create_keys db @ [create_key sp]" "key_scope (create_key sp) \<notin> key_scope ` set (create_keys db)"
    by (auto elim: insert_new_cases)
  show thesis
    by (rule that [of "import_row_of (rvImport sp) digest"])
      (use i c a keys in \<open>simp_all add: import_row_of_def import_key_def\<close>)
qed

lemma store_Reserve_simulated:
  assumes "store_Reserve sha env sp db = (db', res)" "lives db" "impState (rvImport sp) = ImportAwaitingUpload"
  shows "simulated db db'"
proof (cases "db' = db")
  case False
  obtain r where r: "import_rows db' = import_rows db @ [r]" "raw_artifacts db' = raw_artifacts db @ [new_artifact sp]"
    "operations db' = operations db" "im_state r = impState (rvImport sp)"
    "import_key r = (impWorkspaceID (rvImport sp), impID (rvImport sp))" "import_key r \<notin> import_key ` set (import_rows db)"
    by (rule store_Reserve_wrote [OF assms(1) False])
  have k: "keys_ok db" using assms(2) by (simp add: lives_def)
  have n: "artifact_import (new_artifact sp) = import_key r" "ar_state (new_artifact sp) = ArtifactPending"
    using r(5) by (simp_all add: new_artifact_def artifact_import_def)
  note v = reserve_view [OF r(1-3) refl n(1) r(6) k]
  show ?thesis
    by (rule simulated_advance [OF _ v(1-3)]) (use n r(4) assms(3) v(4) in \<open>auto intro: life_step.reserve\<close>)
qed (use assms(2) simulated_refl in blast)

text \<open>What a transaction of \<open>Complete\<close> that changes the database wrote.\<close>

lemma store_Complete_wrote:
  assumes "store_Complete sha jsonb env rnd sp db = (db', res)" "db' \<noteq> db"
  obtains r rows q job new where
    "sql_row (owned (opWorkspaceID (cpOperation sp)) (opImportID (cpOperation sp)) (cpApplicationID sp) (cpPrincipalID sp)) (import_rows db) = Some r"
    "im_state r = ImportUploaded"
    "map_option ar_state (artifact_of (opWorkspaceID (cpOperation sp)) (opImportID (cpOperation sp)) db) = Some ArtifactCommitted"
    "EnqueueTx sha jsonb env rnd (process_job sp) (job_queue db) = Inr (q, job, new)"
    "set_import (opWorkspaceID (cpOperation sp)) (opImportID (cpOperation sp)) (\<lambda>s. s = ImportUploaded) ImportQueued (opUpdatedAt (cpOperation sp))
      (db\<lparr>complete_keys := complete_keys db @ [complete_key sp], operations := operations db @ [operation_row_of (cpOperation sp)], job_queue := q\<rparr>) = Some db'"
    "(or_workspace (operation_row_of (cpOperation sp)), or_id (operation_row_of (cpOperation sp))) \<notin> (\<lambda>x. (or_workspace x, or_id x)) ` set (operations db)"
    "key_scope (complete_key sp) \<notin> key_scope ` set (complete_keys db)"
proof -
  let ?x = "cpOperation sp"
  from assms obtain keys n r where
    n: "insert_new (opWorkspaceID ?x \<in> set (ing_workspaces db)) key_row_ok key_scope (complete_key sp) (complete_keys db) = Some (keys, n)" "n \<noteq> 0"
    and r: "sql_row (owned (opWorkspaceID ?x) (opImportID ?x) (cpApplicationID sp) (cpPrincipalID sp)) (import_rows db) = Some r" "im_state r = ImportUploaded"
      "map_option ar_state (artifact_of (opWorkspaceID ?x) (opImportID ?x) db) = Some ArtifactCommitted"
    and q: "queue_import sha jsonb env rnd sp (db\<lparr>complete_keys := keys\<rparr>) = Inr db'"
  proof (cases "sql_row (owned (opWorkspaceID ?x) (opImportID ?x) (cpApplicationID sp) (cpPrincipalID sp)) (import_rows db)")
    case None
    with assms show thesis
      by (auto simp: store_Complete_def Let_def and_then_Inr exec_Inr dest!: transact_db split: option.splits if_splits prod.splits)
  next
    case (Some r)
    then show thesis
      using assms that [of _ _ r]
      by (cases "im_state r \<noteq> ImportUploaded \<or> map_option ar_state (artifact_of (opWorkspaceID ?x) (opImportID ?x) db) \<noteq> Some ArtifactCommitted")
        (auto simp: store_Complete_def Let_def and_then_Inr exec_Inr dest!: transact_db split: option.splits if_splits prod.splits)
  qed
  from n have keys: "keys = complete_keys db @ [complete_key sp]" "key_scope (complete_key sp) \<notin> key_scope ` set (complete_keys db)"
    by (auto elim: insert_new_cases)
  from q obtain d1 q1 job new where d1: "insert_operation ?x (db\<lparr>complete_keys := keys\<rparr>) = Some d1"
    and e: "EnqueueTx sha jsonb env rnd (process_job sp) (job_queue d1) = Inr (q1, job, new)"
    and d3: "set_import (opWorkspaceID ?x) (opImportID ?x) (\<lambda>s. s = ImportUploaded) ImportQueued (opUpdatedAt ?x) (d1\<lparr>job_queue := q1\<rparr>) = Some db'"
  proof -
    from q obtain d1 where d1: "insert_operation ?x (db\<lparr>complete_keys := keys\<rparr>) = Some d1"
      by (auto simp: queue_import_def Let_def and_then_Inr exec_Inr)
    show thesis
    proof (cases "EnqueueTx sha jsonb env rnd (process_job sp) (job_queue d1)")
      case (Inl e)
      with q d1 show thesis by (auto simp: queue_import_def Let_def and_then_Inr exec_Inr)
    next
      case (Inr y)
      obtain q1 job new where "y = (q1, job, new)" by (cases y) auto
      with Inr q d1 show thesis by (intro that [OF d1]) (auto simp: queue_import_def Let_def and_then_Inr exec_Inr split: if_splits)
    qed
  qed
  from d1 have o: "d1 = db\<lparr>complete_keys := keys, operations := operations db @ [operation_row_of ?x]\<rparr>"
    "(or_workspace (operation_row_of ?x), or_id (operation_row_of ?x)) \<notin> (\<lambda>x. (or_workspace x, or_id x)) ` set (operations db)"
    by (auto simp: insert_operation_def insert_row_Some)
  show thesis by (rule that [OF r]) (use e d3 o keys in simp_all)
qed

lemma store_Complete_simulated:
  assumes "store_Complete sha jsonb env rnd sp db = (db', res)" "lives db" "opState (cpOperation sp) = OperationQueued"
  shows "simulated db db'"
proof (cases "db' = db")
  case False
  let ?x = "cpOperation sp" let ?ws = "opWorkspaceID ?x" and ?i = "opImportID ?x" let ?o = "operation_row_of ?x"
  obtain r q where r: "sql_row (owned ?ws ?i (cpApplicationID sp) (cpPrincipalID sp)) (import_rows db) = Some r" "im_state r = ImportUploaded"
      "map_option ar_state (artifact_of ?ws ?i db) = Some ArtifactCommitted"
    and d: "set_import ?ws ?i (\<lambda>s. s = ImportUploaded) ImportQueued (opUpdatedAt ?x)
      (db\<lparr>complete_keys := complete_keys db @ [complete_key sp], operations := operations db @ [?o], job_queue := q\<rparr>) = Some db'" (is "set_import _ _ _ _ _ ?d1 = _")
    and fresh: "(or_workspace ?o, or_id ?o) \<notin> (\<lambda>x. (or_workspace x, or_id x)) ` set (operations db)"
    by (rule store_Complete_wrote [OF assms(1) False])
  have k: "keys_ok db" using assms(2) by (simp add: lives_def)
  from sql_row_Some [OF r(1)] have rf: "import_of ?ws ?i db = Some r"
    by (intro import_of_found [OF k]) (auto simp: owned_def import_key_def)
  from legal_found [OF assms(2) rf] r(2) have none: "operation_of ?ws ?i db = None" by (auto simp: legal_def)
  have ok: "operation_import ?o = (?ws, ?i)" "or_state ?o = OperationQueued" using assms(3) by (simp_all add: operation_row_of_def operation_import_def)
  have ofr: "(?ws, ?i) \<notin> operation_import ` set (operations db)" using none by (auto simp: operation_of_def sql_row_None)
  note I = import_of_set_import [OF d]
  have l: "life_of db' = (life_of db)((?ws, ?i) := Some (ImportQueued, Some ArtifactCommitted, Some OperationQueued))"
  proof (rule ext)
    fix j :: "string \<times> string"
    obtain w n where j: "j = (w, n)" by (cases j)
    have i2: "import_of w n db' = map_option (\<lambda>r. if (w, n) = (?ws, ?i) \<and> im_state r = ImportUploaded
        then r\<lparr>im_state := ImportQueued, im_updated_at := truncate_us (opUpdatedAt ?x)\<rparr> else r) (import_of w n db)"
      using I [THEN conjunct1, of w n] import_of_cong [of ?d1 db] by simp
    have a2: "artifact_of w n db' = artifact_of w n db" using artifact_of_cong [of db' db] I by simp
    have o2: "operation_of w n db' = (case operation_of w n db of None \<Rightarrow> (if (w, n) = (?ws, ?i) then Some ?o else None) | Some y \<Rightarrow> Some y)"
      using I ok(1) by (auto simp: operation_of_def sql_row_append sql_row_single split: option.splits)
    show "life_of db' j = ((life_of db)((?ws, ?i) := Some (ImportQueued, Some ArtifactCommitted, Some OperationQueued))) j"
    proof (cases "j = (?ws, ?i)")
      case True
      with j i2 a2 o2 rf r none ok show ?thesis by (simp add: life_of_def)
    next
      case False
      with j i2 a2 o2 show ?thesis by (auto simp: life_of_def option.map_ident split: option.splits)
    qed
  qed
  have ik: "import_key ` set (import_rows db') = import_key ` set (import_rows db)" using I by (simp flip: set_map)
  have "(?ws, ?i) \<in> import_key ` set (import_rows db)"
    using sql_row_Some [OF r(1)] by (auto simp: owned_def import_key_def intro!: image_eqI [of _ _ r])
  then have "keys_ok db'" using k I ofr fresh ok(1) unfolding keys_ok_def ik by auto
  moreover have "evidence db \<subseteq> evidence db'" using I by (simp add: evidence_def)
  ultimately show ?thesis
    by (intro simulated_advance [OF _ l]) (use life_of_found [OF rf] r none in \<open>auto intro: life_step.complete\<close>)
qed (use assms(2) simulated_refl in blast)


section \<open>Runs of the store\<close>

text \<open>Any process may make any call at any time, in any environment, and workers act on the queue.  Reservations start in
  \<open>awaiting_upload\<close> and operations in \<open>queued\<close>, as the service writes them.\<close>

inductive ingest_step :: "(string \<Rightarrow> string) \<Rightarrow> (string \<Rightarrow> string option) \<Rightarrow> ingest_db \<Rightarrow> ingest_db \<Rightarrow> bool"
  for sha jsonb where
  reserve: "store_Reserve sha env sp db = (db', res) \<Longrightarrow> impState (rvImport sp) = ImportAwaitingUpload \<Longrightarrow> ingest_step sha jsonb db db'"
| begin_upload: "BeginUpload env usp db = (db', ures) \<Longrightarrow> ingest_step sha jsonb db db'"
| commit_upload: "CommitUpload env csp db = (db', cres) \<Longrightarrow> ingest_step sha jsonb db db'"
| end_upload: "EndUpload env esp db = (db', eres) \<Longrightarrow> ingest_step sha jsonb db db'"
| complete: "store_Complete sha jsonb env rnd osp db = (db', ores) \<Longrightarrow> opState (cpOperation osp) = OperationQueued \<Longrightarrow> ingest_step sha jsonb db db'"
| begin_processing: "BeginProcessing env p t db = (db', pres) \<Longrightarrow> ingest_step sha jsonb db db'"
| record_output: "RecordParseOutput sha env wsp db = (db', wres) \<Longrightarrow> ingest_step sha jsonb db db'"
| complete_processing: "CompleteProcessing jsonb env p n t db = (db', fres) \<Longrightarrow> ingest_step sha jsonb db db'"
| fail_processing: "FailProcessing env p f t db = (db', fres) \<Longrightarrow> ingest_step sha jsonb db db'"
| queue: "queue_step sha cap (job_queue db) q \<Longrightarrow> ingest_step sha jsonb db (db\<lparr>job_queue := q\<rparr>)"

lemma queue_simulated: "lives db \<Longrightarrow> simulated db (db\<lparr>job_queue := q\<rparr>)"
  using life_of_cong [of "db\<lparr>job_queue := q\<rparr>" db] by (simp add: simulated_def lives_def)

lemma ingest_step_simulated: "ingest_step sha jsonb db db' \<Longrightarrow> lives db \<Longrightarrow> simulated db db'"
  by (induction rule: ingest_step.induct)
    (simp_all add: store_Reserve_simulated BeginUpload_simulated CommitUpload_simulated EndUpload_simulated
      store_Complete_simulated queue_simulated BeginProcessing_simulated RecordParseOutput_simulated CompleteProcessing_simulated FailProcessing_simulated)

lemma simulated_lives: "simulated db db' \<Longrightarrow> lives db \<Longrightarrow> lives db'"
  unfolding simulated_def advances_def lives_def by (auto dest: life_step_legal split: if_splits)

text \<open>The contract of a concrete system whose per-key view follows an abstract machine.\<close>

locale simulation =
  fixes step :: "'c \<Rightarrow> 'c \<Rightarrow> bool" and view :: "'c \<Rightarrow> 'k \<Rightarrow> 'v option"
    and machine :: "'v option \<Rightarrow> 'v \<Rightarrow> bool" and inv :: "'c \<Rightarrow> bool"
  assumes keeps: "step c c' \<Longrightarrow> inv c \<Longrightarrow> inv c'"
    and follows: "step c c' \<Longrightarrow> inv c \<Longrightarrow> view c' = view c \<or> (\<exists>k v. machine (view c k) v \<and> view c' = (view c)(k := Some v))"
begin

lemma inv_run: "step\<^sup>*\<^sup>* c c' \<Longrightarrow> inv c \<Longrightarrow> inv c'"
  by (induction rule: rtranclp_induct) (auto intro: keeps)

lemma path_run: "step\<^sup>*\<^sup>* c c' \<Longrightarrow> inv c \<Longrightarrow> (\<lambda>u v. \<exists>w. v = Some w \<and> machine u w)\<^sup>*\<^sup>* (view c k) (view c' k)"
proof (induction rule: rtranclp_induct)
  case (step d e)
  from follows [OF step.hyps(2) inv_run [OF step.hyps(1) step.prems]] show ?case
  proof (elim disjE exE conjE)
    fix j v
    assume m: "machine (view d j) v" "view e = (view d)(j := Some v)"
    show ?thesis
    proof (cases "j = k")
      case True
      with m step.IH [OF step.prems] show ?thesis by (auto intro: rtranclp.rtrancl_into_rtrancl)
    qed (use m step.IH [OF step.prems] in simp)
  qed (use step.IH [OF step.prems] in simp)
qed simp

lemma stuck_run:
  "step\<^sup>*\<^sup>* c c' \<Longrightarrow> inv c \<Longrightarrow> (\<And>w. \<not> machine (view c k) w) \<Longrightarrow> view c' k = view c k"
  using path_run [of c c' k] by (auto elim: converse_rtranclpE)

end

interpretation import_lives: simulation "ingest_step sha jsonb" life_of life_step lives for sha jsonb
proof unfold_locales
  fix c c'
  assume s: "ingest_step sha jsonb c c'" "lives c"
  note sim = ingest_step_simulated [OF s]
  show "lives c'" by (rule simulated_lives [OF sim s(2)])
  show "life_of c' = life_of c \<or> (\<exists>k v. life_step (life_of c k) v \<and> life_of c' = (life_of c)(k := Some v))"
    using sim unfolding simulated_def advances_def by blast
qed

lemma evidence_run: "(ingest_step sha jsonb)\<^sup>*\<^sup>* db db' \<Longrightarrow> lives db \<Longrightarrow> evidence db \<subseteq> evidence db'"
proof (induction rule: rtranclp_induct)
  case (step d e)
  from ingest_step_simulated [OF step.hyps(2) import_lives.inv_run [OF step.hyps(1) step.prems]]
  have "evidence d \<subseteq> evidence e" by (auto simp: simulated_def advances_def)
  with step.IH [OF step.prems] show ?case by blast
qed simp

definition finished :: "ImportState \<Rightarrow> bool" where
  "finished s \<longleftrightarrow> s \<in> {ImportSucceeded, ImportFailed, ImportRejected, ImportAbandoned}"

lemma finished_stuck: "life_of db k = Some (s, a, x) \<Longrightarrow> finished s \<Longrightarrow> \<not> life_step (life_of db k) w"
  by (auto simp: finished_def elim: life_stepE)

definition empty_ingest :: "string list \<Rightarrow> (string \<times> string) list \<Rightarrow> (string \<times> string \<times> string \<times> string) list \<Rightarrow> ingest_db" where
  "empty_ingest ws apps links =
     \<lparr>ing_workspaces = ws, ing_applications = apps, ing_links = links, import_rows = [], import_contexts = [], raw_artifacts = [],
      operations = [], create_keys = [], complete_keys = [], parse_outputs = [],
      job_queue = \<lparr>workspaces = ws, jobs = [], job_attempts = []\<rparr>\<rparr>"

lemma empty_lives: "lives (empty_ingest ws apps links)" "life_of (empty_ingest ws apps links) k = None"
  by (simp_all add: lives_def keys_ok_def life_of_def import_of_def empty_ingest_def sql_row_def)

end
