(* ===== verification/Import_Service.thy ===== *)
theory Import_Service
  imports Import_Lifecycle
begin

text \<open>
  The ingestion service (\<open>internal/ingestion/service.go\<close>).  Each call of the store happens in an
  environment of its own, and other processes may act between two calls: the state a call finds is a
  function of the state the previous one left.  The authorizer and the blob store are the interfaces
  the service is given; the content of an upload is a stream as in \<open>Blob_Stream\<close>.
\<close>

section \<open>Configuration and requests\<close>

record IngestConfig =
  icMaxUploadBytes :: int
  icUploadReservationTTL :: duration
  icUploadTimeout :: duration
  icIdempotencyRetention :: duration
  icStorageBackend :: string
  icProcessMaxAttempts :: int

definition NewIngestService :: "IngestConfig \<Rightarrow> ingest_error + IngestConfig" where
  "NewIngestService c =
     (if icMaxUploadBytes c \<le> 0 \<or> icUploadReservationTTL c \<le> 0 \<or> icUploadTimeout c \<le> 0 \<or>
         icIdempotencyRetention c < 24 * hour \<or> \<not> storageBackendPattern (icStorageBackend c) \<or>
         icProcessMaxAttempts c < 1 \<or> icProcessMaxAttempts c > 100 then Inl IngInvalid else Inr c)"

record UploadRequest =
  uqPrincipalID :: string
  uqWorkspaceID :: string
  uqApplicationID :: string
  uqImportID :: string
  uqDeclaredSize :: "int option"

definition validateUploadRequest :: "bool \<Rightarrow> UploadRequest \<Rightarrow> bool" where
  "validateUploadRequest hasContent r \<longleftrightarrow> validOpaqueID (uqPrincipalID r) \<and> validOpaqueID (uqWorkspaceID r) \<and>
     validOpaqueID (uqApplicationID r) \<and> validOpaqueID (uqImportID r) \<and> hasContent \<and> null_or (\<lambda>n. 0 \<le> n) (uqDeclaredSize r)"

record Metadata =
  mdSize :: int
  mdSHA256 :: string
  mdVersion :: string
  mdBackendVersion :: string
  mdCommittedAt :: gotime

type_synonym authorizer = "string \<Rightarrow> string \<Rightarrow> string \<Rightarrow> string \<Rightarrow> string option"

definition import_identifier :: "string \<Rightarrow> string option \<Rightarrow> ingest_error + string" where
  "import_identifier prefix rnd =
     (case rnd of None \<Rightarrow> Inl IngRandom | Some bs \<Rightarrow> Inr (random_text prefix (take 20 (bs @ replicate 20 nul_byte))))"

definition new_blob_key :: "string option \<Rightarrow> ingest_error + string" where
  "new_blob_key rnd = (case NewKey rnd of Inl e \<Rightarrow> Inl (IngBlob ''generate raw artifact storage key'' e) | Inr k \<Rightarrow> Inr k)"

section \<open>Completion\<close>

definition complete_spec :: "IngestConfig \<Rightarrow> gotime \<Rightarrow> CompleteRequest \<Rightarrow> string \<Rightarrow> string \<Rightarrow> completeSpec" where
  "complete_spec c now r fp op =
     \<lparr>cpOperation = \<lparr>opID = op, opWorkspaceID = cqWorkspaceID r, opImportID = cqImportID r, opCreatedBy = cqPrincipalID r,
        opKind = importProcessKind, opState = OperationQueued, opCreatedAt = truncate_us now, opUpdatedAt = truncate_us now\<rparr>,
      cpApplicationID = cqApplicationID r, cpPrincipalID = cqPrincipalID r, cpAPIMajorVersion = apiMajorVersion,
      cpIdempotencyOperation = operationCompleteImport, cpIdempotencyKey = cqIdempotencyKey r, cpRequestFingerprint = fp,
      cpIdempotencyExpiresAt = truncate_us now + icIdempotencyRetention c, cpProcessMaxAttempts = icProcessMaxAttempts c\<rparr>"

definition Complete ::
  "(string \<Rightarrow> string) \<Rightarrow> (string \<Rightarrow> string option) \<Rightarrow> authorizer \<Rightarrow> IngestConfig \<Rightarrow> db_env \<Rightarrow> gotime \<Rightarrow> string option \<Rightarrow> string option
     \<Rightarrow> CompleteRequest \<Rightarrow> ingest_db \<Rightarrow> ingest_db \<times> (ingest_error + Completion)" where
  "Complete sha jsonb auth c env now opRnd jobRnd r db =
     (if \<not> validateCompleteRequest r then (db, Inl IngInvalid)
      else
        (case auth (cqPrincipalID r) (cqWorkspaceID r) (cqApplicationID r) CapabilityImportsUpload of
           Some e \<Rightarrow> (db, Inl (IngUnauthorized e))
         | None \<Rightarrow>
             (case fingerprintCompletion sha r of
                None \<Rightarrow> (db, Inl IngInvalid)
              | Some fp \<Rightarrow>
                  (case import_identifier ''op_'' opRnd of
                     Inl e \<Rightarrow> (db, Inl e)
                   | Inr op \<Rightarrow> store_Complete sha jsonb env jobRnd (complete_spec c now r fp op) db))))"

section \<open>Reservation\<close>

definition replay_spec :: "ReserveRequest \<Rightarrow> string \<Rightarrow> reservationReplaySpec" where
  "replay_spec r fp =
     \<lparr>rpWorkspaceID = rqWorkspaceID r, rpPrincipalID = rqPrincipalID r, rpAPIMajorVersion = apiMajorVersion,
      rpOperation = operationCreateImport, rpIdempotencyKey = rqIdempotencyKey r, rpRequestFingerprint = fp\<rparr>"

definition target_consistent :: "ReserveRequest \<Rightarrow> string \<Rightarrow> ResolvedRepositoryTarget \<Rightarrow> bool" where
  "target_consistent r repo t \<longleftrightarrow> rtWorkspaceID t = rqWorkspaceID r \<and> rtApplicationID t = rqApplicationID r \<and> rtRepositoryID t = repo \<and>
     validOpaqueID (rtRelationshipID t) \<and> rtValidFrom t \<noteq> 0 \<and> rtResolvedAt t \<noteq> 0 \<and> rtValidFrom t \<le> rtResolvedAt t"

text \<open>The resolution of the analysis target, with the second replay lookup in the state \<open>db1\<close> when the
  target is gone; \<open>Inr (Inl r)\<close> is the replayed reservation.\<close>

definition resolve_context ::
  "db_env \<Rightarrow> db_env \<Rightarrow> catalog_db \<Rightarrow> ReserveRequest \<Rightarrow> string \<Rightarrow> ingest_db \<Rightarrow> ingest_error + (Reservation + AnalysisContext option)" where
  "resolve_context cenv env1 cdb r fp db1 =
     (case rqAnalysisContext r of
        None \<Rightarrow> Inr (Inr None)
      | Some a \<Rightarrow>
          (case ResolveActiveRepositoryTarget cenv (rqWorkspaceID r) (rqApplicationID r) (acrTargetID a) cdb of
             Inl e \<Rightarrow>
               if e = ErrRepositoryTargetNotFound \<or> e = CatInvalid then
                 (case ReplayReservation env1 (replay_spec r fp) db1 of
                    Inl e' \<Rightarrow> Inl e'
                  | Inr (Some res) \<Rightarrow> Inr (Inl res)
                  | Inr None \<Rightarrow> Inl ErrAnalysisTargetNotFound)
               else Inl (IngCatalog e)
           | Inr t \<Rightarrow>
               if \<not> target_consistent r (acrTargetID a) t then Inl TargetInconsistent
               else Inr (Inr (Some \<lparr>acKind = acrKind a, acTargetType = acrTargetType a, acTargetID = rtRepositoryID t,
                 acTargetRelationshipID = rtRelationshipID t, acAssertionSource = ''api_client'', acAssertedBy = rqPrincipalID r,
                 acAcceptedAt = rtResolvedAt t\<rparr>))))"

definition reserve_spec ::
  "IngestConfig \<Rightarrow> gotime \<Rightarrow> ReserveRequest \<Rightarrow> string \<Rightarrow> string \<Rightarrow> string \<Rightarrow> string \<Rightarrow> AnalysisContext option \<Rightarrow> reserveSpec" where
  "reserve_spec c now r fp i art key ctx =
     \<lparr>rvImport = \<lparr>impID = i, impWorkspaceID = rqWorkspaceID r, impApplicationID = rqApplicationID r, impCreatedBy = rqPrincipalID r,
        impState = ImportAwaitingUpload, impReportFormat = rqReportFormat r, impOriginalFilename = rqOriginalFilename r,
        impExpectedSize = rqExpectedSize r, impExpectedSHA256 = rqExpectedSHA256 r, impMaxBytes = icMaxUploadBytes c,
        impUploadExpiresAt = truncate_us now + icUploadReservationTTL c, impCreatedAt = truncate_us now, impUpdatedAt = truncate_us now,
        impAnalysisContext = ctx\<rparr>,
      rvArtifactID = art, rvStorageBackend = icStorageBackend c, rvStorageKey = key, rvPrincipalID = rqPrincipalID r,
      rvAPIMajorVersion = apiMajorVersion, rvOperation = operationCreateImport, rvIdempotencyKey = rqIdempotencyKey r,
      rvRequestFingerprint = fp,
      rvRequestExceedsLimit = (case rqExpectedSize r of None \<Rightarrow> False | Some n \<Rightarrow> icMaxUploadBytes c < n),
      rvIdempotencyExpiresAt = truncate_us now + icIdempotencyRetention c\<rparr>"

text \<open>\<open>db0\<close>, \<open>db1\<close> and \<open>db\<close> are the states at the first lookup, at the second one and at the reservation.\<close>

definition Reserve ::
  "(string \<Rightarrow> string) \<Rightarrow> authorizer \<Rightarrow> IngestConfig \<Rightarrow> catalog_db \<Rightarrow> (nat \<Rightarrow> db_env) \<Rightarrow> gotime \<Rightarrow> (nat \<Rightarrow> string option)
     \<Rightarrow> ReserveRequest \<Rightarrow> ingest_db \<Rightarrow> ingest_db \<Rightarrow> ingest_db \<Rightarrow> ingest_db \<times> (ingest_error + Reservation)" where
  "Reserve sha auth c cdb envs now rnd r db0 db1 db =
     (if \<not> validateAuthorizationScope r then (db, Inl IngInvalid)
      else
        (case auth (rqPrincipalID r) (rqWorkspaceID r) (rqApplicationID r) CapabilityImportsCreate of
           Some e \<Rightarrow> (db, Inl (IngUnauthorized e))
         | None \<Rightarrow>
             if \<not> validateAnalysisContext (rqAnalysisContext r) then (db, Inl IngInvalid)
             else
               (case fingerprintRequest sha r of
                  None \<Rightarrow> (db, Inl IngInvalid)
                | Some fp \<Rightarrow>
                    (case and_then (ReplayReservation (envs 0) (replay_spec r fp) db0) (\<lambda>found.
                       case found of
                         Some res \<Rightarrow> Inr (Inl res)
                       | None \<Rightarrow>
                           and_then (import_identifier ''imp_'' (rnd 0)) (\<lambda>i.
                           and_then (import_identifier ''art_'' (rnd 1)) (\<lambda>art.
                           and_then (new_blob_key (rnd 2)) (\<lambda>key.
                           and_then (resolve_context (envs 1) (envs 2) cdb r fp db1) (\<lambda>out.
                           case out of
                             Inl res \<Rightarrow> Inr (Inl res)
                           | Inr ctx \<Rightarrow> Inr (Inr (reserve_spec c now r fp i art key ctx))))))) of
                       Inl e \<Rightarrow> (db, Inl e)
                     | Inr (Inl res) \<Rightarrow> (db, Inr res)
                     | Inr (Inr sp) \<Rightarrow> store_Reserve sha (envs 3) sp db))))"

section \<open>Upload\<close>

text \<open>\<open>io.Copy(io.Discard, bounded)\<close>: reads of 8192 bytes until the end or an error; the list holds the
  context errors before and after each read.  \<open>None\<close> is a read that panics or a loop that has not ended.\<close>

fun drain ::
  "'s source \<Rightarrow> (ctx_err option \<times> ctx_err option) list \<Rightarrow> BoundedReader \<times> 's \<Rightarrow> (BoundedReader \<times> blob_error option) option" where
  "drain src [] st = None"
| "drain src ((c1, c2) # cs) st =
     (case bounded_read src 8192 c1 c2 st of
        None \<Rightarrow> None
      | Some ((r, s), bs, err) \<Rightarrow>
          (case err of
             None \<Rightarrow> drain src cs (r, s)
           | Some e \<Rightarrow> Some (r, if e = EOF then None else Some e)))"

definition verifyContent ::
  "(string \<Rightarrow> string) \<Rightarrow> 's source \<Rightarrow> 's \<Rightarrow> (ctx_err option \<times> ctx_err option) list \<Rightarrow> int \<Rightarrow> int option \<Rightarrow> int option \<Rightarrow> string \<Rightarrow> int \<Rightarrow> string
     \<Rightarrow> ingest_error option option" where
  "verifyContent sha src s0 ctxs maxBytes declared expected expectedSHA csize digest =
     (if (case declared of None \<Rightarrow> False | Some n \<Rightarrow> maxBytes < n \<or> n \<noteq> csize) then Some (Some ErrUploadConflict)
      else if (case expected of None \<Rightarrow> False | Some n \<Rightarrow> n \<noteq> csize) then Some (Some ErrUploadMismatch)
      else if expectedSHA \<noteq> [] \<and> expectedSHA \<noteq> digest then Some (Some ErrUploadMismatch)
      else
        (case drain src ctxs (NewBoundedReader maxBytes, s0) of
           None \<Rightarrow> None
         | Some (r, Some e) \<Rightarrow> Some (Some (if e = blob_error.ErrTooLarge then ErrUploadConflict else IngBlob ''read upload'' e))
         | Some (r, None) \<Rightarrow>
             (case Result sha r of
                Inl e \<Rightarrow> Some (Some (IngBlob ''read upload'' e))
              | Inr (n, d) \<Rightarrow> Some (if n \<noteq> csize \<or> d \<noteq> digest then Some ErrUploadConflict else None))))"

definition end_spec :: "uploadSession \<Rightarrow> gotime \<Rightarrow> string \<Rightarrow> endUploadSpec" where
  "end_spec s t code =
     \<lparr>euWorkspaceID = usWorkspaceID s, euImportID = usImportID s, euArtifactID = usArtifactID s, euAttemptID = usAttemptID s,
      euEndedAt = truncate_us t, euRejectCode = code\<rparr>"

definition rejectAttempt ::
  "db_env \<Rightarrow> uploadSession \<Rightarrow> gotime \<Rightarrow> string \<Rightarrow> ingest_error \<Rightarrow> ingest_db \<Rightarrow> ingest_db \<times> (ingest_error + 'a)" where
  "rejectAttempt env s t code cause db =
     (case EndUpload env (end_spec s t code) db of
        (db', Inl e) \<Rightarrow> (db', Inl (IngJoin cause e))
      | (db', Inr _) \<Rightarrow> (db', Inl cause))"

definition releaseAttempt :: "db_env \<Rightarrow> uploadSession \<Rightarrow> gotime \<Rightarrow> ingest_error \<Rightarrow> ingest_db \<Rightarrow> ingest_db \<times> (ingest_error + 'a)" where
  "releaseAttempt env s t e db = (fst (EndUpload env (end_spec s t []) db), Inl e)"

definition handleBlobWriteFailure ::
  "db_env \<Rightarrow> uploadSession \<Rightarrow> gotime \<Rightarrow> blob_error \<Rightarrow> ingest_db \<Rightarrow> ingest_db \<times> (ingest_error + 'a)" where
  "handleBlobWriteFailure env s t e db =
     (case e of
        blob_error.ErrTooLarge \<Rightarrow> rejectAttempt env s t ''size_limit_exceeded'' IngTooLarge db
      | blob_error.ErrIntegrity \<Rightarrow> rejectAttempt env s t ''content_mismatch'' ErrUploadMismatch db
      | blob_error.ErrAlreadyExists \<Rightarrow> releaseAttempt env s t ErrUploadInProgress db
      | _ \<Rightarrow> releaseAttempt env s t (IngBlob ''store raw artifact'' e) db)"

text \<open>The blob store as the service sees it: what \<open>Stat\<close> finds, and what \<open>Put\<close> of the content under the
  given options returns.\<close>

record blobs =
  blob_stat :: "string \<Rightarrow> blob_error + Metadata"
  blob_put :: "string \<Rightarrow> PutOptions \<Rightarrow> blob_error + Metadata"

definition put_options :: "IngestConfig \<Rightarrow> UploadRequest \<Rightarrow> uploadSession \<Rightarrow> PutOptions" where
  "put_options c r s =
     \<lparr>poMaxBytes = usMaxBytes s, poTimeout = icUploadTimeout c,
      poExpectedSize = (if uqDeclaredSize r \<noteq> None then uqDeclaredSize r else usExpectedSize s), poExpectedSHA256 = usExpectedSHA256 s\<rparr>"

text \<open>The bytes reach the store: \<open>Inl\<close> is how the attempt ends instead.  \<open>None\<close> is a verification that
  does not end.\<close>

definition store_content ::
  "(string \<Rightarrow> string) \<Rightarrow> blobs \<Rightarrow> IngestConfig \<Rightarrow> 's source \<Rightarrow> 's \<Rightarrow> (ctx_err option \<times> ctx_err option) list \<Rightarrow> db_env \<Rightarrow> gotime \<Rightarrow> UploadRequest
     \<Rightarrow> uploadSession \<Rightarrow> ingest_db \<Rightarrow> (ingest_db \<times> (ingest_error + UploadReceipt) + Metadata) option" where
  "store_content sha B c src s0 ctxs env t r s db =
     (if usStorageBackend s \<noteq> icStorageBackend c then Some (Inl (releaseAttempt env s t ErrUploadStorage db))
      else if (case uqDeclaredSize r of None \<Rightarrow> False | Some n \<Rightarrow> usMaxBytes s < n)
      then Some (Inl (rejectAttempt env s t ''size_limit_exceeded'' IngTooLarge db))
      else if (case (uqDeclaredSize r, usExpectedSize s) of (Some n, Some m) \<Rightarrow> n \<noteq> m | _ \<Rightarrow> False)
      then Some (Inl (rejectAttempt env s t ''size_mismatch'' ErrUploadMismatch db))
      else
        (case ParseKey (usStorageKey s) of
           Inl e \<Rightarrow> Some (Inl (releaseAttempt env s t (IngBlob ''restore raw artifact storage key'' e) db))
         | Inr key \<Rightarrow>
             (case blob_stat B key of
                Inr m \<Rightarrow>
                  (case verifyContent sha src s0 ctxs (usMaxBytes s) (uqDeclaredSize r) (usExpectedSize s) (usExpectedSHA256 s)
                      (mdSize m) (mdSHA256 m) of
                     None \<Rightarrow> None
                   | Some (Some e) \<Rightarrow> Some (Inl (releaseAttempt env s t e db))
                   | Some None \<Rightarrow> Some (Inr m))
              | Inl e \<Rightarrow>
                  if e = blob_error.ErrNotFound then
                    (case blob_put B key (put_options c r s) of
                       Inl e' \<Rightarrow> Some (Inl (handleBlobWriteFailure env s t e' db))
                     | Inr m \<Rightarrow> Some (Inr m))
                  else Some (Inl (releaseAttempt env s t (IngBlob ''inspect raw artifact storage'' e) db)))))"

definition commit_spec :: "UploadRequest \<Rightarrow> uploadSession \<Rightarrow> Metadata \<Rightarrow> commitUploadSpec" where
  "commit_spec r s m =
     \<lparr>cuWorkspaceID = uqWorkspaceID r, cuImportID = uqImportID r, cuArtifactID = usArtifactID s, cuAttemptID = usAttemptID s,
      cuSizeBytes = mdSize m, cuSHA256 = mdSHA256 m, cuStorageVersion = mdVersion m, cuBackendVersion = mdBackendVersion m,
      cuCommittedAt = truncate_us (mdCommittedAt m)\<rparr>"

definition begin_spec :: "IngestConfig \<Rightarrow> gotime \<Rightarrow> UploadRequest \<Rightarrow> string \<Rightarrow> string \<Rightarrow> string \<Rightarrow> beginUploadSpec" where
  "begin_spec c now r art att key =
     \<lparr>buPrincipalID = uqPrincipalID r, buWorkspaceID = uqWorkspaceID r, buApplicationID = uqApplicationID r, buImportID = uqImportID r,
      buArtifactID = art, buStorageBackend = icStorageBackend c, buStorageKey = key, buAttemptID = att,
      buStartedAt = truncate_us now, buLeaseExpiresAt = truncate_us now + icUploadTimeout c\<rparr>"

definition verifyReplay ::
  "(string \<Rightarrow> string) \<Rightarrow> 's source \<Rightarrow> 's \<Rightarrow> (ctx_err option \<times> ctx_err option) list \<Rightarrow> UploadRequest \<Rightarrow> uploadSession \<Rightarrow> UploadReceipt
     \<Rightarrow> (ingest_error + UploadReceipt) option" where
  "verifyReplay sha src s0 ctxs r s rc =
     (case verifyContent sha src s0 ctxs (usMaxBytes s) (uqDeclaredSize r) (usExpectedSize s) (usExpectedSHA256 s)
         (urSizeBytes rc) (urSHA256 rc) of
        None \<Rightarrow> None
      | Some (Some e) \<Rightarrow> Some (Inl ErrUploadConflict)
      | Some None \<Rightarrow> Some (Inr rc))"

text \<open>\<open>envs\<close> and \<open>clk\<close> are the environments and clock readings of the successive calls, and \<open>others k\<close> is
  what other processes do before the \<open>k\<close>-th call after the first.\<close>

definition Upload ::
  "(string \<Rightarrow> string) \<Rightarrow> authorizer \<Rightarrow> blobs \<Rightarrow> IngestConfig \<Rightarrow> 's source \<Rightarrow> 's \<Rightarrow> (ctx_err option \<times> ctx_err option) list
     \<Rightarrow> (nat \<Rightarrow> db_env) \<Rightarrow> (nat \<Rightarrow> gotime) \<Rightarrow> (nat \<Rightarrow> string option) \<Rightarrow> (nat \<Rightarrow> ingest_db \<Rightarrow> ingest_db) \<Rightarrow> bool \<Rightarrow> UploadRequest \<Rightarrow> ingest_db
     \<Rightarrow> (ingest_db \<times> (ingest_error + UploadReceipt)) option" where
  "Upload sha auth B c src s0 ctxs envs clk rnd others hasContent r db =
     (if \<not> validateUploadRequest hasContent r then Some (db, Inl IngInvalid)
      else
        (case auth (uqPrincipalID r) (uqWorkspaceID r) (uqApplicationID r) CapabilityImportsUpload of
           Some e \<Rightarrow> Some (db, Inl (IngUnauthorized e))
         | None \<Rightarrow>
             (case and_then (import_identifier ''art_'' (rnd 0)) (\<lambda>art. and_then (import_identifier ''upl_'' (rnd 1)) (\<lambda>att.
                 and_then (new_blob_key (rnd 2)) (\<lambda>key. Inr (begin_spec c (clk 0) r art att key)))) of
                Inl e \<Rightarrow> Some (db, Inl e)
              | Inr sp \<Rightarrow>
                  (case BeginUpload (envs 0) sp db of
                     (db1, Inl e) \<Rightarrow> Some (db1, Inl e)
                   | (db1, Inr s) \<Rightarrow>
                       (case usCommitted s of
                          Some rc \<Rightarrow> map_option (Pair db1) (verifyReplay sha src s0 ctxs r s rc)
                        | None \<Rightarrow>
                            (case store_content sha B c src s0 ctxs (envs 1) (clk 1) r s (others 0 db1) of
                               None \<Rightarrow> None
                             | Some (Inl out) \<Rightarrow> Some out
                             | Some (Inr m) \<Rightarrow>
                                 (case CommitUpload (envs 1) (commit_spec r s m) (others 0 db1) of
                                    (db2, Inr receipt) \<Rightarrow> Some (db2, Inr receipt)
                                  | (db2, Inl e) \<Rightarrow> Some (releaseAttempt (envs 2) s (clk 2) e (others 1 db2)))))))))"

end
