(* ===== verification/Import_Stream.thy ===== *)
theory Import_Stream
  imports Import_Service
begin

text \<open>
  The content of an upload as a stream: what draining it through the bounded reader yields, and that the
  verification of replayed content is exact and ends.
\<close>

lemma hex_decode_of [simp]: "hex_decode (hex_of s) = Some s"
proof (induction s)
  case (Cons c s)
  have "byte c div 16 < 16" using byte_less [of c] by (simp add: less_mult_imp_div_less)
  moreover have "char_of (16 * (byte c div 16) + byte c mod 16) = c" by (simp add: byte_def)
  ultimately show ?case using Cons by (simp add: hex_of_def)
qed (simp add: hex_of_def)

section \<open>Streams of a finite content\<close>

text \<open>The contract of an upload's reader: reads into a non-empty buffer deliver the content in order, an end
  of file comes with the last of it, and only finitely many reads come before.\<close>

locale byte_stream =
  fixes source :: "'s source" and content :: "'s \<Rightarrow> string" and steps :: "'s \<Rightarrow> nat"
  assumes more: "source n s = (s', bs, None) \<Longrightarrow> 0 < n \<Longrightarrow> content s = bs @ content s' \<and> steps s' < steps s"
    and last: "source n s = (s', bs, Some EOF) \<Longrightarrow> 0 < n \<Longrightarrow> content s = bs"
begin

lemma bounded_content:
  assumes "bounded_inv m out r" "0 \<le> m" "m < 2 ^ 63 - 1" "brErr r = None" "\<not> brFinished r"
    and "bounded_read source 8192 c1 c2 (r, s) = Some ((r', s'), bs, err)"
  shows "err = None \<Longrightarrow> bounded_inv m (out @ bs) r' \<and> brErr r' = None \<and> \<not> brFinished r' \<and> content s = bs @ content s' \<and> steps s' < steps s"
    and "err = Some EOF \<Longrightarrow> bounded_inv m (out @ bs) r' \<and> brErr r' = None \<and> brFinished r' \<and> content s = bs"
proof -
  have w: "wrap64 (m - int (length out)) = m - int (length out)"
    "wrap64 (m - int (length out) + 1) = m - int (length out) + 1"
    using assms(1-3) by (auto simp: bounded_inv_def in_int64_def)
  define k where "k = (if 8192 > m - int (length out) + 1 then nat (m - int (length out) + 1) else 8192)"
  obtain s1 bs1 e1 where s: "source k s = (s1, bs1, e1)" by (metis prod.exhaust)
  have k: "0 < k" using assms(1) by (auto simp: k_def bounded_inv_def)
  from bounded_step [OF assms(1-3), of source 8192 c1 c2 s] assms(6) have i: "bounded_inv m (out @ bs) r'" by simp
  have f: "err = None \<or> err = Some EOF \<Longrightarrow> source k s = (s', bs, err) \<and> brErr r' = None \<and> brFinished r' = (err = Some EOF)"
    using assms(1,4-6) s unfolding k_def
    by (auto simp: bounded_read_def bounded_inv_def w Let_def ContextError_def split: option.splits if_splits ctx_err.splits)
  show "err = None \<Longrightarrow> bounded_inv m (out @ bs) r' \<and> brErr r' = None \<and> \<not> brFinished r' \<and> content s = bs @ content s' \<and> steps s' < steps s"
    using i f more [OF _ k] by simp
  show "err = Some EOF \<Longrightarrow> bounded_inv m (out @ bs) r' \<and> brErr r' = None \<and> brFinished r' \<and> content s = bs"
    using i f last [OF _ k] by simp
qed

lemma drain_ends:
  assumes "0 \<le> m" "m < 2 ^ 63 - 1"
  shows "bounded_inv m out r \<Longrightarrow> brErr r = None \<Longrightarrow> \<not> brFinished r \<Longrightarrow> steps s < length ctxs \<Longrightarrow> drain source ctxs (r, s) \<noteq> None"
proof (induction ctxs arbitrary: out r s)
  case (Cons c ctxs)
  obtain c1 c2 where c: "c = (c1, c2)" by (cases c)
  obtain r' s' bs err where b: "bounded_read source 8192 c1 c2 (r, s) = Some ((r', s'), bs, err)"
    using bounded_step [OF Cons.prems(1) assms, of source 8192 c1 c2 s] by blast
  note n = bounded_content(1) [OF Cons.prems(1) assms Cons.prems(2,3) b]
  show ?case
  proof (cases err)
    case None
    with n Cons.prems(4) have "drain source ctxs (r', s') \<noteq> None" by (intro Cons.IH [of "out @ bs"]) auto
    with None b c show ?thesis by simp
  qed (simp add: b c)
qed simp

lemma drain_exact:
  assumes "0 \<le> m" "m < 2 ^ 63 - 1"
  shows "bounded_inv m out r \<Longrightarrow> brErr r = None \<Longrightarrow> \<not> brFinished r \<Longrightarrow> drain source ctxs (r, s) = Some (r', None) \<Longrightarrow>
    Result sha r' = Inr (int (length (out @ content s)), hex_of (sha (out @ content s)))"
proof (induction ctxs arbitrary: out r s)
  case (Cons c ctxs)
  obtain c1 c2 where c: "c = (c1, c2)" by (cases c)
  obtain r1 s1 bs err where b: "bounded_read source 8192 c1 c2 (r, s) = Some ((r1, s1), bs, err)"
    using bounded_step [OF Cons.prems(1) assms, of source 8192 c1 c2 s] by blast
  note n = bounded_content [OF Cons.prems(1) assms Cons.prems(2,3) b]
  show ?case
  proof (cases err)
    case None
    with Cons.prems(4) b c have "drain source ctxs (r1, s1) = Some (r', None)" by simp
    with None n(1) Cons.IH [of "out @ bs" r1 s1] show ?thesis by simp
  next
    case (Some e)
    with Cons.prems(4) b c have "e = EOF" "r1 = r'" by (auto split: if_splits)
    with Some n(2) show ?thesis by (simp add: Result_def bounded_inv_def)
  qed
qed simp

lemma verifyContent_ends:
  assumes "0 \<le> m" "m < 2 ^ 63 - 1" "steps s < length ctxs"
  shows "verifyContent sha source s ctxs m declared expected esha csize digest \<noteq> None"
proof -
  have "drain source ctxs (NewBoundedReader m, s) \<noteq> None"
    by (rule drain_ends [OF assms(1,2) _ _ _ assms(3), of "[]"]) (use assms(1) in \<open>simp_all add: NewBoundedReader_def bounded_inv_def\<close>)
  then show ?thesis unfolding verifyContent_def by (auto split: option.splits sum.splits prod.splits if_splits)
qed

lemma verifyContent_exact:
  assumes "0 \<le> m" "m < 2 ^ 63 - 1" "verifyContent sha source s ctxs m declared expected esha csize digest = Some None"
  shows "csize = int (length (content s)) \<and> digest = hex_of (sha (content s))"
proof -
  from assms(3) obtain r n d where d: "drain source ctxs (NewBoundedReader m, s) = Some (r, None)" "Result sha r = Inr (n, d)" "n = csize" "d = digest"
    unfolding verifyContent_def by (auto split: option.splits sum.splits prod.splits if_splits)
  have "Result sha r = Inr (int (length ([] @ content s)), hex_of (sha ([] @ content s)))"
    by (rule drain_exact [OF assms(1,2) _ _ _ d(1)]) (use assms(1) in \<open>simp_all add: NewBoundedReader_def bounded_inv_def\<close>)
  with d show ?thesis by simp
qed

end

interpretation chunk_content: byte_stream chunk_read concat "\<lambda>cs. length cs + length (concat cs)"
proof
  fix n s s' bs
  assume a: "chunk_read n s = (s', bs, None)" "0 < n"
  then show "concat s = bs @ concat s' \<and> length s' + length (concat s') < length s + length (concat s)"
    using chunk_reads_delivered [OF a(1)] by (cases "(n, s)" rule: chunk_read.cases) (auto split: if_splits)
next
  fix n s s' bs
  assume "chunk_read n s = (s', bs, Some EOF)"
  then show "concat s = bs" by (cases "(n, s)" rule: chunk_read.cases) (auto split: if_splits)
qed

end
