(* ===== verification/Import_Facts.thy ===== *)
theory Import_Facts
  imports Import_Stream
begin

text \<open>
  Facts the properties of imports rest on: every call of the service is a run of the store; request keys,
  analysis contexts, the columns of an import other than its state and update time and the identity columns of
  an operation never change once written; and a reservation or a completion is found again under its key.
\<close>

section \<open>Service calls are runs of the store\<close>

abbreviation ingest_run :: "(string \<Rightarrow> string) \<Rightarrow> (string \<Rightarrow> string option) \<Rightarrow> ingest_db \<Rightarrow> ingest_db \<Rightarrow> bool" where
  "ingest_run sha jsonb \<equiv> (ingest_step sha jsonb)\<^sup>*\<^sup>*"

lemma Complete_run:
  assumes "Complete sha jsonb auth c env now opRnd jobRnd r db = (db', res)"
  shows "ingest_run sha jsonb db db'"
proof -
  from assms have "db' = db \<or> (\<exists>fp op. store_Complete sha jsonb env jobRnd (complete_spec c now r fp op) db = (db', res))"
    by (auto simp: Complete_def split: if_splits option.splits sum.splits)
  then show ?thesis
  proof
    assume "\<exists>fp op. store_Complete sha jsonb env jobRnd (complete_spec c now r fp op) db = (db', res)"
    then obtain fp op where "store_Complete sha jsonb env jobRnd (complete_spec c now r fp op) db = (db', res)" by blast
    from ingest_step.complete [OF this] show ?thesis by (simp add: complete_spec_def r_into_rtranclp)
  qed simp
qed

lemma Reserve_run:
  assumes "Reserve sha auth c cdb envs now rnd r db0 db1 db = (db', res)"
  shows "ingest_run sha jsonb db db'"
proof -
  from assms have "db' = db \<or> (\<exists>fp i art key ctx. store_Reserve sha (envs 3) (reserve_spec c now r fp i art key ctx) db = (db', res))"
    by (auto simp: Reserve_def and_then_Inr split: if_splits option.splits sum.splits) (metis sum.exhaust)
  then show ?thesis
  proof
    assume "\<exists>fp i art key ctx. store_Reserve sha (envs 3) (reserve_spec c now r fp i art key ctx) db = (db', res)"
    then obtain fp i art key ctx where "store_Reserve sha (envs 3) (reserve_spec c now r fp i art key ctx) db = (db', res)"
      by blast
    from ingest_step.reserve [OF this] show ?thesis by (simp add: reserve_spec_def r_into_rtranclp)
  qed simp
qed

lemma EndUpload_run: "ingest_run sha jsonb db (fst (EndUpload env sp db))"
  by (rule r_into_rtranclp, rule ingest_step.end_upload) (rule prod.collapse [symmetric])

lemma attempt_end_run:
  "rejectAttempt env s t code e db = (db', res) \<Longrightarrow> ingest_run sha jsonb db db'"
  "releaseAttempt env s t e db = (db', res) \<Longrightarrow> ingest_run sha jsonb db db'"
  "handleBlobWriteFailure env s t be db = (db', res) \<Longrightarrow> ingest_run sha jsonb db db'"
proof -
  have rej: "rejectAttempt env s t code e db = (db', res) \<Longrightarrow> ingest_run sha jsonb db db'" for code e
    using EndUpload_run [of sha jsonb db env "end_spec s t code"] by (auto simp: rejectAttempt_def split: prod.splits sum.splits)
  have rel: "releaseAttempt env s t e db = (db', res) \<Longrightarrow> ingest_run sha jsonb db db'" for e
    using EndUpload_run [of sha jsonb db env "end_spec s t []"] by (auto simp: releaseAttempt_def)
  show "rejectAttempt env s t code e db = (db', res) \<Longrightarrow> ingest_run sha jsonb db db'" by (rule rej)
  show "releaseAttempt env s t e db = (db', res) \<Longrightarrow> ingest_run sha jsonb db db'" by (rule rel)
  show "handleBlobWriteFailure env s t be db = (db', res) \<Longrightarrow> ingest_run sha jsonb db db'"
    by (auto simp: handleBlobWriteFailure_def intro: rej rel split: blob_error.splits)
qed

lemma store_content_run:
  assumes "store_content sha' B c src s0 ctxs env t r s db = Some (Inl (db', res))"
  shows "ingest_run sha jsonb db db'"
  using assms unfolding store_content_def
  by (auto intro: attempt_end_run split: if_splits option.splits sum.splits)

text \<open>The successful end of an upload that stored or found the bytes.\<close>

lemma Upload_cases:
  assumes "Upload sha auth B c src s0 ctxs envs clk rnd others hc r db = Some (db', res)"
  obtains (refused) e where "db' = db" "res = Inl e"
  | (begun) sp e where "BeginUpload (envs 0) sp db = (db', Inl e)" "res = Inl e"
  | (replayed) sp s rc where "BeginUpload (envs 0) sp db = (db', Inr s)" "usCommitted s = Some rc"
      "verifyReplay sha src s0 ctxs r s rc = Some res" "buWorkspaceID sp = uqWorkspaceID r" "buImportID sp = uqImportID r"
  | (ended) sp db1 s where "BeginUpload (envs 0) sp db = (db1, Inr s)" "usCommitted s = None"
      "store_content sha B c src s0 ctxs (envs 1) (clk 1) r s (others 0 db1) = Some (Inl (db', res))"
  | (lost) sp db1 s m db2 e where "BeginUpload (envs 0) sp db = (db1, Inr s)" "usCommitted s = None"
      "CommitUpload (envs 1) (commit_spec r s m) (others 0 db1) = (db2, Inl e)"
      "releaseAttempt (envs 2) s (clk 2) e (others 1 db2) = (db', res)"
  | (committed) sp db1 s m rc where "BeginUpload (envs 0) sp db = (db1, Inr s)" "usCommitted s = None"
      "store_content sha B c src s0 ctxs (envs 1) (clk 1) r s (others 0 db1) = Some (Inr m)"
      "CommitUpload (envs 1) (commit_spec r s m) (others 0 db1) = (db', Inr rc)" "res = Inr rc"
  using assms unfolding Upload_def
  by (auto simp: and_then_Inr begin_spec_def split: if_splits option.splits sum.splits prod.splits)

lemma Upload_run:
  assumes "Upload sha auth B c src s0 ctxs envs clk rnd others hc r db = Some (db', res)"
    and o: "\<And>k d. ingest_run sha jsonb d (others k d)"
  shows "ingest_run sha jsonb db db'"
proof -
  have b: "BeginUpload (envs 0) sp db = (d, x) \<Longrightarrow> ingest_run sha jsonb db d" for sp d x
    by (blast intro: r_into_rtranclp ingest_step.begin_upload)
  have cm: "CommitUpload env csp d = (d', x) \<Longrightarrow> ingest_run sha jsonb d d'" for env csp d d' x
    by (blast intro: r_into_rtranclp ingest_step.commit_upload)
  from assms(1) show ?thesis
  proof (cases rule: Upload_cases)
    case (ended sp db1 s)
    from b [OF ended(1)] o [of db1 0] store_content_run [OF ended(3)] show ?thesis by (blast intro: rtranclp_trans)
  next
    case (lost sp db1 s m db2 e)
    from b [OF lost(1)] o [of db1 0] cm [OF lost(3)] o [of db2 1] attempt_end_run(2) [OF lost(4)]
    show ?thesis by (meson rtranclp_trans)
  next
    case (committed sp db1 s m rc)
    from b [OF committed(1)] o [of db1 0] cm [OF committed(4)] show ?thesis by (blast intro: rtranclp_trans)
  qed (use b in auto)
qed

section \<open>Tables that only grow, and columns that stay\<close>

text \<open>An import without the two columns that the store updates.\<close>

definition import_identity :: "import_row \<Rightarrow> import_row" where
  "import_identity r = r\<lparr>im_state := ImportAwaitingUpload, im_updated_at := 0\<rparr>"

lemma import_identity_key [simp]: "import_key (import_identity r) = import_key r"
  by (simp add: import_identity_def import_key_def)

lemma import_identity_owned: "import_identity x = import_identity y \<Longrightarrow> owned ws i app prn x = owned ws i app prn y"
  by (cases x; cases y) (simp add: import_identity_def owned_def)

definition context_key :: "context_row \<Rightarrow> string \<times> string" where
  "context_key c = (ctx_workspace c, ctx_import c)"

lemma new_contexts_key: "c \<in> set (new_contexts i) \<Longrightarrow> context_key c = (impWorkspaceID i, impID i)"
  by (auto simp: new_contexts_def context_key_def split: option.splits)

definition operation_identity :: "operation_row \<Rightarrow> (string \<times> string) \<times> string \<times> string \<times> string \<times> gotime" where
  "operation_identity x = ((or_workspace x, or_id x), or_import x, or_principal x, or_kind x, or_created_at x)"

definition columns :: "ingest_db \<Rightarrow>
    key_row list \<times> key_row list \<times> context_row list \<times> import_row list \<times>
    ((string \<times> string) \<times> string \<times> string \<times> string \<times> gotime) list" where
  "columns db = (create_keys db, complete_keys db, import_contexts db, map import_identity (import_rows db), map operation_identity (operations db))"

lemma set_import_columns: "set_import ws i P s t db = Some d \<Longrightarrow> columns d = columns db"
  by (auto simp: set_import_def columns_def update_rows_Some map_sql_update import_identity_def)

lemma set_artifact_columns: "set_artifact P f db = Some d \<Longrightarrow> columns d = columns db"
  by (auto simp: set_artifact_def columns_def)

lemma set_operation_columns:
  "set_operation ws o' P f db = Some d \<Longrightarrow> (\<And>x. operation_identity (f x) = operation_identity x) \<Longrightarrow> columns d = columns db"
  by (auto simp: set_operation_def columns_def update_rows_Some map_sql_update)

lemma finish_attempt_columns: "finish_attempt env mA mI ps sel f ws i s t db = Inr d \<Longrightarrow> columns d = columns db"
  by (auto simp: finish_attempt_def and_then_Inr exec_Inr dest!: set_import_columns set_artifact_columns split: if_splits)

lemma upload_columns:
  shows "CommitUpload env csp db = (db', cres) \<Longrightarrow> columns db' = columns db"
    and "EndUpload env esp db = (db', eres) \<Longrightarrow> columns db' = columns db"
  by (auto simp: CommitUpload_def EndUpload_def and_then_Inr dest!: transact_db dest: finish_attempt_columns split: option.splits if_splits)

lemma insert_artifact_columns: "insert_artifact a db = Some d \<Longrightarrow> columns d = columns db"
  by (auto simp: insert_artifact_def columns_def)

lemma BeginUpload_columns:
  assumes "BeginUpload env sp db = (db', res)"
  shows "columns db' = columns db"
proof -
  have e: "expire_upload env sp art db = Inr d \<Longrightarrow> columns d = columns db" for art d
    by (auto simp: expire_upload_def and_then_Inr exec_Inr dest!: set_import_columns set_artifact_columns split: if_splits)
  have l: "lease_upload env sp r art db = Inr (d, s) \<Longrightarrow> columns d = columns db" for r art d s
    by (auto simp: lease_upload_def Let_def and_then_Inr exec_Inr dest!: insert_artifact_columns set_artifact_columns split: option.splits if_splits)
  from assms show ?thesis
    by (auto simp: BeginUpload_def and_then_Inr exec_Inr Let_def dest!: transact_db set_import_columns e l split: option.splits if_splits prod.splits)
qed

lemma processing_columns:
  shows "BeginProcessing env p t db = (db', pres) \<Longrightarrow> columns db' = columns db"
    and "RecordParseOutput sha env wsp db = (db', wres) \<Longrightarrow> columns db' = columns db"
    and "CompleteProcessing jsonb env p n t db = (db', fres) \<Longrightarrow> columns db' = columns db"
    and "FailProcessing env p f t db = (db', fres') \<Longrightarrow> columns db' = columns db"
proof -
  show "BeginProcessing env p t db = (db', pres) \<Longrightarrow> columns db' = columns db"
    by (auto simp: BeginProcessing_def and_then_Inr exec_Inr operation_identity_def running_operation_def
      dest!: transact_db set_import_columns set_operation_columns split: option.splits if_splits)
  show "RecordParseOutput sha env wsp db = (db', wres) \<Longrightarrow> columns db' = columns db"
    by (auto simp: RecordParseOutput_def and_then_Inr exec_Inr columns_def dest!: transact_db split: option.splits if_splits prod.splits)
  show "CompleteProcessing jsonb env p n t db = (db', fres) \<Longrightarrow> columns db' = columns db"
    by (auto simp: CompleteProcessing_def and_then_Inr exec_Inr operation_identity_def
      dest!: transact_db set_import_columns set_operation_columns split: option.splits if_splits)
  show "FailProcessing env p f t db = (db', fres') \<Longrightarrow> columns db' = columns db"
    by (auto simp: FailProcessing_def and_then_Inr exec_Inr operation_identity_def failed_operation_def
      dest!: transact_db set_import_columns set_operation_columns split: option.splits if_splits)
qed

text \<open>Every step keeps those columns, or is a reservation or a completion that appends one row to each table it writes.\<close>

lemma step_columns:
  assumes "ingest_step sha jsonb db db'"
  shows "columns db' = columns db \<or>
    (\<exists>k r cs. columns db' = (create_keys db @ [k], complete_keys db, import_contexts db @ cs,
        map import_identity (import_rows db) @ [import_identity r], map operation_identity (operations db)) \<and>
      key_scope k \<notin> key_scope ` set (create_keys db) \<and> import_key r \<notin> import_key ` set (import_rows db) \<and>
      (\<forall>c\<in>set cs. context_key c = import_key r)) \<or>
    (\<exists>k x. columns db' = (create_keys db, complete_keys db @ [k], import_contexts db, map import_identity (import_rows db),
        map operation_identity (operations db) @ [operation_identity x]) \<and>
      key_scope k \<notin> key_scope ` set (complete_keys db) \<and>
      (or_workspace x, or_id x) \<notin> (\<lambda>x. (or_workspace x, or_id x)) ` set (operations db))"
  using assms
proof cases
  case (reserve env sp res)
  show ?thesis
  proof (cases "db' = db")
    case False
    obtain r where "columns db' = (create_keys db @ [create_key sp], complete_keys db, import_contexts db @ new_contexts (rvImport sp),
        map import_identity (import_rows db) @ [import_identity r], map operation_identity (operations db))"
      "key_scope (create_key sp) \<notin> key_scope ` set (create_keys db)" "import_key r \<notin> import_key ` set (import_rows db)"
      "\<forall>c\<in>set (new_contexts (rvImport sp)). context_key c = import_key r"
      by (rule store_Reserve_wrote [OF reserve(1) False]) (simp add: columns_def new_contexts_key)
    then show ?thesis by blast
  qed simp
next
  case (complete env rnd sp res)
  show ?thesis
  proof (cases "db' = db")
    case False
    let ?x = "operation_row_of (cpOperation sp)"
    have "columns db' = (create_keys db, complete_keys db @ [complete_key sp], import_contexts db, map import_identity (import_rows db),
        map operation_identity (operations db) @ [operation_identity ?x])"
      "key_scope (complete_key sp) \<notin> key_scope ` set (complete_keys db)"
      "(or_workspace ?x, or_id ?x) \<notin> (\<lambda>x. (or_workspace x, or_id x)) ` set (operations db)"
      by (rule store_Complete_wrote [OF complete(1) False], drule set_import_columns, simp add: columns_def)+
    then show ?thesis by blast
  qed simp
qed (auto simp: columns_def dest!: upload_columns BeginUpload_columns processing_columns)

interpretation create_keys_grow: append_only "ingest_step sha jsonb" create_keys key_scope for sha jsonb
  by unfold_locales (auto simp: columns_def dest!: step_columns)

interpretation complete_keys_grow: append_only "ingest_step sha jsonb" complete_keys key_scope for sha jsonb
  by unfold_locales (auto simp: columns_def dest!: step_columns)

interpretation imports_grow: append_only "ingest_step sha jsonb" "\<lambda>db. map import_identity (import_rows db)" import_key for sha jsonb
  by unfold_locales (auto simp: columns_def image_image dest!: step_columns)

interpretation operations_grow: append_only "ingest_step sha jsonb" "\<lambda>db. map operation_identity (operations db)" fst for sha jsonb
  by unfold_locales (auto simp: columns_def operation_identity_def image_image dest!: step_columns)

text \<open>Contexts belong to imports, and the context of an import is fixed when the import is written.\<close>

definition context_of :: "string \<times> string \<Rightarrow> ingest_db \<Rightarrow> context_row option" where
  "context_of k db = sql_row (\<lambda>c. context_key c = k) (import_contexts db)"

definition contexts_owned :: "ingest_db \<Rightarrow> bool" where
  "contexts_owned db \<longleftrightarrow> context_key ` set (import_contexts db) \<subseteq> import_key ` set (import_rows db)"

lemma import_keys_identity: "import_key ` set (map import_identity rs) = import_key ` set rs"
  by (simp add: image_image)

lemma step_contexts:
  assumes "ingest_step sha jsonb db db'"
  shows "contexts_owned db \<Longrightarrow> contexts_owned db'"
    and "import_key ` set (import_rows db) \<subseteq> import_key ` set (import_rows db')"
    and "k \<in> import_key ` set (import_rows db) \<Longrightarrow> context_of k db' = context_of k db"
proof -
  have e: "import_key ` set (import_rows db') = import_key ` set (map import_identity (import_rows db'))" by (simp add: image_image)
  from step_columns [OF assms] obtain cs ks where c: "import_contexts db' = import_contexts db @ cs"
      "import_key ` set (import_rows db') = import_key ` set (import_rows db) \<union> ks"
      "context_key ` set cs \<subseteq> ks" "ks \<inter> import_key ` set (import_rows db) = {}"
  proof (elim disjE exE conjE)
    assume "columns db' = columns db"
    then show thesis by (intro that [of "[]" "{}"]) (simp_all only: columns_def prod.inject e, simp_all add: image_image)
  next
    fix k r cs
    assume a: "columns db' = (create_keys db @ [k], complete_keys db, import_contexts db @ cs,
        map import_identity (import_rows db) @ [import_identity r], map operation_identity (operations db))"
      "import_key r \<notin> import_key ` set (import_rows db)" "\<forall>c\<in>set cs. context_key c = import_key r"
    then show thesis by (intro that [of cs "{import_key r}"]) (simp_all only: columns_def prod.inject e, auto simp: image_image)
  next
    fix k x
    assume "columns db' = (create_keys db, complete_keys db @ [k], import_contexts db, map import_identity (import_rows db),
        map operation_identity (operations db) @ [operation_identity x])"
    then show thesis by (intro that [of "[]" "{}"]) (simp_all only: columns_def prod.inject e, simp_all add: image_image)
  qed
  show "contexts_owned db \<Longrightarrow> contexts_owned db'" using c(1-3) by (auto simp: contexts_owned_def)
  show "import_key ` set (import_rows db) \<subseteq> import_key ` set (import_rows db')" using c(2) by blast
  assume "k \<in> import_key ` set (import_rows db)"
  with c(3,4) have "sql_row (\<lambda>c. context_key c = k) cs = None" by (intro sql_row_absent) blast
  then show "context_of k db' = context_of k db" by (simp add: context_of_def c(1) sql_row_append split: option.split)
qed

lemma run_contexts:
  assumes "ingest_run sha jsonb db db'"
  shows "contexts_owned db \<Longrightarrow> contexts_owned db'"
    and "k \<in> import_key ` set (import_rows db) \<Longrightarrow> k \<in> import_key ` set (import_rows db') \<and> context_of k db' = context_of k db"
proof -
  show "contexts_owned db \<Longrightarrow> contexts_owned db'"
    using assms by (induction rule: rtranclp_induct) (simp_all add: step_contexts(1))
  have "k \<in> import_key ` set (import_rows db) \<longrightarrow> k \<in> import_key ` set (import_rows db') \<and> context_of k db' = context_of k db"
    using assms
  proof (induction rule: rtranclp_induct)
    case (step y z)
    from subsetD [OF step_contexts(2) [OF step(2)]] step_contexts(3) [OF step(2)] step(3) show ?case by simp
  qed simp
  then show "k \<in> import_key ` set (import_rows db) \<Longrightarrow> k \<in> import_key ` set (import_rows db') \<and> context_of k db' = context_of k db" by blast
qed

section \<open>Completion under an idempotency key\<close>

lemma queue_import_operations:
  assumes "queue_import sha jsonb env rnd sp db = Inr d"
  shows "operations d = operations db @ [operation_row_of (cpOperation sp)]"
proof -
  from assms obtain d1 where d1: "insert_operation (cpOperation sp) db = Some d1"
    by (auto simp: queue_import_def Let_def and_then_Inr exec_Inr)
  then have o: "operations d1 = operations db @ [operation_row_of (cpOperation sp)]"
    by (auto simp: insert_operation_def insert_row_Some)
  show ?thesis
  proof (cases "EnqueueTx sha jsonb env rnd (process_job sp) (job_queue d1)")
    case (Inr y)
    obtain q job where "y = (q, job)" by (cases y)
    with Inr assms d1 have "set_import (opWorkspaceID (cpOperation sp)) (opImportID (cpOperation sp)) (\<lambda>s. s = ImportUploaded)
        ImportQueued (opUpdatedAt (cpOperation sp)) (d1\<lparr>job_queue := q\<rparr>) = Some d"
      by (auto simp: queue_import_def Let_def and_then_Inr exec_Inr split: if_splits)
    from import_of_set_import [OF this] o show ?thesis by simp
  qed (use assms d1 in \<open>auto simp: queue_import_def Let_def and_then_Inr exec_Inr\<close>)
qed

lemma store_Complete_created:
  assumes "store_Complete sha jsonb env rnd sp db = (db', Inr c)" "coCreated c"
  shows "db' \<noteq> db" "coOperation c = cpOperation sp"
proof -
  let ?x = "cpOperation sp"
  have "\<exists>keys. queue_import sha jsonb env rnd sp (db\<lparr>complete_keys := keys\<rparr>) = Inr db' \<and> coOperation c = cpOperation sp"
  proof (cases "sql_row (owned (opWorkspaceID ?x) (opImportID ?x) (cpApplicationID sp) (cpPrincipalID sp)) (import_rows db)")
    case None
    with assms show ?thesis
      by (auto simp: store_Complete_def Let_def and_then_Inr exec_Inr dest!: transact_Inr split: option.splits if_splits prod.splits)
  next
    case (Some r)
    with assms show ?thesis
      by (cases "im_state r \<noteq> ImportUploaded \<or> map_option ar_state (artifact_of (opWorkspaceID ?x) (opImportID ?x) db) \<noteq> Some ArtifactCommitted")
        (auto simp: store_Complete_def Let_def and_then_Inr exec_Inr dest!: transact_Inr split: option.splits if_splits prod.splits)
  qed
  then obtain keys where q: "queue_import sha jsonb env rnd sp (db\<lparr>complete_keys := keys\<rparr>) = Inr db'" "coOperation c = cpOperation sp" by blast
  from queue_import_operations [OF q(1)] show "db' \<noteq> db" by auto
  show "coOperation c = cpOperation sp" by (rule q(2))
qed

lemma store_Complete_replay:
  assumes "calm env" "\<forall>k. \<not> db_locked env k" "key_row_ok (complete_key sp)"
    "db_text (opWorkspaceID (cpOperation sp))" "db_text (cpPrincipalID sp)" "db_text (cpApplicationID sp)"
    and "sql_row (\<lambda>k. key_scope k = key_scope (complete_key sp)) (complete_keys db) = Some k"
    and "selectCompletion sp db = Some (prev, ky_fingerprint k)"
  shows "store_Complete sha jsonb env rnd sp db = (db,
    if ky_fingerprint k = cpRequestFingerprint sp then Inr \<lparr>coOperation = prev, coCreated = False\<rparr> else Inl IngIdempotencyConflict)"
proof -
  have "insert_new fk key_row_ok key_scope (complete_key sp) (complete_keys db) = Some (complete_keys db, 0)" for fk
    using assms(3) sql_row_Some [OF assms(7)] by (auto simp: insert_new_def intro: image_eqI [OF sym])
  moreover have "stmt_fault env msg [cpApplicationID sp] = None" for msg using assms(1,6) by (simp add: stmt_fault_def calm_def)
  ultimately show ?thesis using assms(1,2,4-6,8) by (simp add: store_Complete_def Let_def)
qed

lemma sql_row_map: "sql_row P (map f rs) = map_option f (sql_row (\<lambda>r. P (f r)) rs)"
  by (induction rs) (auto simp: sql_row_def)

text \<open>What a completion wrote is found by any later completion under the same key.\<close>

lemma completion_found:
  assumes "store_Complete sha jsonb env rnd sp db = (db1, Inr c)" "coCreated c" "ingest_run sha jsonb db1 db2"
    and "key_scope (complete_key sp') = key_scope (complete_key sp)" "cpApplicationID sp' = cpApplicationID sp" "cpPrincipalID sp' = cpPrincipalID sp"
  shows "sql_row (\<lambda>k. key_scope k = key_scope (complete_key sp')) (complete_keys db2) = Some (complete_key sp)"
    and "selectCompletion sp' db2 = Some ((cpOperation sp)\<lparr>opState := OperationQueued, opCreatedAt := truncate_us (opCreatedAt (cpOperation sp)),
      opUpdatedAt := truncate_us (opCreatedAt (cpOperation sp))\<rparr>, cpRequestFingerprint sp)"
proof -
  let ?x = "cpOperation sp" let ?o = "operation_row_of ?x"
  note cr = store_Complete_created [OF assms(1,2)]
  obtain r where r: "r \<in> set (import_rows db)" "owned (opWorkspaceID ?x) (opImportID ?x) (cpApplicationID sp) (cpPrincipalID sp) r"
    and cols: "columns db1 = (create_keys db, complete_keys db @ [complete_key sp], import_contexts db, map import_identity (import_rows db),
        map operation_identity (operations db @ [?o]))"
    and f: "key_scope (complete_key sp) \<notin> key_scope ` set (complete_keys db)"
      "(or_workspace ?o, or_id ?o) \<notin> (\<lambda>x. (or_workspace x, or_id x)) ` set (operations db)"
    by (rule store_Complete_wrote [OF assms(1) cr(1)], drule set_import_columns, drule sql_row_Some) (auto simp: columns_def)
  have "sql_row (\<lambda>k. key_scope k = key_scope (complete_key sp)) (complete_keys db1) = Some (complete_key sp)"
    using sql_row_fresh [OF f(1)] cols by (simp add: columns_def)
  from complete_keys_grow.lookup_stable [OF assms(3) this] show k: "sql_row (\<lambda>k. key_scope k = key_scope (complete_key sp')) (complete_keys db2) = Some (complete_key sp)"
    by (simp add: assms(4))
  have "sql_row (\<lambda>i. fst i = fst (operation_identity ?o)) (map operation_identity (operations db1)) = Some (operation_identity ?o)"
    using sql_row_fresh [of fst "operation_identity ?o" "map operation_identity (operations db)"] f(2) cols
    by (simp add: columns_def operation_identity_def image_image)
  from operations_grow.lookup_stable [OF assms(3) this] obtain y where
    y: "sql_row (\<lambda>x. fst (operation_identity x) = fst (operation_identity ?o)) (operations db2) = Some y" "operation_identity y = operation_identity ?o"
    unfolding sql_row_map by blast
  from y(1) have o: "sql_row (\<lambda>x. or_workspace x = opWorkspaceID ?x \<and> or_id x = opID ?x) (operations db2) = Some y"
    by (simp add: operation_identity_def operation_row_of_def)
  obtain new where "map import_identity (import_rows db2) = map import_identity (import_rows db1) @ new"
    using imports_grow.steps_prefix [OF assms(3)] by blast
  then have "import_identity r \<in> set (map import_identity (import_rows db2))" using r(1) cols by (simp add: columns_def del: set_map) simp
  then have e: "list_ex (owned (opWorkspaceID ?x) (opImportID ?x) (cpApplicationID sp') (cpPrincipalID sp')) (import_rows db2)"
    unfolding list_ex_iff set_map using r(2) assms(5,6) import_identity_owned by (metis image_iff)
  show "selectCompletion sp' db2 = Some (?x\<lparr>opState := OperationQueued, opCreatedAt := truncate_us (opCreatedAt ?x),
      opUpdatedAt := truncate_us (opCreatedAt ?x)\<rparr>, cpRequestFingerprint sp)"
    using k o e y(2) by (simp add: selectCompletion_def complete_key_def operation_identity_def operation_row_of_def)
qed

lemma complete_spec_fits:
  assumes "validateCompleteRequest r" "NewIngestService c = Inr c" "fingerprintCompletion sha r = Some fp" "\<forall>x. length (sha x) = 32"
  shows "key_row_ok (complete_key (complete_spec c now r fp op))" "db_text (cqWorkspaceID r)" "db_text (cqPrincipalID r)" "db_text (cqApplicationID r)"
proof -
  have v: "pat_ident capability_char 63 operationCompleteImport" by code_simp
  have "24 * hour \<le> icIdempotencyRetention c" using assms(2) by (auto simp: NewIngestService_def split: if_splits)
  then have "truncate_us (truncate_us now + 24 * hour) \<le> truncate_us (truncate_us now + icIdempotencyRetention c)" by (simp add: truncate_us_mono)
  moreover have "truncate_us (truncate_us now + 24 * hour) = truncate_us now + 24 * hour"
    by (simp add: truncate_us_def hour_def second_def minus_mod_eq_mult_div)
  ultimately show "key_row_ok (complete_key (complete_spec c now r fp op))"
    using assms v
    by (auto simp: key_row_ok_def complete_key_def complete_spec_def validateCompleteRequest_def fingerprintCompletion_def validOpaqueID_def chars_def
        apiMajorVersion_def split: if_splits)
  show "db_text (cqWorkspaceID r)" "db_text (cqPrincipalID r)" "db_text (cqApplicationID r)"
    using assms(1) by (simp_all add: validateCompleteRequest_def validOpaqueID_def db_text_def)
qed

end
