(* ===== verification/Import_Example.thy ===== *)
theory Import_Example
  imports Import_Facts
begin

text \<open>
  An example: a workspace in which an import is reserved, uploaded, completed and failed by its job, and a second
  one is reserved.
\<close>

definition sample_config :: IngestConfig where
  "sample_config = \<lparr>icMaxUploadBytes = 100, icUploadReservationTTL = hour, icUploadTimeout = hour, icIdempotencyRetention = 24 * hour,
     icStorageBackend = ''fs'', icProcessMaxAttempts = 3\<rparr>"

definition sample_reserve :: ReserveRequest where
  "sample_reserve = \<lparr>rqPrincipalID = ''prn1'', rqWorkspaceID = ''ws1'', rqApplicationID = ''app1'', rqIdempotencyKey = ''k1'',
     rqReportFormat = \<lparr>rfName = ''sarif'', rfVersion = ''2.1.0''\<rparr>, rqOriginalFilename = [], rqExpectedSize = None, rqExpectedSHA256 = [],
     rqAnalysisContext = None\<rparr>"

definition sample_allow :: authorizer where
  "sample_allow = (\<lambda>_ _ _ _. None)"

definition sample_ingest :: ingest_db where
  "sample_ingest = empty_ingest [''ws1''] [(''ws1'', ''app1'')] []"

definition sample_id :: "string \<Rightarrow> string" where
  "sample_id p = p @ replicate 32 CHR ''a''"

definition sample_import :: "ImportState \<Rightarrow> gotime \<Rightarrow> import_row" where
  "sample_import s t = \<lparr>im_workspace = ''ws1'', im_id = sample_id ''imp_'', im_application = ''app1'', im_principal = ''prn1'', im_state = s,
     im_format_name = ''sarif'', im_format_version = Some ''2.1.0'', im_filename = None, im_expected_size = None, im_expected_sha256 = None,
     im_max_bytes = 100, im_upload_expires_at = 3600001000000, im_created_at = 1000000, im_updated_at = t\<rparr>"

definition sample_pending :: artifact_row where
  "sample_pending = \<lparr>ar_workspace = ''ws1'', ar_id = sample_id ''art_'', ar_import = sample_id ''imp_'', ar_state = ArtifactPending,
     ar_media_type = rawArtifactMediaType, ar_backend = ''fs'', ar_key = ''blb_'' @ replicate 52 CHR ''a'', ar_attempt = None, ar_lease = None,
     ar_size = None, ar_sha256 = None, ar_version = None, ar_backend_version = None, ar_rejection = None, ar_created_at = 1000000,
     ar_updated_at = 1000000, ar_committed_at = None\<rparr>"

definition sample_db :: "ImportState \<Rightarrow> gotime \<Rightarrow> artifact_row \<Rightarrow> ingest_db" where
  "sample_db s t a = sample_ingest\<lparr>import_rows := [sample_import s t], raw_artifacts := [a],
     create_keys := [\<lparr>ky_workspace = ''ws1'', ky_principal = ''prn1'', ky_version = 1, ky_operation = operationCreateImport, ky_key = ''k1'',
       ky_fingerprint = demo_sha [], ky_target = sample_id ''imp_'', ky_completed_at = 1000000, ky_expires_at = 86400001000000\<rparr>]\<rparr>"

definition sample_reserved :: ingest_db where
  "sample_reserved = sample_db ImportAwaitingUpload 1000000 sample_pending"

definition sample_uploaded :: ingest_db where
  "sample_uploaded = sample_db ImportUploaded 3000000
     (sample_pending\<lparr>ar_state := ArtifactCommitted, ar_size := Some 3, ar_sha256 := Some (demo_sha ''abc''), ar_version := Some ''v1'',
        ar_updated_at := 3000000, ar_committed_at := Some 3000000\<rparr>)"

definition sample_upload :: UploadRequest where
  "sample_upload = \<lparr>uqPrincipalID = ''prn1'', uqWorkspaceID = ''ws1'', uqApplicationID = ''app1'', uqImportID = sample_id ''imp_'', uqDeclaredSize = Some 3\<rparr>"

definition sample_blobs :: blobs where
  "sample_blobs = \<lparr>blob_stat = (\<lambda>_. Inl ErrNotFound), blob_put = (\<lambda>_ _. Inr \<lparr>mdSize = 3, mdSHA256 = hex_of (demo_sha ''abc''), mdVersion = ''v1'',
     mdBackendVersion = [], mdCommittedAt = 3000000\<rparr>)\<rparr>"

definition sample_begin :: beginUploadSpec where
  "sample_begin = begin_spec sample_config 2000000 sample_upload (sample_id ''art_'') (sample_id ''upl_'') ''key''"

text \<open>Late calls of an attempt that lost its lease.\<close>

definition sample_stale_commit :: commitUploadSpec where
  "sample_stale_commit = \<lparr>cuWorkspaceID = ''ws1'', cuImportID = sample_id ''imp_'', cuArtifactID = sample_id ''art_'', cuAttemptID = ''old_attempt'',
     cuSizeBytes = 3, cuSHA256 = hex_of (demo_sha ''abc''), cuStorageVersion = ''v1'', cuBackendVersion = [], cuCommittedAt = 3000000\<rparr>"

definition sample_stale_end :: endUploadSpec where
  "sample_stale_end = \<lparr>euWorkspaceID = ''ws1'', euImportID = sample_id ''imp_'', euArtifactID = sample_id ''art_'', euAttemptID = ''old_attempt'',
     euEndedAt = 3000000, euRejectCode = []\<rparr>"

lemma sample_reserves:
  "Reserve demo_sha sample_allow sample_config demo_catalog (\<lambda>_. quiet_env 0) 1000000 (\<lambda>_. Some []) sample_reserve sample_ingest sample_ingest sample_ingest =
    (sample_reserved, Inr \<lparr>resvImport = scanImport (sample_import ImportAwaitingUpload 1000000) None, resvCreated = True\<rparr>)"
  by code_simp

lemma sample_uploads:
  "Upload demo_sha sample_allow sample_blobs sample_config chunk_read [''abc''] [] (\<lambda>_. quiet_env 0) (\<lambda>_. 2000000) (\<lambda>_. Some []) (\<lambda>_ d. d) True
     sample_upload sample_reserved =
    Some (sample_uploaded, Inr \<lparr>urImportID = sample_id ''imp_'', urState = ImportUploaded, urSizeBytes = 3, urSHA256 = hex_of (demo_sha ''abc''), urUploadedAt = 3000000\<rparr>)"
  by code_simp

text \<open>The completion of the uploaded import.\<close>

definition sample_complete :: CompleteRequest where
  "sample_complete = \<lparr>cqPrincipalID = ''prn1'', cqWorkspaceID = ''ws1'', cqApplicationID = ''app1'', cqImportID = sample_id ''imp_'', cqIdempotencyKey = ''k2''\<rparr>"

definition sample_completion :: completeSpec where
  "sample_completion = complete_spec sample_config 4000000 sample_complete (demo_sha []) (sample_id ''op_'')"

definition sample_queued :: "queue_db \<Rightarrow> ingest_db" where
  "sample_queued q = sample_uploaded\<lparr>import_rows := [sample_import ImportQueued 4000000], complete_keys := [complete_key sample_completion],
     operations := [operation_row_of (cpOperation sample_completion)], job_queue := q\<rparr>"

lemma sample_checks:
  "import_identifier ''op_'' (Some []) = Inr (sample_id ''op_'') \<and> randomID ''job_'' 20 (Some []) = Inr (sample_id ''job_'') \<and>
   validateCompleteRequest sample_complete \<and> key_row_ok (complete_key sample_completion) \<and>
   operation_row_ok (operation_row_of (cpOperation sample_completion)) \<and>
   import_row_ok (sample_import ImportQueued 4000000) \<and> list_all db_text [''prn1'', ''ws1'', ''app1'', sample_id ''imp_'', sample_id ''op_'']"
  by code_simp

definition sample_document :: json where
  "sample_document = JObj [(''import_id'', JStr (sample_id ''imp_''))]"

lemma sample_payload:
  "length (marshal sample_document) = 52 \<and> canon sample_document = sample_document \<and>
   list_all validateOpaqueID [''ws1'', ''prn1'', sample_id ''op_''] \<and> validName importProcessQueue \<and> validName importProcessKind \<and>
   pat_ident capability_char 127 CapabilityImportsProcess \<and> pat_run key_char 1 128 (sample_id ''op_'') \<and>
   utf8_valid ''import_id'' \<and> utf8_valid (sample_id ''imp_'')"
  by code_simp

lemma sample_spec_payload: "specPayload (process_job sample_completion) = marshal sample_document"
  by (simp add: process_job_def sample_completion_def complete_spec_def sample_complete_def sample_document_def)

lemma sample_parse: "json_parse (marshal sample_document) = Some sample_document"
proof (rule json_parse_marshal)
  show "wf_json sample_document" using sample_payload by (simp add: sample_document_def wf_obj)
  show "jdepth sample_document \<le> max_nesting" by (simp add: sample_document_def jdepth_obj max_nesting_def)
qed

lemma sample_job:
  "job_row_ok (new_job_row (quiet_env 5000000) (sample_id ''job_'') (process_job sample_completion) [] (demo_sha []))"
  by code_simp

lemma sample_fingerprint:
  "fingerprintSpec demo_sha (process_job sample_completion) = Inr (marshal sample_document, demo_sha [])"
proof -
  have "validateSpec (process_job sample_completion)"
    using sample_payload
    by (auto simp: validateSpec_def sample_spec_payload json_valid_def sample_parse maxPayloadBytes_def)
      (auto simp: process_job_def sample_completion_def complete_spec_def sample_complete_def sample_config_def)
  moreover obtain kvs where k: "sample_document = JObj kvs" using sample_document_def by blast
  have "json_parse (marshal sample_document) = Some (JObj kvs)" "marshal (canon (JObj kvs)) = marshal sample_document"
    "length (marshal sample_document) = 52"
    using sample_parse sample_payload k by metis+
  ultimately show ?thesis
    by (simp add: fingerprintSpec_def sample_spec_payload maxPayloadBytes_def Let_def del: canon.simps) (simp add: demo_sha_def)
qed

lemma sample_enqueues:
  "\<exists>q job new. EnqueueTx demo_sha Some (quiet_env 5000000) (Some []) (process_job sample_completion) \<lparr>workspaces = [''ws1''], jobs = [], job_attempts = []\<rparr> =
    Inr (q, job, new)"
proof -
  let ?r = "\<lambda>p. new_job_row (quiet_env 5000000) (sample_id ''job_'') (process_job sample_completion) p (demo_sha [])"
  have ok: "job_row_ok (?r p)" for p
    using sample_job by (simp add: job_row_ok_def new_job_row_def jobs_request_valid_def jobs_attempts_valid_def
      jobs_lease_fields_consistent_def jobs_error_fields_known_def)
  have key: "idempotency_key (?r p) = spec_key (process_job sample_completion)" for p
    by (simp add: idempotency_key_def spec_key_def new_job_row_def)
  have f: "specWorkspaceID (process_job sample_completion) = ''ws1''" "specOperationID (process_job sample_completion) = sample_id ''op_''"
    "specInitiatingPrincipalID (process_job sample_completion) = ''prn1''"
    by (simp_all add: process_job_def sample_completion_def complete_spec_def sample_complete_def)
  have ins: "insert_job (?r p) \<lparr>workspaces = [''ws1''], jobs = [], job_attempts = []\<rparr> = Some (\<lparr>workspaces = [''ws1''], jobs = [?r p], job_attempts = []\<rparr>, 1)" for p
    using ok f by (simp add: insert_job_def) (simp add: new_job_row_def)
  have by_key: "byIdempotencyKey (quiet_env 5000000) (process_job sample_completion) \<lparr>workspaces = [''ws1''], jobs = [?r p], job_attempts = []\<rparr> = Inr (scanJob (?r p))" for p
    by (simp add: byIdempotencyKey_def sql_row_def key)
  show ?thesis
    using sample_checks by (simp add: EnqueueTx_def enqueue_def sample_fingerprint ins by_key f stmt_fault_def) blast
qed

lemma sample_completes:
  "\<exists>q. Complete demo_sha Some sample_allow sample_config (quiet_env 5000000) 4000000 (Some []) (Some []) sample_complete sample_uploaded =
    (sample_queued q, Inr \<lparr>coOperation = cpOperation sample_completion, coCreated = True\<rparr>)"
proof -
  have fp: "fingerprintCompletion demo_sha sample_complete = Some (demo_sha [])"
    using sample_checks by (simp add: fingerprintCompletion_def) (simp add: demo_sha_def)
  obtain q job new where e: "EnqueueTx demo_sha Some (quiet_env 5000000) (Some []) (process_job sample_completion)
      \<lparr>workspaces = [''ws1''], jobs = [], job_attempts = []\<rparr> = Inr (q, job, new)" using sample_enqueues by blast
  have sp: "opWorkspaceID (cpOperation sample_completion) = ''ws1''" "opImportID (cpOperation sample_completion) = sample_id ''imp_''"
    "cpApplicationID sample_completion = ''app1''" "cpPrincipalID sample_completion = ''prn1''" "opUpdatedAt (cpOperation sample_completion) = 4000000"
    by (simp_all add: sample_completion_def complete_spec_def sample_complete_def truncate_us_def)
  have "store_Complete demo_sha Some (quiet_env 5000000) (Some []) sample_completion sample_uploaded =
      (sample_queued q, Inr \<lparr>coOperation = cpOperation sample_completion, coCreated = True\<rparr>)"
    using sample_checks e
    by (simp add: store_Complete_def Let_def sp insert_new_def sample_queued_def sample_uploaded_def sample_db_def sample_ingest_def empty_ingest_def
        sql_row_def owned_def sample_import_def artifact_of_def artifact_import_def sample_pending_def queue_import_def insert_operation_def
        insert_row_def import_key_def set_import_def update_rows_def sql_update_def sql_count_def operation_row_of_def truncate_us_def)
  then show ?thesis
    using sample_checks fp by (auto simp: Complete_def sample_allow_def sample_completion_def)
qed

text \<open>The job fails the import, and another import is reserved.\<close>

definition sample_work :: ProcessingIdentity where
  "sample_work = \<lparr>piWorkspaceID = ''ws1'', piOperationID = sample_id ''op_'', piImportID = sample_id ''imp_'', piPrincipalID = ''prn1'',
     piJobCapability = CapabilityImportsProcess\<rparr>"

definition sample_failure :: ProcessingFailure where
  "sample_failure = \<lparr>pfCode = ''bad-report'', pfTitle = ''Bad report'', pfDetail = []\<rparr>"

definition sample_failed :: "queue_db \<Rightarrow> ingest_db" where
  "sample_failed q = (sample_queued q)\<lparr>import_rows := [sample_import ImportFailed 6000000],
     operations := [failed_operation sample_failure 6000000 (operation_row_of (cpOperation sample_completion))]\<rparr>"

lemma sample_fails:
  "FailProcessing (quiet_env 6000000) sample_work sample_failure 6000000 (sample_queued q) = (sample_failed q, Inr ())"
  by code_simp

definition sample_second :: reserveSpec where
  "sample_second = reserve_spec sample_config 7000000 (sample_reserve\<lparr>rqIdempotencyKey := ''k3''\<rparr>) (demo_sha []) ''imp2'' ''art2''
     (''blb_'' @ replicate 52 CHR ''b'') None"

lemma sample_reserves_second:
  "\<exists>db r. store_Reserve demo_sha (quiet_env 7000000) sample_second (sample_failed q) = (db, Inr r) \<and> length (import_rows db) = 2"
proof -
  have "case store_Reserve demo_sha (quiet_env 7000000) sample_second (sample_failed q) of (db, Inr r) \<Rightarrow> length (import_rows db) = 2 | _ \<Rightarrow> False"
    by code_simp
  then show ?thesis by (auto split: prod.splits sum.splits)
qed

lemma sample_begins: "\<exists>db s. BeginUpload (quiet_env 0) sample_begin sample_reserved = (db, Inr s) \<and> usCommitted s = None"
proof -
  have "case BeginUpload (quiet_env 0) sample_begin sample_reserved of (_, Inr s) \<Rightarrow> usCommitted s = None | _ \<Rightarrow> False" by code_simp
  then show ?thesis by (auto split: prod.splits sum.splits)
qed

lemma sample_runs:
  "ingest_run demo_sha jsonb (empty_ingest [''ws1''] [(''ws1'', ''app1'')] []) sample_reserved"
  "ingest_run demo_sha jsonb sample_reserved sample_uploaded"
  using Reserve_run [OF sample_reserves] Upload_run [OF sample_uploads] by (simp_all add: sample_ingest_def)

lemma sample_config_valid: "NewIngestService sample_config = Inr sample_config"
  by code_simp

lemma sample_later_runs:
  obtains q db where "ingest_run demo_sha Some (empty_ingest [''ws1''] [(''ws1'', ''app1'')] []) (sample_failed q)"
    "ingest_run demo_sha Some (sample_queued q) (sample_failed q)" "ingest_run demo_sha Some (sample_failed q) db" "length (import_rows db) = 2"
    "Complete demo_sha Some sample_allow sample_config (quiet_env 5000000) 4000000 (Some []) (Some []) sample_complete sample_uploaded =
      (sample_queued q, Inr \<lparr>coOperation = cpOperation sample_completion, coCreated = True\<rparr>)"
proof -
  from sample_completes obtain q where c: "Complete demo_sha Some sample_allow sample_config (quiet_env 5000000) 4000000 (Some []) (Some []) sample_complete sample_uploaded =
      (sample_queued q, Inr \<lparr>coOperation = cpOperation sample_completion, coCreated = True\<rparr>)" by blast
  have f: "ingest_run demo_sha Some (sample_queued q) (sample_failed q)"
    by (rule r_into_rtranclp) (rule ingest_step.fail_processing [OF sample_fails])
  from sample_reserves_second obtain db r where
    d: "store_Reserve demo_sha (quiet_env 7000000) sample_second (sample_failed q) = (db, Inr r)" "length (import_rows db) = 2" by blast
  have "impState (rvImport sample_second) = ImportAwaitingUpload" by (simp add: sample_second_def reserve_spec_def)
  then have s: "ingest_run demo_sha Some (sample_failed q) db" by (intro r_into_rtranclp ingest_step.reserve [OF d(1)])
  from sample_runs(1) have "ingest_run demo_sha Some (empty_ingest [''ws1''] [(''ws1'', ''app1'')] []) (sample_failed q)"
    by (rule rtranclp_trans) (rule rtranclp_trans [OF sample_runs(2) rtranclp_trans [OF Complete_run [OF c] f]])
  with f s d(2) c that show thesis by blast
qed

end
