(* ===== verification/Import_Props.thy ===== *)
theory Import_Props
  imports Import_Example
begin

text \<open>
  Properties of imports: the lifecycle and the retention of evidence over every run of the store, the
  fencing of upload attempts, what a receipt means, and completion under an idempotency key.
\<close>

section \<open>Upload attempts\<close>

lemma BeginUpload_session:
  assumes "BeginUpload env sp db = (db', Inr s)"
  shows "\<exists>r\<in>set (import_rows db). usMaxBytes s = im_max_bytes r"
    and "usCommitted s = Some rc \<Longrightarrow> db' = db \<and> (\<exists>a d. artifact_of (buWorkspaceID sp) (buImportID sp) db = Some a \<and>
      ar_state a = ArtifactCommitted \<and> ar_size a = Some (urSizeBytes rc) \<and> ar_sha256 a = Some d \<and> urSHA256 rc = hex_of d)"
proof -
  let ?art = "artifact_of (buWorkspaceID sp) (buImportID sp) db"
  from assms obtain r where r: "sql_row (owned (buWorkspaceID sp) (buImportID sp) (buApplicationID sp) (buPrincipalID sp)) (import_rows db) = Some r"
    and b: "(replay_session sp r ?art = Some s \<and> db' = db) \<or> (\<exists>d. lease_upload env sp r ?art db = Inr (d, s))"
    by (auto simp: BeginUpload_def and_then_Inr exec_Inr Let_def dest!: transact_Inr split: option.splits if_splits prod.splits)
  have l: "lease_upload env sp r ?art db = Inr (d, s) \<Longrightarrow> usMaxBytes s = im_max_bytes r \<and> usCommitted s = None" for d
    by (auto simp: lease_upload_def Let_def and_then_Inr exec_Inr session_of_def split: option.splits if_splits)
  have p: "replay_session sp r ?art = Some s \<Longrightarrow> usMaxBytes s = im_max_bytes r"
    by (auto simp: replay_session_def session_of_def split: option.splits if_splits)
  from b l p sql_row_Some [OF r] show "\<exists>r\<in>set (import_rows db). usMaxBytes s = im_max_bytes r" by blast
  assume c: "usCommitted s = Some rc"
  with b l have "replay_session sp r ?art = Some s" "db' = db" by auto
  with c show "db' = db \<and> (\<exists>a d. ?art = Some a \<and> ar_state a = ArtifactCommitted \<and> ar_size a = Some (urSizeBytes rc) \<and>
      ar_sha256 a = Some d \<and> urSHA256 rc = hex_of d)"
    by (auto simp: replay_session_def session_of_def split: option.splits if_splits)
qed

text \<open>A session without a receipt holds the import's artifact under its own attempt.\<close>

lemma BeginUpload_leases:
  assumes "BeginUpload env sp db = (db', Inr s)" "usCommitted s = None" "lives db"
  shows "\<exists>a. artifact_of (buWorkspaceID sp) (buImportID sp) db' = Some a \<and> ar_attempt a = Some (buAttemptID sp)"
proof -
  let ?ws = "buWorkspaceID sp" and ?i = "buImportID sp"
  let ?art = "artifact_of ?ws ?i db"
  from assms(1) obtain r where r: "sql_row (owned ?ws ?i (buApplicationID sp) (buPrincipalID sp)) (import_rows db) = Some r"
    and b: "replay_session sp r ?art = Some s \<or> (\<exists>d. lease_upload env sp r ?art db = Inr (d, s) \<and>
      set_import ?ws ?i (\<lambda>_. True) ImportUploading (buStartedAt sp) d = Some db' \<and> (im_state r = ImportAwaitingUpload \<or> im_state r = ImportUploading))"
    by (auto simp: BeginUpload_def and_then_Inr exec_Inr Let_def dest!: transact_Inr split: option.splits if_splits prod.splits)
  have "replay_session sp r ?art \<noteq> Some s" using assms(2) by (auto simp: replay_session_def session_of_def split: option.splits if_splits)
  with b obtain d where d: "lease_upload env sp r ?art db = Inr (d, s)" "set_import ?ws ?i (\<lambda>_. True) ImportUploading (buStartedAt sp) d = Some db'"
    "im_state r = ImportAwaitingUpload \<or> im_state r = ImportUploading" by blast
  have k: "keys_ok db" using assms(3) by (simp add: lives_def)
  from sql_row_Some [OF r] have rf: "import_of ?ws ?i db = Some r"
    by (intro import_of_found [OF k]) (auto simp: owned_def import_key_def)
  from legal_found [OF assms(3) rf] d(3) obtain a where a: "?art = Some a" "ar_state a = ArtifactPending \<or> ar_state a = ArtifactUploading"
    by (auto simp: legal_def)
  let ?sel = "\<lambda>x. ar_workspace x = ?ws \<and> ar_id x = ar_id a \<and> ar_import x = ?i \<and> (ar_state x = ArtifactPending \<or> ar_state x = ArtifactUploading)"
  from d(1) a have s: "set_artifact ?sel (leased_artifact sp) db = Some d"
    by (auto simp: lease_upload_def Let_def and_then_Inr exec_Inr split: if_splits)
  have "artifact_of ?ws ?i d = Some (leased_artifact sp a)"
    using artifact_of_set_artifact(1) [OF s, of ?ws ?i] a artifact_of_key [OF a(1)] by (simp add: artifact_import_def leased_artifact_def)
  then have "artifact_of ?ws ?i db' = Some (leased_artifact sp a)" using import_of_set_import [OF d(2)] by (simp add: artifact_of_def)
  then show ?thesis by (simp add: leased_artifact_def)
qed

lemma sql_count_none: "(\<And>r. r \<in> set rs \<Longrightarrow> \<not> P r) \<Longrightarrow> sql_count P rs = 0"
  by (auto simp: sql_count_def)

lemma finish_attempt_stale:
  assumes "\<And>a. a \<in> set (raw_artifacts db) \<Longrightarrow> \<not> sel a"
  shows "\<exists>e. finish_attempt env mA mI ps sel f ws i s t db = Inl e"
  using sql_count_none [of "raw_artifacts db" sel] assms
  by (auto simp: finish_attempt_def and_then_def exec_def split: option.splits sum.splits)

lemma transact_Inl: "\<exists>e'. transact wrap env msg db (Inl e) = (db, Inl e')"
  by (auto simp: transact_def stmt_def split: option.splits)

lemma CommitUpload_evidence:
  assumes "CommitUpload env sp db = (db', Inr rc)" "lives db"
  shows "\<exists>a d. artifact_of (cuWorkspaceID sp) (cuImportID sp) db' = Some a \<and> ar_state a = ArtifactCommitted \<and>
    ar_size a = Some (cuSizeBytes sp) \<and> ar_sha256 a = Some d \<and> hex_decode (cuSHA256 sp) = Some d \<and>
    urSizeBytes rc = cuSizeBytes sp \<and> urSHA256 rc = cuSHA256 sp"
proof -
  from assms(1) obtain d where d: "hex_decode (cuSHA256 sp) = Some d"
    and f: "finish_attempt env ''commit raw artifact record'' ''publish uploaded import'' [cuStorageVersion sp, cuBackendVersion sp]
      (\<lambda>a. current_attempt (cuWorkspaceID sp) (cuImportID sp) (cuArtifactID sp) (cuAttemptID sp) a \<and>
         (case ar_lease a of None \<Rightarrow> False | Some l \<Rightarrow> truncate_us (cuCommittedAt sp) \<le> l))
      (committed_artifact sp d) (cuWorkspaceID sp) (cuImportID sp) ImportUploaded (cuCommittedAt sp) db = Inr db'"
    and rc: "urSizeBytes rc = cuSizeBytes sp" "urSHA256 rc = cuSHA256 sp"
    by (auto simp: CommitUpload_def and_then_Inr dest!: transact_Inr split: option.splits if_splits)
  from finish_attempt_life [OF f assms(2)] obtain a where "artifact_of (cuWorkspaceID sp) (cuImportID sp) db' = Some (committed_artifact sp d a)"
    by (auto simp: committed_artifact_def artifact_import_def current_attempt_def)
  with d rc show ?thesis by (simp add: committed_artifact_def)
qed

lemma artifact_of_evidence: "artifact_of ws i db = Some a \<Longrightarrow> ar_state a = ArtifactCommitted \<Longrightarrow> a \<in> evidence db \<and> artifact_import a = (ws, i)"
  by (auto simp: artifact_of_def evidence_def dest!: sql_row_Some)

lemma rejectAttempt_error: "rejectAttempt env s t code e db \<noteq> (db', Inr v)"
  by (auto simp: rejectAttempt_def split: prod.splits sum.splits)

lemma store_content_no_receipt: "store_content sha B c src s0 ctxs env t r s db \<noteq> Some (Inl (db', Inr rc))"
  unfolding store_content_def
  by (auto simp: releaseAttempt_def rejectAttempt_error handleBlobWriteFailure_def split: if_splits option.splits sum.splits blob_error.splits)

section \<open>Reservations under an idempotency key\<close>

lemma store_Reserve_created:
  assumes "store_Reserve sha env sp db = (db', Inr res)" "resvCreated res"
  shows "db' \<noteq> db" "resvImport res = rvImport sp"
    "\<exists>digest. optionalDigest (impExpectedSHA256 (rvImport sp)) = Inr digest \<and> import_rows db' = import_rows db @ [import_row_of (rvImport sp) digest]"
proof -
  from assms obtain d1 d2 digest keys where i: "insert_import env (import_row_of (rvImport sp) digest) (db\<lparr>create_keys := keys\<rparr>) = Inr d1"
    and c: "insert_context (rvImport sp) d1 = Some d2" and a: "insert_artifact (new_artifact sp) d2 = Some db'" and r: "resvImport res = rvImport sp"
    and d: "optionalDigest (impExpectedSHA256 (rvImport sp)) = Inr digest"
    by (auto simp: store_Reserve_def Let_def and_then_Inr exec_Inr dest!: transact_Inr split: option.splits if_splits prod.splits)
  have "import_rows db' = import_rows db @ [import_row_of (rvImport sp) digest]"
    using insert_import_Inr(1) [OF i] insert_context_Some [OF c] insert_artifact_Some(1) [OF a] by simp
  then show "db' \<noteq> db" "resvImport res = rvImport sp"
    "\<exists>digest. optionalDigest (impExpectedSHA256 (rvImport sp)) = Inr digest \<and> import_rows db' = import_rows db @ [import_row_of (rvImport sp) digest]"
    using r d by auto
qed

lemma ReplayReservation_not_created: "ReplayReservation env sp db = Inr (Some res) \<Longrightarrow> \<not> resvCreated res"
  by (auto simp: ReplayReservation_def split: if_splits option.splits)

lemma Reserve_created:
  assumes "Reserve sha auth c cdb envs now rnd r db0 db1 db = (db', Inr res)" "resvCreated res"
  shows "\<exists>fp n art key ctx. validateAuthorizationScope r \<and> validateAnalysisContext (rqAnalysisContext r) \<and> fingerprintRequest sha r = Some fp \<and>
    store_Reserve sha (envs 3) (reserve_spec c now r fp n art key ctx) db = (db', Inr res)"
proof -
  have n: "resolve_context cenv env1 cdb r fp db1 \<noteq> Inr (Inl res)" for cenv env1 fp
    using assms(2) by (auto simp: resolve_context_def Let_def dest: ReplayReservation_not_created split: option.splits sum.splits if_splits)
  have "\<exists>fp. validateAuthorizationScope r \<and> validateAnalysisContext (rqAnalysisContext r) \<and> fingerprintRequest sha r = Some fp \<and>
     (ReplayReservation (envs 0) (replay_spec r fp) db0 = Inr (Some res) \<or> resolve_context (envs 1) (envs 2) cdb r fp db1 = Inr (Inl res) \<or>
      (\<exists>n art key ctx. store_Reserve sha (envs 3) (reserve_spec c now r fp n art key ctx) db = (db', Inr res)))"
    using assms(1)
    by (auto simp: Reserve_def and_then_Inr split: if_splits option.splits sum.splits) (metis sum.exhaust)+
  with n ReplayReservation_not_created assms(2) show ?thesis by metis
qed

text \<open>What the database keeps of an import: times at microseconds.\<close>

definition stored_import :: "Import \<Rightarrow> Import" where
  "stored_import i = i\<lparr>impUploadExpiresAt := truncate_us (impUploadExpiresAt i), impCreatedAt := truncate_us (impCreatedAt i),
     impAnalysisContext := map_option (\<lambda>c. c\<lparr>acAcceptedAt := truncate_us (acAcceptedAt c)\<rparr>) (impAnalysisContext i)\<rparr>"

lemma hex_digit_val: "hex_val c = Some x \<Longrightarrow> \<not> is_upper c \<Longrightarrow> hex_digit x = c"
  by (auto simp: hex_val_def hex_digit_def is_upper_def is_digit_def in_range_def byte_def split: if_splits)

lemma hex_decode_lower: "hex_decode v = Some d \<Longrightarrow> list_all (\<lambda>c. \<not> is_upper c) v \<Longrightarrow> hex_of d = v"
proof (induction v arbitrary: d rule: hex_decode.induct)
  case (3 a b r)
  then obtain x y t where v: "hex_val a = Some x" "hex_val b = Some y" "hex_decode r = Some t" "d = char_of (16 * x + y) # t"
    by (auto split: option.splits)
  then have "x < 16" "y < 16" by (auto dest: hex_val_less)
  moreover have "hex_of t = r" using 3 v(3) by auto
  ultimately show ?case using v 3(3) by (simp add: hex_of_def byte_def hex_digit_val)
qed (simp_all add: hex_of_def)

lemma digest_text:
  assumes "optionalDigest v = Inr d" "expected_digest_ok v"
  shows "hex_of (text_of d) = v"
  using assms hex_decode_lower [of v]
  by (auto simp: optionalDigest_def expected_digest_ok_def text_of_def hex_of_def split: if_splits option.splits)

lemma text_of_nullif [simp]: "text_of (nullif v) = v"
  by (simp add: text_of_def nullif_def)

lemma scan_stored:
  assumes "import_identity y = import_identity (import_row_of i d)" "optionalDigest (impExpectedSHA256 i) = Inr d"
    "expected_digest_ok (impExpectedSHA256 i)" "c = (case new_contexts i of [] \<Rightarrow> None | x # _ \<Rightarrow> Some x)"
  shows "(scanImport y c)\<lparr>impState := s, impUpdatedAt := t\<rparr> = (stored_import i)\<lparr>impState := s, impUpdatedAt := t\<rparr>"
  using assms(1) digest_text [OF assms(2,3)]
  by (cases y; cases i) (auto simp: import_identity_def import_row_of_def scanImport_def stored_import_def assms(4) new_contexts_def split: option.splits)

lemma reservation_found:
  assumes "store_Reserve sha env sp db = (db1, Inr res)" "resvCreated res" "ingest_run sha jsonb db1 db2" "contexts_owned db"
    "expected_digest_ok (impExpectedSHA256 (rvImport sp))"
  shows "\<exists>r i. import_of (impWorkspaceID (rvImport sp)) (impID (rvImport sp)) db2 = Some r \<and> impState i = im_state r \<and>
    selectReservation (key_scope (create_key sp)) db2 = Some (i, rvRequestFingerprint sp) \<and>
    (\<forall>s t. i\<lparr>impState := s, impUpdatedAt := t\<rparr> = (stored_import (rvImport sp))\<lparr>impState := s, impUpdatedAt := t\<rparr>)"
proof -
  let ?k = "(impWorkspaceID (rvImport sp), impID (rvImport sp))"
  note cr = store_Reserve_created [OF assms(1,2)]
  from cr(3) obtain digest where d: "optionalDigest (impExpectedSHA256 (rvImport sp)) = Inr digest"
    "import_rows db1 = import_rows db @ [import_row_of (rvImport sp) digest]" by blast
  let ?r = "import_row_of (rvImport sp) digest"
  have rk: "import_key ?r = ?k" by (simp add: import_row_of_def import_key_def)
  obtain k: "create_keys db1 = create_keys db @ [create_key sp]" "key_scope (create_key sp) \<notin> key_scope ` set (create_keys db)"
    and c: "import_contexts db1 = import_contexts db @ new_contexts (rvImport sp)" and f: "?k \<notin> import_key ` set (import_rows db)"
    by (rule store_Reserve_wrote [OF assms(1) cr(1)]) simp
  have "sql_row (\<lambda>k. key_scope k = key_scope (create_key sp)) (create_keys db1) = Some (create_key sp)"
    using sql_row_fresh [OF k(2)] k(1) by simp
  note k2 = create_keys_grow.lookup_stable [OF assms(3) this]
  have "sql_row (\<lambda>x. import_key x = ?k) (map import_identity (import_rows db1)) = Some (import_identity ?r)"
    using sql_row_fresh [of import_key "import_identity ?r" "map import_identity (import_rows db)"] f d(2) rk by (simp add: image_image)
  from imports_grow.lookup_stable [OF assms(3) this] obtain y where
    y: "sql_row (\<lambda>x. import_key x = ?k) (import_rows db2) = Some y" "import_identity y = import_identity ?r"
    unfolding sql_row_map by auto
  have "?k \<notin> context_key ` set (import_contexts db)" using f assms(4) unfolding contexts_owned_def by blast
  then have n: "sql_row (\<lambda>c. context_key c = ?k) (import_contexts db) = None" by (rule sql_row_absent)
  have "sql_row (\<lambda>c. context_key c = ?k) (new_contexts (rvImport sp)) = (case new_contexts (rvImport sp) of [] \<Rightarrow> None | x # _ \<Rightarrow> Some x)"
    using new_contexts_key [of _ "rvImport sp"] by (cases "new_contexts (rvImport sp)") (auto simp: sql_row_def)
  then have "context_of ?k db1 = (case new_contexts (rvImport sp) of [] \<Rightarrow> None | x # _ \<Rightarrow> Some x)"
    by (simp add: context_of_def c sql_row_append n)
  moreover have "?k \<in> import_key ` set (import_rows db1)" using d(2) rk by simp
  ultimately have ctx: "context_of ?k db2 = (case new_contexts (rvImport sp) of [] \<Rightarrow> None | x # _ \<Rightarrow> Some x)"
    using run_contexts(2) [OF assms(3)] by metis
  have yk: "import_key y = ?k" using sql_row_Some [OF y(1)] by blast
  have sel: "selectReservation (key_scope (create_key sp)) db2 = Some (scanImport y (context_of ?k db2), rvRequestFingerprint sp)"
    using k2 y(1) yk by (simp add: selectReservation_def create_key_def context_of_def context_key_def)
  have "\<forall>s t. (scanImport y (context_of ?k db2))\<lparr>impState := s, impUpdatedAt := t\<rparr> = (stored_import (rvImport sp))\<lparr>impState := s, impUpdatedAt := t\<rparr>"
    using scan_stored [OF y(2) d(1) assms(5) ctx] by blast
  moreover have "impState (scanImport y (context_of ?k db2)) = im_state y" by (simp add: scanImport_def)
  ultimately show ?thesis using sel y(1) unfolding import_of_def by blast
qed

text \<open>What repeating a request that created an import answers.\<close>

lemma replay_answer:
  assumes "Reserve sha auth c cdb envs now rnd r db0 db1 db = (db', Inr res)" "resvCreated res" "ingest_run sha jsonb db' db2"
    and "auth' (rqPrincipalID r) (rqWorkspaceID r) (rqApplicationID r) CapabilityImportsCreate = None" "calm (envs' 0)"
    and "ingest_run sha jsonb (empty_ingest ws apps links) db"
  shows "\<exists>i y. Reserve sha auth' c' cdb' envs' now' rnd' r db2 db3 db4 = (db4, Inr \<lparr>resvImport = i, resvCreated = False\<rparr>) \<and>
    import_of (rqWorkspaceID r) (impID i) db2 = Some y \<and> impState i = im_state y \<and>
    i\<lparr>impState := impState (resvImport res), impUpdatedAt := impUpdatedAt (resvImport res)\<rparr> = stored_import (resvImport res)"
proof -
  from Reserve_created [OF assms(1,2)] obtain fp n art key ctx where v: "validateAuthorizationScope r" "validateAnalysisContext (rqAnalysisContext r)"
    and fp: "fingerprintRequest sha r = Some fp"
    and st: "store_Reserve sha (envs 3) (reserve_spec c now r fp n art key ctx) db = (db', Inr res)" by blast
  let ?sp = "reserve_spec c now r fp n art key ctx"
  have sp: "impWorkspaceID (rvImport ?sp) = rqWorkspaceID r" "impID (rvImport ?sp) = n" "rvRequestFingerprint ?sp = fp"
    "key_scope (create_key ?sp) = [rqWorkspaceID r, rqPrincipalID r, itoa apiMajorVersion, operationCreateImport, rqIdempotencyKey r]"
    by (simp_all add: reserve_spec_def create_key_def key_scope_def)
  have o: "contexts_owned db"
    using run_contexts(1) [OF assms(6)] by (simp add: contexts_owned_def empty_ingest_def)
  have dig: "expected_digest_ok (impExpectedSHA256 (rvImport ?sp))"
    using fp by (simp add: fingerprintRequest_def reserve_spec_def split: if_splits)
  from reservation_found [OF st assms(2,3) o dig] obtain y i where y: "import_of (rqWorkspaceID r) n db2 = Some y" "impState i = im_state y"
      "selectReservation [rqWorkspaceID r, rqPrincipalID r, itoa apiMajorVersion, operationCreateImport, rqIdempotencyKey r] db2 = Some (i, fp)"
    and eq: "\<And>s t. i\<lparr>impState := s, impUpdatedAt := t\<rparr> = (stored_import (rvImport ?sp))\<lparr>impState := s, impUpdatedAt := t\<rparr>"
    unfolding sp by blast
  from v(1) y(3) have "ReplayReservation (envs' 0) (replay_spec r fp) db2 = Inr (Some \<lparr>resvImport = i, resvCreated = False\<rparr>)"
    using assms(5) by (simp add: ReplayReservation_def replay_spec_def validateAuthorizationScope_def stmt_fault_def calm_def db_text_def validOpaqueID_def)
  with v fp assms(4) have r: "Reserve sha auth' c' cdb' envs' now' rnd' r db2 db3 db4 = (db4, Inr \<lparr>resvImport = i, resvCreated = False\<rparr>)"
    by (simp add: Reserve_def)
  have im: "resvImport res = rvImport ?sp" by (rule store_Reserve_created(2) [OF st assms(2)])
  have "impID i = n" using arg_cong [OF eq, of impID] sp(2) by (simp add: stored_import_def)
  moreover have "i\<lparr>impState := impState (resvImport res), impUpdatedAt := impUpdatedAt (resvImport res)\<rparr> = stored_import (resvImport res)"
    unfolding eq im by (simp add: stored_import_def)
  ultimately show ?thesis using r y(1,2) by blast
qed

text \<open>The answer shows the state the import has reached when the request is repeated.\<close>

lemma replay_answers_current_state:
  assumes "Reserve sha auth c cdb envs now rnd r db0 db1 db = (db', Inr res)" "resvCreated res" "ingest_run sha jsonb db' db2"
    and "auth' (rqPrincipalID r) (rqWorkspaceID r) (rqApplicationID r) CapabilityImportsCreate = None" "calm (envs' 0)"
    and "ingest_run sha jsonb (empty_ingest ws apps links) db"
  shows "\<exists>i. Reserve sha auth' c' cdb' envs' now' rnd' r db2 db3 db4 = (db4, Inr \<lparr>resvImport = i, resvCreated = False\<rparr>) \<and>
    map_option fst (life_of db2 (rqWorkspaceID r, impID i)) = Some (impState i)"
  using replay_answer [OF assms(1-3), of auth' envs' ws apps links c' cdb' now' rnd' db3 db4] assms(4-6) by (auto simp: life_of_def)

section \<open>Properties\<close>

text \<open>C5.  From an empty store, whatever calls any processes make in any order and whatever faults they meet, the
  imports refine their lifecycle: every import follows the abstract machine, the states of an import, its artifact and its
  operation are always one of the legal combinations, and each import has at most one artifact and one operation.\<close>

theorem imports_refine_lifecycle:
  assumes "ingest_run sha jsonb (empty_ingest ws apps links) db"
  shows "(\<lambda>u v. \<exists>w. v = Some w \<and> life_step u w)\<^sup>*\<^sup>* None (life_of db k) \<and> (\<forall>v. life_of db k = Some v \<longrightarrow> legal v) \<and> keys_ok db"
proof -
  have "lives db" by (rule import_lives.inv_run [OF assms empty_lives(1)])
  then have "\<forall>v. life_of db k = Some v \<longrightarrow> legal v" "keys_ok db" unfolding lives_def by blast+
  with import_lives.path_run [OF assms empty_lives(1), of k] show ?thesis unfolding empty_lives(2) by blast
qed

theorem imports_refine_lifecycle_witness:
  "(\<lambda>u v. \<exists>w. v = Some w \<and> life_step u w)\<^sup>*\<^sup>* None (life_of sample_uploaded (''ws1'', sample_id ''imp_'')) \<and> keys_ok sample_uploaded"
  using imports_refine_lifecycle [OF rtranclp_trans [OF sample_runs(1) [of Some] sample_runs(2)], of "(''ws1'', sample_id ''imp_'')"] by blast

text \<open>C13.  Evidence is retained and outcomes are final: whatever happens after a reachable state, every committed artifact
  is still there, unchanged, and an import that succeeded, failed, was rejected or was abandoned keeps its state, its
  artifact's and its operation's.\<close>

theorem evidence_and_outcome_final:
  assumes "ingest_run sha jsonb (empty_ingest ws apps links) db" "ingest_run sha jsonb db db'"
  shows "evidence db \<subseteq> evidence db' \<and>
    (life_of db k = Some (s, a, x) \<longrightarrow> finished s \<longrightarrow> life_of db' k = Some (s, a, x))"
proof -
  have l: "lives db" by (rule import_lives.inv_run [OF assms(1) empty_lives(1)])
  from evidence_run [OF assms(2) l] import_lives.stuck_run [OF assms(2) l, of k] finished_stuck [of db k] show ?thesis by auto
qed

theorem evidence_and_outcome_final_witness:
  "\<exists>db db' a. ingest_run demo_sha Some db db' \<and> import_rows db' \<noteq> import_rows db \<and>
    a \<in> evidence db \<and> a \<in> evidence db' \<and> ar_size a = Some 3 \<and> ar_sha256 a = Some (demo_sha ''abc'') \<and>
    life_of db (''ws1'', sample_id ''imp_'') = Some (ImportFailed, Some ArtifactCommitted, Some OperationFailed) \<and>
    life_of db' (''ws1'', sample_id ''imp_'') = Some (ImportFailed, Some ArtifactCommitted, Some OperationFailed)"
proof -
  obtain q db' where r: "ingest_run demo_sha Some (empty_ingest [''ws1''] [(''ws1'', ''app1'')] []) (sample_failed q)"
    "ingest_run demo_sha Some (sample_failed q) db'" "length (import_rows db') = 2"
    by (rule sample_later_runs) blast
  let ?a = "hd (raw_artifacts (sample_failed q))" and ?k = "(''ws1'', sample_id ''imp_'')"
  have a: "?a \<in> evidence (sample_failed q)" "ar_size ?a = Some 3" "ar_sha256 ?a = Some (demo_sha ''abc'')"
    by (simp_all add: evidence_def sample_failed_def sample_queued_def sample_uploaded_def sample_db_def)
  have l: "life_of (sample_failed q) ?k = Some (ImportFailed, Some ArtifactCommitted, Some OperationFailed)"
    by (simp add: life_of_def import_of_def artifact_of_def operation_of_def sql_row_def sample_failed_def sample_queued_def sample_uploaded_def sample_db_def
        import_key_def sample_import_def artifact_import_def sample_pending_def operation_import_def failed_operation_def operation_row_of_def
        sample_completion_def complete_spec_def sample_complete_def)
  have n: "import_rows db' \<noteq> import_rows (sample_failed q)" using r(3) by (auto simp: sample_failed_def)
  have "?a \<in> evidence db'" "life_of db' ?k = Some (ImportFailed, Some ArtifactCommitted, Some OperationFailed)"
    using evidence_and_outcome_final [OF r(1,2), of ?k ImportFailed "Some ArtifactCommitted" "Some OperationFailed"] a(1) l by (auto simp: finished_def)
  with r(2) n a l show ?thesis by blast
qed

text \<open>C17.  Upload attempts are fenced: once an attempt holds an import's lease, committing or ending the upload under any
  other attempt fails and changes nothing, in whatever environment it runs.\<close>

theorem stale_upload_fenced:
  assumes "ingest_run sha jsonb (empty_ingest ws apps links) db" "BeginUpload env sp db = (db1, Inr s)" "usCommitted s = None"
    and "cuWorkspaceID csp = buWorkspaceID sp" "cuImportID csp = buImportID sp" "cuAttemptID csp \<noteq> buAttemptID sp"
    and "euWorkspaceID esp = buWorkspaceID sp" "euImportID esp = buImportID sp" "euAttemptID esp \<noteq> buAttemptID sp"
  shows "(\<exists>e. CommitUpload env' csp db1 = (db1, Inl e)) \<and> (\<exists>e. EndUpload env' esp db1 = (db1, Inl e))"
proof -
  have l: "lives db" by (rule import_lives.inv_run [OF assms(1) empty_lives(1)])
  from BeginUpload_leases [OF assms(2,3) l] obtain a where
    a: "artifact_of (buWorkspaceID sp) (buImportID sp) db1 = Some a" "ar_attempt a = Some (buAttemptID sp)" by blast
  have k: "keys_ok db1"
    using import_lives.inv_run [OF r_into_rtranclp [of "ingest_step sha jsonb", OF ingest_step.begin_upload [OF assms(2)]] l] by (simp add: lives_def)
  have n: "\<not> current_attempt (buWorkspaceID sp) (buImportID sp) art att x" if "x \<in> set (raw_artifacts db1)" "att \<noteq> buAttemptID sp" for x art att
    using artifact_of_found [OF k that(1)] a that(2) by (auto simp: current_attempt_def artifact_import_def)
  have c: "\<exists>e. CommitUpload env' csp db1 = (db1, Inl e)"
  proof (cases "hex_decode (cuSHA256 csp)")
    case (Some d)
    have "\<exists>e. finish_attempt env' ''commit raw artifact record'' ''publish uploaded import'' [cuStorageVersion csp, cuBackendVersion csp]
      (\<lambda>a. current_attempt (cuWorkspaceID csp) (cuImportID csp) (cuArtifactID csp) (cuAttemptID csp) a \<and>
         (case ar_lease a of None \<Rightarrow> False | Some l \<Rightarrow> truncate_us (cuCommittedAt csp) \<le> l))
      (committed_artifact csp d) (cuWorkspaceID csp) (cuImportID csp) ImportUploaded (cuCommittedAt csp) db1 = Inl e"
      by (rule finish_attempt_stale) (simp add: n assms(4-6))
    with Some show ?thesis by (elim exE) (simp add: CommitUpload_def and_then_def transact_Inl)
  qed (simp add: CommitUpload_def)
  have "\<exists>e. finish_attempt env' ''end raw artifact upload'' ''end import upload'' []
      (current_attempt (euWorkspaceID esp) (euImportID esp) (euArtifactID esp) (euAttemptID esp)) (ended_artifact esp)
      (euWorkspaceID esp) (euImportID esp) (if euRejectCode esp \<noteq> [] then ImportRejected else ImportAwaitingUpload) (euEndedAt esp) db1 = Inl e"
    by (rule finish_attempt_stale) (simp add: n assms(7-9))
  then have "\<exists>e. EndUpload env' esp db1 = (db1, Inl e)" by (elim exE) (simp add: EndUpload_def and_then_def transact_Inl)
  with c show ?thesis by blast
qed

theorem stale_upload_fenced_witness:
  "\<exists>db1. (\<exists>e. CommitUpload (quiet_env 0) sample_stale_commit db1 = (db1, Inl e)) \<and> (\<exists>e. EndUpload (quiet_env 0) sample_stale_end db1 = (db1, Inl e))"
proof -
  obtain db1 s where b: "BeginUpload (quiet_env 0) sample_begin sample_reserved = (db1, Inr s)" "usCommitted s = None"
    using sample_begins by blast
  show ?thesis
    using stale_upload_fenced [OF sample_runs(1) [of Some] b, of sample_stale_commit sample_stale_end "quiet_env 0"]
    by (auto simp: sample_stale_commit_def sample_stale_end_def sample_begin_def begin_spec_def sample_upload_def sample_id_def)
qed

text \<open>C10.  A receipt is sound: when an upload returns one, as first upload, as continuation of an interrupted one or as
  replay, and whatever other processes did in between, its size and digest are those of the bytes the client sent, and the
  import has a committed artifact with that size and digest.  The blob store's \<open>Put\<close> is assumed to report the size and
  digest of the bytes it stored, and the client's reader to keep its contract.\<close>

theorem upload_receipt_sound:
  assumes "byte_stream src content steps" "ingest_run sha jsonb (empty_ingest ws apps links) db"
    and "\<forall>k d. ingest_run sha jsonb d (others k d)" "\<forall>i\<in>set (import_rows db). 0 \<le> im_max_bytes i \<and> im_max_bytes i < 2 ^ 63 - 1"
    and "\<forall>key o' m. blob_put B key o' = Inr m \<longrightarrow> mdSize m = int (length (content s0)) \<and> mdSHA256 m = hex_of (sha (content s0))"
    and "Upload sha auth B c src s0 ctxs envs clk rnd others hasContent r db = Some (db', Inr rc)"
  shows "urSizeBytes rc = int (length (content s0)) \<and> urSHA256 rc = hex_of (sha (content s0)) \<and>
    (\<exists>a\<in>evidence db'. artifact_import a = (uqWorkspaceID r, uqImportID r) \<and> ar_size a = Some (urSizeBytes rc) \<and> ar_sha256 a = Some (sha (content s0)))"
proof -
  have l: "lives db" by (rule import_lives.inv_run [OF assms(2) empty_lives(1)])
  note exact = byte_stream.verifyContent_exact [OF assms(1)]
  have max: "BeginUpload (envs 0) sp db = (d, Inr s) \<Longrightarrow> 0 \<le> usMaxBytes s \<and> usMaxBytes s < 2 ^ 63 - 1" for sp d s
    using BeginUpload_session(1) assms(4) by fastforce
  from assms(6) show ?thesis
  proof (cases rule: Upload_cases)
    case (replayed sp s rc')
    from replayed(3) have v: "verifyContent sha src s0 ctxs (usMaxBytes s) (uqDeclaredSize r) (usExpectedSize s) (usExpectedSHA256 s)
        (urSizeBytes rc') (urSHA256 rc') = Some None" and rc: "rc = rc'"
      by (auto simp: verifyReplay_def split: option.splits)
    from exact [OF _ _ v] max [OF replayed(1)] have e: "urSizeBytes rc = int (length (content s0))" "urSHA256 rc = hex_of (sha (content s0))"
      by (simp_all add: rc)
    from BeginUpload_session(2) [OF replayed(1,2)] obtain a d where "db' = db" "artifact_of (uqWorkspaceID r) (uqImportID r) db = Some a"
      "ar_state a = ArtifactCommitted" "ar_size a = Some (urSizeBytes rc)" "ar_sha256 a = Some d" "urSHA256 rc = hex_of d"
      using replayed(4,5) rc by auto
    with e show ?thesis using artifact_of_evidence [of "uqWorkspaceID r" "uqImportID r" db a] hex_of_inj by auto
  next
    case (committed sp db1 s m rc')
    have l1: "lives (others 0 db1)"
      using import_lives.inv_run [OF r_into_rtranclp [of "ingest_step sha jsonb", OF ingest_step.begin_upload [OF committed(1)]] l]
        import_lives.inv_run assms(3) by blast
    have m: "mdSize m = int (length (content s0))" "mdSHA256 m = hex_of (sha (content s0))"
      using committed(3) exact max [OF committed(1)] assms(5) unfolding store_content_def
      by (fastforce split: if_splits option.splits sum.splits)+
    from CommitUpload_evidence [OF committed(4) l1] m committed(5) show ?thesis
      using artifact_of_evidence [of "uqWorkspaceID r" "uqImportID r" db'] by (auto simp: commit_spec_def)
  qed (auto simp: releaseAttempt_def store_content_no_receipt)
qed

theorem upload_receipt_sound_witness:
  "\<exists>a\<in>evidence sample_uploaded. artifact_import a = (''ws1'', sample_id ''imp_'') \<and> ar_size a = Some 3 \<and> ar_sha256 a = Some (demo_sha ''abc'')"
proof -
  have "\<forall>i\<in>set (import_rows sample_reserved). 0 \<le> im_max_bytes i \<and> im_max_bytes i < 2 ^ 63 - 1"
    by (simp add: sample_reserved_def sample_db_def sample_import_def)
  moreover have "\<forall>key o' m. blob_put sample_blobs key o' = Inr m \<longrightarrow>
      mdSize m = int (length (concat [''abc''])) \<and> mdSHA256 m = hex_of (demo_sha (concat [''abc'']))"
    by (auto simp: sample_blobs_def)
  ultimately show ?thesis
    using upload_receipt_sound [OF chunk_content.byte_stream_axioms sample_runs(1) [of Some] _ _ _ sample_uploads]
    by (simp add: sample_upload_def)
qed

text \<open>C40.  Verifying an upload against stored bytes ends: on a stream that delivers a finite content in finitely many
  reads, as many reads as the stream takes and one more are enough, whatever the context reports on the way.\<close>

theorem upload_verification_terminates:
  assumes "byte_stream src content steps" "0 \<le> m" "m < 2 ^ 63 - 1" "steps s0 < length ctxs"
  shows "\<exists>res. verifyContent sha src s0 ctxs m declared expected expectedSHA csize digest = Some res"
  using byte_stream.verifyContent_ends [OF assms] by blast

theorem upload_verification_terminates_witness:
  "\<exists>res. verifyContent demo_sha chunk_read [''abc''] (replicate 5 (None, None)) 100 None None [] 3 (hex_of (demo_sha ''abc'')) = Some res"
  by (rule upload_verification_terminates [OF chunk_content.byte_stream_axioms]) simp_all

text \<open>C26.  A reservation is made once per key: after a request created an import, and whatever calls follow, repeating the
  request creates nothing and changes nothing, and answers with that same import: every field the first answer had (identity,
  owner, format, expectations, limits, analysis context, creation and expiry times, to the microsecond the database
  keeps) other than the state and the time of the last update, which are those of the import's progress.\<close>

theorem reservation_replayed:
  assumes "Reserve sha auth c cdb envs now rnd r db0 db1 db = (db', Inr res)" "resvCreated res" "ingest_run sha jsonb db' db2"
    and "auth' (rqPrincipalID r) (rqWorkspaceID r) (rqApplicationID r) CapabilityImportsCreate = None" "calm (envs' 0)"
    and "ingest_run sha jsonb (empty_ingest ws apps links) db"
  shows "\<exists>i. Reserve sha auth' c' cdb' envs' now' rnd' r db2 db3 db4 = (db4, Inr \<lparr>resvImport = i, resvCreated = False\<rparr>) \<and>
    i\<lparr>impState := impState (resvImport res), impUpdatedAt := impUpdatedAt (resvImport res)\<rparr> = stored_import (resvImport res)"
  using replay_answer [OF assms(1-3), of auth' envs' ws apps links c' cdb' now' rnd' db3 db4] assms(4-6) by blast

theorem reservation_replayed_witness:
  "\<exists>i. Reserve demo_sha sample_allow sample_config demo_catalog (\<lambda>_. quiet_env 0) 9000 (\<lambda>_. None) sample_reserve sample_uploaded sample_uploaded sample_uploaded =
      (sample_uploaded, Inr \<lparr>resvImport = i, resvCreated = False\<rparr>) \<and>
    i\<lparr>impState := ImportAwaitingUpload, impUpdatedAt := 1000000\<rparr> = scanImport (sample_import ImportAwaitingUpload 1000000) None"
proof -
  have f: "stored_import (scanImport (sample_import ImportAwaitingUpload 1000000) None) = scanImport (sample_import ImportAwaitingUpload 1000000) None"
    "impState (scanImport (sample_import ImportAwaitingUpload 1000000) None) = ImportAwaitingUpload"
    "impUpdatedAt (scanImport (sample_import ImportAwaitingUpload 1000000) None) = 1000000"
    by (simp_all add: stored_import_def scanImport_def sample_import_def truncate_us_def)
  have e: "ingest_run demo_sha Some (empty_ingest [''ws1''] [(''ws1'', ''app1'')] []) sample_ingest" by (simp add: sample_ingest_def)
  show ?thesis
    using reservation_replayed [OF sample_reserves _ sample_runs(2) [of Some] _ _ e,
        of sample_allow "\<lambda>_. quiet_env 0" sample_config demo_catalog 9000 "\<lambda>_. None" sample_uploaded sample_uploaded]
    by (simp add: sample_allow_def f)
qed

text \<open>C21.  Completion happens once per key: after a request completed an upload, and whatever calls follow, repeating it
  returns the very same operation, a request for another import under the same key is refused as a conflict, and neither
  changes anything, so that no second operation or job is created.\<close>

theorem completion_once:
  assumes "Complete sha jsonb auth c env now opRnd jobRnd r db = (db1, Inr d)" "coCreated d" "ingest_run sha jsonb db1 db2"
    and "validateCompleteRequest r'" "cqPrincipalID r' = cqPrincipalID r" "cqWorkspaceID r' = cqWorkspaceID r"
      "cqApplicationID r' = cqApplicationID r" "cqIdempotencyKey r' = cqIdempotencyKey r"
    and "auth' (cqPrincipalID r') (cqWorkspaceID r') (cqApplicationID r') CapabilityImportsUpload = None"
    and "NewIngestService c' = Inr c'" "calm env'" "\<forall>k. \<not> db_locked env' k" "\<forall>x. length (sha x) = 32"
  shows "Complete sha jsonb auth' c' env' now' (Some bs) jobRnd' r' db2 = (db2,
    if fingerprintCompletion sha r' = fingerprintCompletion sha r then Inr \<lparr>coOperation = coOperation d, coCreated = False\<rparr>
    else Inl IngIdempotencyConflict)"
proof -
  from assms(1) obtain fp op where fp: "fingerprintCompletion sha r = Some fp"
    and st: "store_Complete sha jsonb env jobRnd (complete_spec c now r fp op) db = (db1, Inr d)"
    by (auto simp: Complete_def split: if_splits option.splits sum.splits)
  let ?sp = "complete_spec c now r fp op"
  obtain fp' where fp': "fingerprintCompletion sha r' = Some fp'" using assms(4) by (simp add: fingerprintCompletion_def)
  obtain op' where op': "import_identifier ''op_'' (Some bs) = Inr op'" by (simp add: import_identifier_def)
  let ?sp' = "complete_spec c' now' r' fp' op'"
  note fits = complete_spec_fits [OF assms(4,10) fp' assms(13)]
  have sc: "key_scope (complete_key ?sp') = key_scope (complete_key ?sp)" "cpApplicationID ?sp' = cpApplicationID ?sp" "cpPrincipalID ?sp' = cpPrincipalID ?sp"
    using assms(5-8) by (simp_all add: key_scope_def complete_key_def complete_spec_def)
  note f = completion_found [OF st assms(2,3) sc]
  have t: "db_text (opWorkspaceID (cpOperation ?sp'))" "db_text (cpPrincipalID ?sp')" "db_text (cpApplicationID ?sp')"
    using fits(2-4) by (simp_all add: complete_spec_def)
  have k: "ky_fingerprint (complete_key ?sp) = cpRequestFingerprint ?sp" by (simp add: complete_key_def)
  from store_Complete_replay [OF assms(11,12) fits(1) t f(1) f(2) [folded k], of sha jsonb jobRnd'] store_Complete_created(2) [OF st assms(2)]
  show ?thesis using assms(4,9) fp fp' op' by (simp add: Complete_def complete_key_def complete_spec_def)
qed

theorem completion_once_witness:
  "\<exists>q. length (operations (sample_failed q)) = 1 \<and>
    Complete demo_sha Some sample_allow sample_config (quiet_env 9000000) 8000000 (Some ''x'') (Some []) sample_complete (sample_failed q) =
    (sample_failed q, Inr \<lparr>coOperation = cpOperation sample_completion, coCreated = False\<rparr>)"
proof -
  obtain q where c: "Complete demo_sha Some sample_allow sample_config (quiet_env 5000000) 4000000 (Some []) (Some []) sample_complete sample_uploaded =
      (sample_queued q, Inr \<lparr>coOperation = cpOperation sample_completion, coCreated = True\<rparr>)"
    and f: "ingest_run demo_sha Some (sample_queued q) (sample_failed q)"
    by (rule sample_later_runs) blast
  have "validateCompleteRequest sample_complete" using sample_checks by blast
  then have "Complete demo_sha Some sample_allow sample_config (quiet_env 9000000) 8000000 (Some ''x'') (Some []) sample_complete (sample_failed q) =
    (sample_failed q, Inr \<lparr>coOperation = cpOperation sample_completion, coCreated = False\<rparr>)"
    using completion_once [OF c _ f, of sample_complete sample_allow sample_config "quiet_env 9000000" 8000000 "''x''" "Some []"]
      sample_config_valid
    by (auto simp: sample_allow_def demo_sha_def)
  then show ?thesis by (intro exI [of _ q]) (simp add: sample_failed_def)
qed

end
