(* ===== verification/Spec2Isabelle.thy ===== *)
theory Spec2Isabelle
  imports Job_Worker Blob_Stream Identity Observation Correlation Catalog Bootstrap Import_Props
begin

text \<open>
  Open ASPM, a service that imports scanner reports (SARIF) into a PostgreSQL database.

  \<^bold>\<open>The program.\<close>  A client authenticates with a bearer token (\<open>internal/authentication\<close>), is authorized per
  workspace and capability (\<open>internal/authorization\<close>), reserves an import and uploads a raw report
  (\<open>internal/ingestion\<close>), whose bytes go through bounded, hashed streams into a blob store
  (\<open>internal/blobstore\<close>).  Completing the import enqueues a job (\<open>internal/jobqueue\<close>).  Workers lease jobs,
  parse the report (\<open>internal/parsing/sarif\<close>), record its scans and observations (\<open>internal/ingestion\<close>,
  \<open>internal/finding\<close>), normalize each observation (\<open>internal/normalization/sarif\<close>) and record why it is not
  correlated yet (\<open>internal/correlation\<close>).  All state is in PostgreSQL, so correctness is about
  transactions, leases that expire, retries that repeat a call, and constraints of the schema.

  \<^bold>\<open>The library.\<close>
  \<^item> \<open>Go_Runtime\<close>: int64 wrap-around, instants and durations in nanoseconds since Go's zero time, UTF-8, white space,
    anchored patterns and the identifier checks the packages repeat.
  \<^item> \<open>Go_Encoding\<close>: decimal, hexadecimal, base32 and RFC 3339 text.
  \<^item> \<open>Go_Json\<close>, \<open>Go_Json_Facts\<close>: \<open>encoding/json\<close> as the packages use it, a parser and the marshaller, with the
    round trip \<open>json_parse (marshal v) = Some v\<close>.  The parser's fuel is twice the length of the
    text plus two, which \<open>fuel_enough\<close> shows to be enough; nesting is limited to 10000 as in Go.
  \<^item> \<open>Sql_Store\<close>: what a database call sees: the time, locks held by others, faults of statements, and a commit
    that may have been applied although an error was reported.  A transaction is a function from the old tables
    to the new ones and a result; a fault rolls it back.
  \<^item> \<open>Sql_Tx\<close>: transactions of several statements, inserts under keys and checks, and what their success means.

  \<^bold>\<open>The job queue\<close> (\<open>jobqueue/queue.go\<close>, migration 00002).  \<open>Job_Queue\<close> has one definition per method
  (\<open>enqueue\<close>, \<open>Acquire\<close>, \<open>Start\<close>, \<open>Heartbeat\<close>, \<open>Succeed\<close>, \<open>SucceedTx\<close>, \<open>Fail\<close>,
  \<open>RequestCancellation\<close>, \<open>CancelActive\<close>, \<open>RecoverExpired\<close>, \<open>metrics\<close>) over the two tables, with every
  guard, statement and error.  \<open>Job_Lifecycle\<close> is the abstract lease machine and its invariant;
  \<open>Job_Queue_Refine\<close> shows that every method performs enabled effects of that machine; \<open>Job_Queue_Props\<close>
  (C1 to C4, C6 to C9, C11, C12) concludes: reachable databases satisfy the schema, ended jobs stay ended, a lost lease is fenced off
  for good, the in-flight limit holds, acquisition is fair, a requested cancellation wins, enqueuing is idempotent,
  recovery frees every expired lease, failures follow the retry rules, and fingerprints are canonical.

  \<^bold>\<open>The worker\<close> (\<open>jobqueue/worker.go\<close>).  \<open>Job_Worker\<close>: \<open>process\<close>, \<open>runSlot\<close>, \<open>Run\<close>, the retry delays.  The Go
  interface \<open>queueBackend\<close> is a record of state transformers; the locales \<open>reporting_backend\<close>, \<open>slot_backend\<close> and
  \<open>lease_backend\<close> are what the worker relies on, interpreted on the queue with arbitrary interference of other
  processes before every call.  C14 and C15 are the retry delays; C16 says that a slot makes a job succeed only when a
  handler reported success and its context had not ended.  A slot's loop runs over a list of iterations of any length, the
  heartbeats of a job over a list of ticks, so no bound is built in.

  \<^bold>\<open>Blob streams\<close> (\<open>blobstore.go\<close>, \<open>stream.go\<close>).  \<open>Blob_Stream\<close>: the bounded reader never passes its limit, the
  verified reader ends cleanly only on the committed size and digest for every stream that keeps the contract of
  \<open>io.Reader\<close> (locale \<open>io_reader\<close>), and the one limit for which the bounded reader panics (C18 to C20).

  \<^bold>\<open>Identity\<close> (\<open>authentication\<close>, \<open>authorization\<close>, migration 00012).  \<open>Identity\<close>: tokens are generated, parsed, looked up,
  verified and their use recorded; the authorization query over principals, memberships, service accounts,
  bindings and token scopes.  C22 to C25: authentication is sound and complete for generated tokens, decisions are
  isolated per workspace, tokens never widen rights, and every missing or revoked piece denies.

  \<^bold>\<open>Observations, normalizations, outcomes\<close> (\<open>finding\<close>, \<open>normalization/sarif\<close>, \<open>correlation\<close>, migrations 00006, 00008,
  00009).  \<open>Observation\<close> and \<open>Correlation\<close>: canonical forms, fingerprints over their JSON, and immutable tables.  The
  locale \<open>append_only\<close> is the contract of such a table, interpreted on all three; C27 to C34: rows never change,
  an exact replay returns the retained row, a conflicting one is rejected, canonical forms do not depend on
  input order and fit the schema, and the encoding that is hashed loses nothing.

  \<^bold>\<open>Catalog\<close> (\<open>catalog\<close>, migration 00010).  \<open>Catalog\<close>: repositories created under an idempotency key, links between
  applications and repositories, and target resolution; its tables are further interpretations of \<open>append_only\<close>.
  C35 and C36: a creation happens once per key, and a link resolves to the relationship it returned.

  \<^bold>\<open>Operator bootstrap\<close> (\<open>bootstrap\<close>, \<open>identity\<close>, \<open>tenancy\<close>, migration 00013).  \<open>Bootstrap\<close>: the one transaction that creates
  the first workspace, operator, role, application and token, and token rotation, on the tables of \<open>Identity\<close>.
  C37 to C39: it happens once, its token authenticates and is authorized, and rotation leaves one live token.

  \<^bold>\<open>Imports\<close> (\<open>ingestion\<close>, migrations 00003 to 00005, 00007, 00011).  \<open>Ingestion\<close> has the types, the tables with their
  checks and the store's transactions of \<open>postgres.go\<close>: \<open>store_Reserve\<close>, \<open>ReplayReservation\<close>, \<open>BeginUpload\<close>, \<open>CommitUpload\<close>,
  \<open>EndUpload\<close> and \<open>store_Complete\<close>, which enqueues the job on the model of the queue; \<open>Processing\<close> has those of
  \<open>processing_postgres.go\<close>.  \<open>Import_Lifecycle\<close> is the abstract machine of one import; the locale \<open>simulation\<close> is the contract of
  a system that follows such a machine, interpreted on all calls of the store under any interleaving and faults.
  \<open>Import_Service\<close> is \<open>service.go\<close>: \<open>Reserve\<close>, \<open>Upload\<close>, \<open>Complete\<close>, with other processes acting between two store calls.
  \<open>Import_Stream\<close> gives the contract of an upload's reader (locale \<open>byte_stream\<close>); \<open>verifyContent\<close> takes a list of reads, and one
  read more than the stream needs is enough.  \<open>Import_Facts\<close> shows what never changes once written, \<open>Import_Example\<close> is a concrete
  run from an empty store through reservation, upload, completion and failure, and \<open>Import_Props\<close> concludes: imports refine their lifecycle (C5), receipts are sound (C10), evidence and outcomes are final
  (C13), stale upload attempts are fenced (C17), completion and reservation happen once per key and a replay answers with the
  same operation or import (C21, C26), and verification ends (C40).  \<open>replay_answers_current_state\<close> shows that the replayed
  import carries the state it has reached.

  \<^bold>\<open>Parameters.\<close>  SHA-256 and HMAC are functions with digests of 32 bytes where that matters; random sources and
  clocks are inputs of each call; \<open>jsonb\<close> normalization is a function.  The authorizer and the blob store are functions too.  Wrapped streams, handlers and database faults
  are arbitrary.

  \<^bold>\<open>Not modelled.\<close>  The SARIF parser, scan records and the import job handler are not in the library yet.  File-system and S3
  back ends, the HTTP server, the command line, the migrator and version reporting are input and output or process
  wiring.  Indexes and the isolation of concurrent statements are abstracted: a transaction acts atomically, and
  other processes act between transactions.  Authentication's lookup and its recording of the use see the same tables, and
  a stream that returns more bytes than asked for is outside the contract of \<open>io.Reader\<close>.
\<close>

end
